(* ===== verification/GA_Prelude.thy ===== *)
theory GA_Prelude
  imports Complex_Main "HOL-Library.State_Monad" "HOL-Library.Word" "HOL-Library.AList"
begin

text \<open>
  Shared base of the development: the names of the machine types, the theorem collections the
  component proofs draw on, and a small weakest-precondition calculus for the state monad in
  which the effectful parts of the daemon (the shell-outs, the process scans, the brief critical
  sections on the shared state) are written.
\<close>

section \<open>Types and collections\<close>

type_synonym u8 = "8 word"
type_synonym u32 = "32 word"
type_synonym u64 = "64 word"

text \<open>
  Instants of the monotonic clock and durations are nanoseconds, as natural numbers.
  \<open>'e result\<close> in the source is a sum: \<open>Inl\<close> is \<open>Err\<close>, \<open>Inr\<close> is \<open>Ok\<close>.
\<close>

type_synonym time = nat

definition from_secs :: "nat \<Rightarrow> time" where
  "from_secs s = s * 1000000000"

definition from_millis :: "nat \<Rightarrow> time" where
  "from_millis ms = ms * 1000000"

lemma from_secs_mono [simp]: "from_secs a \<le> from_secs b \<longleftrightarrow> a \<le> b"
  by (simp add: from_secs_def)

lemma from_secs_0 [simp]: "from_secs 0 = 0"
  by (simp add: from_secs_def)

named_theorems wp_simps "weakest preconditions of the monad's operations and of small blocks"
named_theorems model_defs "definitions a functional proof unfolds"

section \<open>Results\<close>

fun ok_of :: "'e + 'a \<Rightarrow> 'a option" where
  "ok_of (Inl _) = None"
| "ok_of (Inr a) = Some a"

lemma ok_of_eq_Some [simp]: "ok_of r = Some a \<longleftrightarrow> r = Inr a"
  by (cases r) auto

lemma ok_of_eq_None: "ok_of r = None \<longleftrightarrow> (\<exists>e. r = Inl e)"
  by (cases r) auto

fun unwrap_or :: "'e + 'a \<Rightarrow> 'a \<Rightarrow> 'a" where
  "unwrap_or (Inl _) d = d"
| "unwrap_or (Inr a) d = a"

section \<open>Weakest preconditions for the state monad\<close>

definition wp :: "('s, 'a) state \<Rightarrow> ('a \<Rightarrow> 's \<Rightarrow> bool) \<Rightarrow> 's \<Rightarrow> bool" where
  "wp m Q s = (case run_state m s of (a, s') \<Rightarrow> Q a s')"

lemma wp_return [wp_simps]: "wp (State_Monad.return a) Q s = Q a s"
  by (simp add: wp_def)

lemma wp_bind [wp_simps]: "wp (State_Monad.bind m f) Q s = wp m (\<lambda>a. wp (f a) Q) s"
  by (simp add: wp_def split: prod.splits)

lemma wp_get [wp_simps]: "wp State_Monad.get Q s = Q s s"
  by (simp add: wp_def)

lemma wp_set [wp_simps]: "wp (State_Monad.set s') Q s = Q () s'"
  by (simp add: wp_def)

lemma run_state_update [simp]: "run_state (State_Monad.update f) s = ((), f s)"
  by (simp add: State_Monad.update_def)

lemma wp_update [wp_simps]: "wp (State_Monad.update f) Q s = Q () (f s)"
  by (simp add: wp_def)

lemma wp_State [wp_simps]: "wp (State f) Q s = (case f s of (a, s') \<Rightarrow> Q a s')"
  by (simp add: wp_def)

lemma wp_if [wp_simps]:
  "wp (if b then m1 else m2) Q s = (if b then wp m1 Q s else wp m2 Q s)"
  by simp

lemma wp_mono: "wp m Q s \<Longrightarrow> (\<And>a s'. Q a s' \<Longrightarrow> R a s') \<Longrightarrow> wp m R s"
  by (auto simp: wp_def split: prod.splits)

lemma wp_conj: "wp m Q s \<Longrightarrow> wp m R s \<Longrightarrow> wp m (\<lambda>a s'. Q a s' \<and> R a s') s"
  by (auto simp: wp_def split: prod.splits)

lemma wp_run: "wp m Q s \<Longrightarrow> run_state m s = (a, s') \<Longrightarrow> Q a s'"
  by (simp add: wp_def)

lemma wpI: "(\<And>a s'. run_state m s = (a, s') \<Longrightarrow> Q a s') \<Longrightarrow> wp m Q s"
  by (auto simp: wp_def split: prod.splits)

lemma wp_True [simp]: "wp m (\<lambda>_ _. True) s"
  by (simp add: wp_def split: prod.splits)

text \<open>
  A triple says that a computation started in a state satisfying \<open>P\<close> ends in one satisfying
  \<open>Q\<close>; \<open>keeps P m\<close> is the triple of an invariant. Both compose along \<open>bind\<close>.
\<close>

definition triple :: "('s \<Rightarrow> bool) \<Rightarrow> ('s, 'a) state \<Rightarrow> ('a \<Rightarrow> 's \<Rightarrow> bool) \<Rightarrow> bool" where
  "triple P m Q \<longleftrightarrow> (\<forall>s. P s \<longrightarrow> wp m Q s)"

definition keeps :: "('s \<Rightarrow> bool) \<Rightarrow> ('s, 'a) state \<Rightarrow> bool" where
  "keeps P m \<longleftrightarrow> triple P m (\<lambda>_. P)"

lemma tripleI: "(\<And>s. P s \<Longrightarrow> wp m Q s) \<Longrightarrow> triple P m Q"
  by (simp add: triple_def)

lemma tripleD: "triple P m Q \<Longrightarrow> P s \<Longrightarrow> wp m Q s"
  by (simp add: triple_def)

lemma triple_run: "triple P m Q \<Longrightarrow> P s \<Longrightarrow> run_state m s = (a, s') \<Longrightarrow> Q a s'"
  by (auto dest: tripleD wp_run)

lemma triple_bind:
  "triple P m R \<Longrightarrow> (\<And>a. triple (R a) (f a) Q) \<Longrightarrow> triple P (State_Monad.bind m f) Q"
  by (auto simp: triple_def wp_bind intro: wp_mono)

lemma triple_conseq:
  "triple P' m Q' \<Longrightarrow> (\<And>s. P s \<Longrightarrow> P' s) \<Longrightarrow> (\<And>a s. Q' a s \<Longrightarrow> Q a s) \<Longrightarrow> triple P m Q"
  unfolding triple_def by (blast intro: wp_mono)

lemma keepsI: "(\<And>s. P s \<Longrightarrow> wp m (\<lambda>_. P) s) \<Longrightarrow> keeps P m"
  by (simp add: keeps_def triple_def)

lemma keeps_wp: "keeps P m \<Longrightarrow> P s \<Longrightarrow> wp m (\<lambda>_. P) s"
  by (simp add: keeps_def triple_def)

lemma keeps_run: "keeps P m \<Longrightarrow> P s \<Longrightarrow> run_state m s = (a, s') \<Longrightarrow> P s'"
  by (auto dest: keeps_wp wp_run)

named_theorems keeps_intros "introduction rules for invariants of monadic code"

lemma keeps_return [keeps_intros]: "keeps P (State_Monad.return a)"
  by (simp add: keeps_def triple_def wp_simps)

lemma keeps_bind [keeps_intros]:
  "keeps P m \<Longrightarrow> (\<And>a. keeps P (f a)) \<Longrightarrow> keeps P (State_Monad.bind m f)"
  by (auto simp: keeps_def intro: triple_bind)

lemma keeps_get [keeps_intros]: "keeps P State_Monad.get"
  by (simp add: keeps_def triple_def wp_simps)

lemma keeps_update [keeps_intros]: "(\<And>s. P s \<Longrightarrow> P (f s)) \<Longrightarrow> keeps P (State_Monad.update f)"
  by (simp add: keeps_def triple_def wp_simps)

lemma keeps_if [keeps_intros]:
  "(b \<Longrightarrow> keeps P m1) \<Longrightarrow> (\<not> b \<Longrightarrow> keeps P m2) \<Longrightarrow> keeps P (if b then m1 else m2)"
  by simp

lemma keeps_case_bool [keeps_intros]:
  "keeps P f \<Longrightarrow> keeps P g \<Longrightarrow> keeps P (case r of True \<Rightarrow> f | False \<Rightarrow> g)"
  by (cases r) auto

lemma keeps_case_sum [keeps_intros]:
  "(\<And>e. r = Inl e \<Longrightarrow> keeps P (f e)) \<Longrightarrow> (\<And>a. r = Inr a \<Longrightarrow> keeps P (g a)) \<Longrightarrow>
   keeps P (case r of Inl e \<Rightarrow> f e | Inr a \<Rightarrow> g a)"
  by (cases r) auto

lemma keeps_case_option [keeps_intros]:
  "(r = None \<Longrightarrow> keeps P f) \<Longrightarrow> (\<And>a. r = Some a \<Longrightarrow> keeps P (g a)) \<Longrightarrow>
   keeps P (case r of None \<Rightarrow> f | Some a \<Rightarrow> g a)"
  by (cases r) auto

lemma keeps_case_prod [keeps_intros]:
  "(\<And>a b. r = (a, b) \<Longrightarrow> keeps P (f a b)) \<Longrightarrow> keeps P (case r of (a, b) \<Rightarrow> f a b)"
  by (cases r) auto

lemma keeps_conj: "keeps P m \<Longrightarrow> keeps Q m \<Longrightarrow> keeps (\<lambda>s. P s \<and> Q s) m"
  by (auto simp: keeps_def triple_def intro: wp_mono wp_conj)

section \<open>Loops over a list\<close>

text \<open>\<open>for x in xs { ... }\<close> with a body that only acts on the state.\<close>

fun for_each :: "('a \<Rightarrow> ('s, unit) state) \<Rightarrow> 'a list \<Rightarrow> ('s, unit) state" where
  "for_each f [] = State_Monad.return ()"
| "for_each f (x # xs) = State_Monad.bind (f x) (\<lambda>_. for_each f xs)"

lemma keeps_for_each [keeps_intros]:
  "(\<And>x. x \<in> set xs \<Longrightarrow> keeps P (f x)) \<Longrightarrow> keeps P (for_each f xs)"
  by (induction xs) (auto intro!: keeps_intros)

text \<open>\<open>xs.into_iter().filter(f)\<close> with an effectful test.\<close>

fun filter_m :: "('a \<Rightarrow> ('s, bool) state) \<Rightarrow> 'a list \<Rightarrow> ('s, 'a list) state" where
  "filter_m f [] = State_Monad.return []"
| "filter_m f (x # xs) = State_Monad.bind (f x) (\<lambda>b.
     State_Monad.bind (filter_m f xs) (\<lambda>ys. State_Monad.return (if b then x # ys else ys)))"

lemma keeps_filter_m [keeps_intros]:
  "(\<And>x. x \<in> set xs \<Longrightarrow> keeps P (f x)) \<Longrightarrow> keeps P (filter_m f xs)"
  by (induction xs) (auto intro!: keeps_intros)

lemma keeps_traverse_list [keeps_intros]:
  "(\<And>x. x \<in> set xs \<Longrightarrow> keeps P (f x)) \<Longrightarrow> keeps P (State_Monad.traverse_list f xs)"
  by (induction xs) (auto intro!: keeps_intros)

lemma filter_m_subset:
  "run_state (filter_m f xs) s = (ys, s') \<Longrightarrow> set ys \<subseteq> set xs"
proof (induction xs arbitrary: s ys s')
  case Nil
  then show ?case by simp
next
  case (Cons x xs)
  then show ?case
    by (fastforce split: prod.splits if_splits)
qed

section \<open>Association lists as hash maps\<close>

text \<open>
  The maps the metrics renderer enumerates are association lists with distinct keys;
  \<open>alist_default\<close> is \<open>map.entry(k).or_insert(d)\<close> and \<open>alist_upd\<close> the in-place change of the
  entry it returns.
\<close>

definition alist_upd :: "'k \<Rightarrow> 'v \<Rightarrow> ('v \<Rightarrow> 'v) \<Rightarrow> ('k \<times> 'v) list \<Rightarrow> ('k \<times> 'v) list" where
  "alist_upd k d f m =
     AList.update k (f (case map_of m k of None \<Rightarrow> d | Some v \<Rightarrow> v)) m"

definition alist_default :: "'k \<Rightarrow> 'v \<Rightarrow> ('k \<times> 'v) list \<Rightarrow> ('k \<times> 'v) list" where
  "alist_default k d m = (case map_of m k of None \<Rightarrow> AList.update k d m | Some _ \<Rightarrow> m)"

lemma map_of_alist_upd:
  "map_of (alist_upd k d f m) =
     (map_of m)(k \<mapsto> f (case map_of m k of None \<Rightarrow> d | Some v \<Rightarrow> v))"
  by (simp add: alist_upd_def update_conv')

lemma map_of_alist_default:
  "map_of (alist_default k d m) = (case map_of m k of None \<Rightarrow> (map_of m)(k \<mapsto> d) | Some _ \<Rightarrow> map_of m)"
  by (simp add: alist_default_def update_conv' split: option.splits)

lemma distinct_alist_upd [simp]:
  "distinct (map fst m) \<Longrightarrow> distinct (map fst (alist_upd k d f m))"
  by (simp add: alist_upd_def distinct_update)

lemma distinct_alist_default [simp]:
  "distinct (map fst m) \<Longrightarrow> distinct (map fst (alist_default k d m))"
  by (simp add: alist_default_def distinct_update split: option.splits)

end
