(* ===== verification/Rust_Text.thy ===== *)
theory Rust_Text
  imports GA_Prelude
begin

text \<open>
  The string functions of the Rust standard library that the daemon's parsers and renderers use.
  A \<open>String\<close>, \<open>&str\<close> or byte slice is the list of its UTF-8 bytes, so \<open>length\<close> is \<open>str::len\<close>.
  Where the library works on code points (\<open>char\<close>s, Unicode white space, lossy decoding) the
  functions below work on the encodings of those code points.
\<close>

section \<open>Bytes and characters\<close>

definition byte :: "char \<Rightarrow> nat" where
  "byte c = of_char c"

definition is_digit :: "char \<Rightarrow> bool" where
  "is_digit c \<longleftrightarrow> 48 \<le> byte c \<and> byte c \<le> 57"

definition digit_val :: "char \<Rightarrow> nat" where
  "digit_val c = byte c - 48"

definition digit_char :: "nat \<Rightarrow> char" where
  "digit_char n = char_of (48 + n mod 10)"

definition newline :: char where
  "newline = CHR 0x0A"

text \<open>\<open>str::to_ascii_lowercase\<close>.\<close>

definition to_ascii_lowercase :: "string \<Rightarrow> string" where
  "to_ascii_lowercase s =
     map (\<lambda>c. if 65 \<le> byte c \<and> byte c \<le> 90 then char_of (byte c + 32) else c) s"

section \<open>Searching and splitting\<close>

definition starts_with :: "string \<Rightarrow> string \<Rightarrow> bool" where
  "starts_with s p \<longleftrightarrow> take (length p) s = p"

definition ends_with :: "string \<Rightarrow> string \<Rightarrow> bool" where
  "ends_with s p \<longleftrightarrow> starts_with (rev s) (rev p)"

text \<open>\<open>s.contains(p)\<close>.\<close>

fun str_contains :: "string \<Rightarrow> string \<Rightarrow> bool" where
  "str_contains [] p = (p = [])"
| "str_contains (c # s) p = (starts_with (c # s) p \<or> str_contains s p)"

text \<open>\<open>s.split_once(p)\<close>: the text before and after the first occurrence.\<close>

fun split_once :: "string \<Rightarrow> string \<Rightarrow> (string \<times> string) option" where
  "split_once [] p = (if p = [] then Some ([], []) else None)"
| "split_once (c # s) p =
     (if starts_with (c # s) p then Some ([], drop (length p) (c # s))
      else map_option (\<lambda>(a, b). (c # a, b)) (split_once s p))"

text \<open>\<open>s.split(c)\<close> for a single character: always at least one piece.\<close>

fun split_on :: "char \<Rightarrow> string \<Rightarrow> string list" where
  "split_on c [] = [[]]"
| "split_on c (x # s) =
     (if x = c then [] # split_on c s
      else (case split_on c s of p # ps \<Rightarrow> (x # p) # ps | [] \<Rightarrow> [[x]]))"

text \<open>\<open>s.rsplit_once(c)\<close> for a single character.\<close>

fun rsplit_once :: "string \<Rightarrow> char \<Rightarrow> (string \<times> string) option" where
  "rsplit_once [] c = None"
| "rsplit_once (x # s) c =
     (case rsplit_once s c of
        Some (a, b) \<Rightarrow> Some (x # a, b)
      | None \<Rightarrow> if x = c then Some ([], s) else None)"

fun str_join :: "string \<Rightarrow> string list \<Rightarrow> string" where
  "str_join sep [] = []"
| "str_join sep [x] = x"
| "str_join sep (x # y # xs) = x @ sep @ str_join sep (y # xs)"

text \<open>
  \<open>str::lines\<close>: the pieces between newlines, a piece that ended with a newline losing one
  trailing carriage return, and no last piece for a text that ends with a newline.
\<close>

definition strip_cr :: "string \<Rightarrow> string" where
  "strip_cr l = (if l \<noteq> [] \<and> last l = CHR 0x0D then butlast l else l)"

definition str_lines :: "string \<Rightarrow> string list" where
  "str_lines s =
     (let ps = split_on newline s
      in map strip_cr (butlast ps) @ (if last ps = [] then [] else [last ps]))"

section \<open>White space\<close>

text \<open>
  The number of bytes of the Unicode white-space character a string starts with, 0 if it starts
  with none; \<open>ws_len_rev\<close> is the same for the last character of a string given reversed.
\<close>

definition ws3 :: "nat \<Rightarrow> nat \<Rightarrow> nat \<Rightarrow> bool" where
  "ws3 a b c \<longleftrightarrow>
     (a = 0xE1 \<and> b = 0x9A \<and> c = 0x80)
     \<or> (a = 0xE2 \<and> b = 0x80 \<and> ((0x80 \<le> c \<and> c \<le> 0x8A) \<or> c = 0xA8 \<or> c = 0xA9 \<or> c = 0xAF))
     \<or> (a = 0xE2 \<and> b = 0x81 \<and> c = 0x9F)
     \<or> (a = 0xE3 \<and> b = 0x80 \<and> c = 0x80)"

definition ws2 :: "nat \<Rightarrow> nat \<Rightarrow> bool" where
  "ws2 a b \<longleftrightarrow> a = 0xC2 \<and> (b = 0x85 \<or> b = 0xA0)"

definition ws1 :: "nat \<Rightarrow> bool" where
  "ws1 a \<longleftrightarrow> (9 \<le> a \<and> a \<le> 13) \<or> a = 32"

fun ws_len :: "string \<Rightarrow> nat" where
  "ws_len (a # b # c # _) =
     (if ws1 (byte a) then 1 else if ws2 (byte a) (byte b) then 2
      else if ws3 (byte a) (byte b) (byte c) then 3 else 0)"
| "ws_len [a, b] = (if ws1 (byte a) then 1 else if ws2 (byte a) (byte b) then 2 else 0)"
| "ws_len [a] = (if ws1 (byte a) then 1 else 0)"
| "ws_len [] = 0"

fun ws_len_rev :: "string \<Rightarrow> nat" where
  "ws_len_rev (a # b # c # _) =
     (if ws1 (byte a) then 1 else if ws2 (byte b) (byte a) then 2
      else if ws3 (byte c) (byte b) (byte a) then 3 else 0)"
| "ws_len_rev [a, b] = (if ws1 (byte a) then 1 else if ws2 (byte b) (byte a) then 2 else 0)"
| "ws_len_rev [a] = (if ws1 (byte a) then 1 else 0)"
| "ws_len_rev [] = 0"

lemma ws_len_pos: "0 < ws_len s \<Longrightarrow> 0 < length s"
  by (cases s) auto

lemma ws_len_rev_pos: "0 < ws_len_rev s \<Longrightarrow> 0 < length s"
  by (cases s) auto

function trim_start :: "string \<Rightarrow> string" where
  "trim_start s = (if ws_len s = 0 then s else trim_start (drop (ws_len s) s))"
  by pat_completeness auto
termination
  by (relation "measure length") (auto intro: diff_less ws_len_pos)

function trim_start_rev :: "string \<Rightarrow> string" where
  "trim_start_rev s = (if ws_len_rev s = 0 then s else trim_start_rev (drop (ws_len_rev s) s))"
  by pat_completeness auto
termination
  by (relation "measure length") (auto intro: diff_less ws_len_rev_pos)

declare trim_start.simps [simp del] trim_start_rev.simps [simp del]

definition trim_end :: "string \<Rightarrow> string" where
  "trim_end s = rev (trim_start_rev (rev s))"

definition str_trim :: "string \<Rightarrow> string" where
  "str_trim s = trim_end (trim_start s)"

text \<open>\<open>str::split_whitespace\<close>: the maximal white-space-free runs.\<close>

function words_from :: "string \<Rightarrow> string \<Rightarrow> string list" where
  "words_from acc [] = (if acc = [] then [] else [rev acc])"
| "words_from acc (c # s) =
     (if ws_len (c # s) = 0 then words_from (c # acc) s
      else (if acc = [] then [] else [rev acc]) @ words_from [] (drop (ws_len (c # s)) (c # s)))"
  by pat_completeness auto
termination
  by (relation "measure (\<lambda>(acc, s). length s)") auto

declare words_from.simps(2) [simp del]

definition split_whitespace :: "string \<Rightarrow> string list" where
  "split_whitespace s = words_from [] s"

text \<open>\<open>s.trim_end_matches(c)\<close>.\<close>

definition trim_end_matches :: "string \<Rightarrow> char \<Rightarrow> string" where
  "trim_end_matches s c = rev (dropWhile (\<lambda>x. x = c) (rev s))"

section \<open>Numbers\<close>

text \<open>Decimal digits, most significant first, and the value of a digit string.\<close>

definition digits_val :: "string \<Rightarrow> nat" where
  "digits_val s = foldl (\<lambda>n c. n * 10 + digit_val c) 0 s"

text \<open>
  \<open>str::parse\<close>: an optional sign (\<open>-\<close> for signed types only), at least one digit, nothing else,
  and a value in the range of the type.
\<close>

definition parse_digits :: "string \<Rightarrow> nat option" where
  "parse_digits s = (if s \<noteq> [] \<and> list_all is_digit s then Some (digits_val s) else None)"

definition strip_plus :: "string \<Rightarrow> string" where
  "strip_plus s = (case s of c # r \<Rightarrow> if c = CHR ''+'' then r else s | [] \<Rightarrow> [])"

definition parse_u64 :: "string \<Rightarrow> u64 option" where
  "parse_u64 s =
     (case parse_digits (strip_plus s) of
        Some n \<Rightarrow> if n < 2 ^ 64 then Some (of_nat n) else None
      | None \<Rightarrow> None)"

definition parse_i32 :: "string \<Rightarrow> int option" where
  "parse_i32 s =
     (if starts_with s ''-'' then
        (case parse_digits (tl s) of
           Some n \<Rightarrow> if n \<le> 2 ^ 31 then Some (- int n) else None
         | None \<Rightarrow> None)
      else
        (case parse_digits (strip_plus s) of
           Some n \<Rightarrow> if n < 2 ^ 31 then Some (int n) else None
         | None \<Rightarrow> None))"

fun show_nat :: "nat \<Rightarrow> string" where
  "show_nat n = (if n < 10 then [digit_char n] else show_nat (n div 10) @ [digit_char n])"

declare show_nat.simps [simp del]

definition show_int :: "int \<Rightarrow> string" where
  "show_int i = (if i < 0 then ''-'' @ show_nat (nat (- i)) else show_nat (nat i))"

text \<open>\<open>{:0w}\<close> for a non-negative number.\<close>

definition show_pad :: "nat \<Rightarrow> nat \<Rightarrow> string" where
  "show_pad w n = (let d = show_nat n in replicate (w - length d) (CHR ''0'') @ d)"

section \<open>Code points and lossy decoding\<close>

definition is_cont :: "char \<Rightarrow> bool" where
  "is_cont c \<longleftrightarrow> 0x80 \<le> byte c \<and> byte c < 0xC0"

text \<open>\<open>s.chars().count()\<close> and \<open>s.chars().take(n).collect()\<close> on valid UTF-8.\<close>

definition char_count :: "string \<Rightarrow> nat" where
  "char_count s = length (filter (\<lambda>c. \<not> is_cont c) s)"

fun take_chars :: "nat \<Rightarrow> string \<Rightarrow> string" where
  "take_chars n [] = []"
| "take_chars n (c # s) =
     (if is_cont c then c # take_chars n s
      else case n of 0 \<Rightarrow> [] | Suc m \<Rightarrow> c # take_chars m s)"

definition replacement :: string where
  "replacement = [CHR 0xEF, CHR 0xBF, CHR 0xBD]"

text \<open>
  \<open>utf8_step s\<close> is the length of the next chunk of \<open>s\<close> and whether it is a valid code point:
  an invalid chunk is the longest prefix of a valid encoding, or one byte.
\<close>

definition second_ok :: "nat \<Rightarrow> nat \<Rightarrow> bool" where
  "second_ok a b \<longleftrightarrow>
     (if a = 0xE0 then 0xA0 \<le> b \<and> b \<le> 0xBF
      else if a = 0xED then 0x80 \<le> b \<and> b \<le> 0x9F
      else if a = 0xF0 then 0x90 \<le> b \<and> b \<le> 0xBF
      else if a = 0xF4 then 0x80 \<le> b \<and> b \<le> 0x8F
      else 0x80 \<le> b \<and> b \<le> 0xBF)"

definition utf8_width :: "nat \<Rightarrow> nat" where
  "utf8_width a =
     (if a < 0x80 then 1
      else if 0xC2 \<le> a \<and> a \<le> 0xDF then 2
      else if 0xE0 \<le> a \<and> a \<le> 0xEF then 3
      else if 0xF0 \<le> a \<and> a \<le> 0xF4 then 4
      else 0)"

definition utf8_step :: "char \<Rightarrow> string \<Rightarrow> nat \<times> bool" where
  "utf8_step a s =
     (let w = utf8_width (byte a) in
      if w = 0 then (1, False)
      else if w = 1 then (1, True)
      else case s of
        [] \<Rightarrow> (1, False)
      | b # s1 \<Rightarrow>
          if \<not> second_ok (byte a) (byte b) then (1, False)
          else if w = 2 then (2, True)
          else case s1 of
            [] \<Rightarrow> (2, False)
          | c # s2 \<Rightarrow>
              if \<not> is_cont c then (2, False)
              else if w = 3 then (3, True)
              else case s2 of
                [] \<Rightarrow> (3, False)
              | d # _ \<Rightarrow> if is_cont d then (4, True) else (3, False))"

lemma utf8_step_pos: "0 < fst (utf8_step a s)"
  by (simp add: utf8_step_def Let_def split: list.split)

text \<open>\<open>String::from_utf8_lossy\<close>.\<close>

function utf8_lossy :: "string \<Rightarrow> string" where
  "utf8_lossy [] = []"
| "utf8_lossy (a # s) =
     (let (n, ok) = utf8_step a s
      in (if ok then take n (a # s) else replacement) @ utf8_lossy (drop n (a # s)))"
  by pat_completeness auto
termination
  by (relation "measure length")
    (auto simp: utf8_step_pos dest: arg_cong [where f = fst] split: prod.splits)

text \<open>
  \<open>String::from_utf8\<close>: the message of \<open>Utf8Error\<close> for the first invalid chunk, with its index.
\<close>

function utf8_error :: "nat \<Rightarrow> string \<Rightarrow> string option" where
  "utf8_error i [] = None"
| "utf8_error i (a # s) =
     (let (n, ok) = utf8_step a s
      in if ok then utf8_error (i + n) (drop n (a # s))
         else if utf8_width (byte a) \<noteq> 0 \<and> n = length (a # s) then
           Some (''incomplete utf-8 byte sequence from index '' @ show_nat i)
         else
           Some (''invalid utf-8 sequence of '' @ show_nat n @ '' bytes from index '' @ show_nat i))"
  by pat_completeness auto
termination
  by (relation "measure (\<lambda>(i, s). length s)")
    (auto simp: utf8_step_pos dest: arg_cong [where f = fst] split: prod.splits)

definition utf8_valid :: "string \<Rightarrow> bool" where
  "utf8_valid s \<longleftrightarrow> utf8_error 0 s = None"

text \<open>
  \<open>{:?}\<close> on a string: quotes, backslashes and ASCII control characters escaped. (Code points
  beyond ASCII are kept; the library escapes those it holds unprintable.)
\<close>

definition hex_digit :: "nat \<Rightarrow> char" where
  "hex_digit n = (if n < 10 then digit_char n else char_of (87 + n))"

definition debug_char :: "char \<Rightarrow> string" where
  "debug_char c =
     (if c = CHR 0x22 then [CHR 0x5C, CHR 0x22]
      else if c = CHR 0x5C then [CHR 0x5C, CHR 0x5C]
      else if byte c = 0 then [CHR 0x5C, CHR ''0'']
      else if byte c = 9 then [CHR 0x5C, CHR ''t'']
      else if byte c = 10 then [CHR 0x5C, CHR ''n'']
      else if byte c = 13 then [CHR 0x5C, CHR ''r'']
      else if byte c < 16 then [CHR 0x5C] @ ''u{'' @ [hex_digit (byte c)] @ ''}''
      else if byte c < 32 \<or> byte c = 127 then
        [CHR 0x5C] @ ''u{'' @ [hex_digit (byte c div 16), hex_digit (byte c mod 16)] @ ''}''
      else [c])"

definition str_debug :: "string \<Rightarrow> string" where
  "str_debug s = [CHR 0x22] @ concat (map debug_char s) @ [CHR 0x22]"

section \<open>Lemmas\<close>

lemma starts_with_iff: "starts_with s p \<longleftrightarrow> (\<exists>r. s = p @ r)"
proof
  assume "starts_with s p"
  then have "s = p @ drop (length p) s"
    by (metis append_take_drop_id starts_with_def)
  then show "\<exists>r. s = p @ r" ..
qed (auto simp: starts_with_def)

lemma starts_with_append [simp]: "starts_with (p @ r) p"
  by (simp add: starts_with_def)

lemma ends_with_iff: "ends_with s p \<longleftrightarrow> (\<exists>r. s = r @ p)"
proof -
  have "ends_with s p \<longleftrightarrow> (\<exists>r. rev s = rev p @ r)"
    by (simp add: ends_with_def starts_with_iff)
  also have "\<dots> \<longleftrightarrow> (\<exists>r. s = rev r @ p)"
    by (metis rev_append rev_rev_ident)
  also have "\<dots> \<longleftrightarrow> (\<exists>r. s = r @ p)"
    by (metis rev_rev_ident)
  finally show ?thesis .
qed

lemma str_contains_iff: "str_contains s p \<longleftrightarrow> (\<exists>a b. s = a @ p @ b)"
proof (induction s)
  case (Cons c s)
  have "(\<exists>a b. c # s = a @ p @ b) \<longleftrightarrow> (\<exists>b. c # s = p @ b) \<or> (\<exists>a b. s = a @ p @ b)"
    by (metis append_Cons append_Nil list.sel(3) neq_Nil_conv)
  with Cons.IH show ?case by (simp add: starts_with_iff)
qed simp

lemma str_contains_append: "str_contains (a @ p @ b) p"
  by (auto simp: str_contains_iff)

lemma split_once_Some: "split_once s p = Some (a, b) \<Longrightarrow> s = a @ p @ b"
proof (induction s arbitrary: a b)
  case (Cons c s)
  then show ?case
    by (auto simp: starts_with_iff split: if_splits)
qed (auto split: if_splits)

lemma split_once_None: "split_once s p = None \<longleftrightarrow> \<not> str_contains s p"
  by (induction s) auto

lemma split_once_contains: "str_contains s p \<longleftrightarrow> (\<exists>a b. split_once s p = Some (a, b))"
  using split_once_None [of s p] by fastforce

text \<open>The part before the split holds no earlier occurrence.\<close>

lemma split_once_first:
  "split_once s p = Some (a, b) \<Longrightarrow> s = a' @ p @ b' \<Longrightarrow> length a \<le> length a'"
proof (induction s arbitrary: a b a')
  case (Cons c s)
  show ?case
  proof (cases "starts_with (c # s) p")
    case True
    with Cons.prems(1) show ?thesis by auto
  next
    case False
    then obtain d where a': "a' = c # d" "s = d @ p @ b'"
      using Cons.prems(2) by (cases a') (auto simp: starts_with_iff)
    with False Cons.prems(1) Cons.IH show ?thesis by auto
  qed
qed auto

lemma split_on_not_Nil [simp]: "split_on c s \<noteq> []"
  by (induction s) (auto split: list.splits)

lemma split_on_no: "c \<notin> set s \<Longrightarrow> split_on c s = [s]"
  by (induction s) auto

lemma split_on_append: "c \<notin> set p \<Longrightarrow> split_on c (p @ c # s) = p # split_on c s"
  by (induction p) auto

lemma split_on_pieces: "p \<in> set (split_on c s) \<Longrightarrow> c \<notin> set p \<and> set p \<subseteq> set s"
proof (induction s arbitrary: p)
  case (Cons x s)
  obtain q qs where q: "split_on c s = q # qs"
    by (cases "split_on c s") auto
  have "c \<notin> set q \<and> set q \<subseteq> set s" and "\<And>r. r \<in> set qs \<Longrightarrow> c \<notin> set r \<and> set r \<subseteq> set s"
    using Cons.IH by (auto simp: q)
  with Cons.prems q show ?case by (auto split: if_splits)
qed simp

lemma join_split_on: "str_join [c] (split_on c s) = s"
proof (induction s)
  case (Cons x s)
  obtain q qs where q: "split_on c s = q # qs"
    by (cases "split_on c s") auto
  with Cons.IH show ?case by (cases qs) auto
qed simp

lemma split_piece_contains: "p \<in> set (split_on c s) \<Longrightarrow> str_contains s p"
proof (induction s arbitrary: p)
  case (Cons x s)
  obtain q qs where q: "split_on c s = q # qs"
    by (cases "split_on c s") auto
  have head: "starts_with s q"
    using arg_cong [OF q, of "str_join [c]"] by (cases qs) (auto simp: join_split_on starts_with_iff)
  show ?case
  proof (cases "p \<in> set (split_on c s)")
    case True
    with Cons.IH show ?thesis by simp
  next
    case False
    with Cons.prems q head show ?thesis
      by (auto simp: starts_with_iff split: if_splits)
  qed
qed auto

lemma str_lines_single: "newline \<notin> set s \<Longrightarrow> s \<noteq> [] \<Longrightarrow> str_lines s = [s]"
  by (simp add: str_lines_def split_on_no)

lemma rsplit_once_Some: "rsplit_once s c = Some (a, b) \<Longrightarrow> s = a @ c # b \<and> c \<notin> set b"
proof (induction s arbitrary: a b)
  case (Cons x s)
  show ?case
  proof (cases "rsplit_once s c")
    case None
    then have "c \<notin> set s"
      by (induction s) (auto split: option.splits if_splits)
    with None Cons.prems show ?thesis by (auto split: if_splits)
  next
    case (Some ab)
    with Cons show ?thesis by (cases ab) auto
  qed
qed simp

lemma rsplit_once_append: "c \<notin> set b \<Longrightarrow> rsplit_once (a @ c # b) c = Some (a, b)"
proof (induction a)
  case Nil
  then have "rsplit_once b c = None" by (induction b) auto
  then show ?case by simp
qed simp

lemma byte_digit_char: "n < 10 \<Longrightarrow> byte (digit_char n) = 48 + n"
  by (simp add: byte_def digit_char_def)

lemma is_digit_digit_char [simp]: "is_digit (digit_char n)"
  by (simp add: is_digit_def byte_def digit_char_def)

lemma digit_val_digit_char: "n < 10 \<Longrightarrow> digit_val (digit_char n) = n"
  by (simp add: digit_val_def byte_digit_char)

lemma digits_val_snoc: "digits_val (s @ [c]) = digits_val s * 10 + digit_val c"
  by (simp add: digits_val_def)

lemma show_nat_not_Nil [simp]: "show_nat n \<noteq> []"
  by (subst show_nat.simps) simp

lemma show_nat_digits: "list_all is_digit (show_nat n)"
proof (induction n rule: show_nat.induct)
  case (1 n)
  then show ?case by (cases "n < 10") (simp_all add: show_nat.simps [of n])
qed

lemma digits_val_show_nat: "digits_val (show_nat n) = n"
proof (induction n rule: show_nat.induct)
  case (1 n)
  show ?case
  proof (cases "n < 10")
    case True
    then show ?thesis
      by (simp add: show_nat.simps [of n] digits_val_def digit_val_digit_char)
  next
    case False
    have "digit_val (digit_char n) = n mod 10"
      by (simp add: digit_val_def byte_def digit_char_def)
    with False 1 show ?thesis
      by (simp add: show_nat.simps [of n] digits_val_snoc)
  qed
qed

lemma strip_plus_digits: "list_all is_digit s \<Longrightarrow> strip_plus s = s"
  by (cases s) (auto simp: strip_plus_def is_digit_def byte_def)

lemma parse_digits_show_nat: "parse_digits (show_nat n) = Some n"
  by (simp add: parse_digits_def show_nat_digits digits_val_show_nat)

lemma parse_u64_show_nat: "n < 2 ^ 64 \<Longrightarrow> parse_u64 (show_nat n) = Some (of_nat n)"
  by (simp add: parse_u64_def strip_plus_digits show_nat_digits parse_digits_show_nat)

lemma parse_u64_overflow: "2 ^ 64 \<le> n \<Longrightarrow> parse_u64 (show_nat n) = None"
  by (simp add: parse_u64_def strip_plus_digits show_nat_digits parse_digits_show_nat)

end
