(* ===== verification/Config.thy ===== *)
theory Config
  imports Rust_Text
begin

text \<open>
  \<open>src/config.rs\<close>: the configuration record, its defaults, the pure resolution functions of a
  managed unit, and loading. TOML decoding (the \<open>toml\<close> crate and the code \<open>serde\<close> derives) is a
  parameter of \<open>from_toml\<close>; reading the file is a parameter of \<open>load\<close>.
\<close>

section \<open>Data\<close>

datatype io_kind = IO_NotFound | IO_ConnectionRefused | IO_AlreadyExists | IO_PermissionDenied | IO_Other

datatype io_error = IoError io_kind string

datatype platform = Linux | Windows | MacOS

datatype ip_addr = IpV4 u8 u8 u8 u8 | IpV6 "16 word list"

record game_pattern =
  pattern_name :: string
  match_substr :: string
  exclude :: "string list"

datatype argv_cmd = ArgvCmd (argv: "string list")

datatype raw_cmd = Raw_List "string list" | Raw_Str string

definition argv_cmd_of_raw :: "raw_cmd \<Rightarrow> argv_cmd" where
  "argv_cmd_of_raw r =
     (case r of Raw_List v \<Rightarrow> ArgvCmd v | Raw_Str s \<Rightarrow> ArgvCmd (split_whitespace s))"

datatype introspection = Intro_Command string | Intro_Ollama | Intro_None

datatype gpu_backend_kind = Kind_Auto | Kind_Nvidia | Kind_Amd

record managed_unit =
  unit_name :: string
  eager_restart :: bool
  priority :: u8
  busy_cmd :: "argv_cmd option"
  yield_cmd :: "argv_cmd option"
  resume_cmd :: "argv_cmd option"
  unit_yield_timeout_s :: "nat option"
  vram_match :: "string option"
  kind :: "string option"
  introspect_cmd :: "string option"
  ollama_url :: "string option"
  stop_cmd :: "argv_cmd option"
  start_cmd :: "argv_cmd option"
  is_active_cmd :: "argv_cmd option"
  kill_cmd :: "argv_cmd option"

record config =
  enabled :: bool
  port :: "16 word"
  bind_addr :: ip_addr
  managed_units :: "managed_unit list"
  eviction_timeout_s :: nat
  vram_free_threshold_mb :: u64
  reconcile_interval_s :: nat
  yield_timeout_s :: "nat option"
  game_priority :: u8
  game_exit_grace_s :: nat
  detect_steam :: bool
  game_patterns :: "game_pattern list"
  presence_detection :: bool
  presence_idle_threshold_s :: u64
  gpu_backend_kind :: gpu_backend_kind
  socket_path :: string

datatype config_error = CE_Io string io_error | CE_Parse string | CE_Invalid string

section \<open>Defaults\<close>

definition DEFAULT_UNIT_PRIORITY :: u8 where
  "DEFAULT_UNIT_PRIORITY = 50"

definition DEFAULT_GAME_PRIORITY :: u8 where
  "DEFAULT_GAME_PRIORITY = 100"

definition DEFAULT_GAME_EXIT_GRACE_S :: nat where
  "DEFAULT_GAME_EXIT_GRACE_S = 30"

definition MAX_GAME_EXIT_GRACE_S :: nat where
  "MAX_GAME_EXIT_GRACE_S = 3600"

definition DEFAULT_OLLAMA_URL :: string where
  "DEFAULT_OLLAMA_URL = ''http://127.0.0.1:11434''"

definition MAX_INTROSPECT_CMD_LEN :: nat where
  "MAX_INTROSPECT_CMD_LEN = 1024"

definition default_bind :: ip_addr where
  "default_bind = IpV4 127 0 0 1"

definition default_socket_path :: "platform \<Rightarrow> string" where
  "default_socket_path p =
     (if p = Windows then [] else ''/run/gpu-arbiter/gpu-arbiter.sock'')"

definition default_managed_units :: "managed_unit list" where
  "default_managed_units =
     [\<lparr> unit_name = ''ollama.service'', eager_restart = True,
        priority = DEFAULT_UNIT_PRIORITY, busy_cmd = None, yield_cmd = None, resume_cmd = None,
        unit_yield_timeout_s = None, vram_match = Some ''ollama'', kind = Some ''ollama'',
        introspect_cmd = None, ollama_url = None, stop_cmd = None, start_cmd = None,
        is_active_cmd = None, kill_cmd = None \<rparr>]"

definition default_config :: "platform \<Rightarrow> config" where
  "default_config p =
     \<lparr> enabled = True, port = 48750, bind_addr = default_bind,
       managed_units = default_managed_units, eviction_timeout_s = 5,
       vram_free_threshold_mb = 2000, reconcile_interval_s = 30, yield_timeout_s = None,
       game_priority = DEFAULT_GAME_PRIORITY, game_exit_grace_s = DEFAULT_GAME_EXIT_GRACE_S,
       detect_steam = True, game_patterns = [], presence_detection = True,
       presence_idle_threshold_s = 600, gpu_backend_kind = Kind_Auto,
       socket_path = default_socket_path p \<rparr>"

section \<open>Operations\<close>

definition ollama_base_url :: "managed_unit \<Rightarrow> string" where
  "ollama_base_url u =
     (case ollama_url u of
        None \<Rightarrow> DEFAULT_OLLAMA_URL
      | Some s \<Rightarrow> if str_trim s \<noteq> [] then str_trim s else DEFAULT_OLLAMA_URL)"

definition usable_introspect_cmd :: "managed_unit \<Rightarrow> string option" where
  "usable_introspect_cmd u =
     (case introspect_cmd u of
        None \<Rightarrow> None
      | Some c \<Rightarrow>
          if str_trim c \<noteq> [] \<and> length c \<le> MAX_INTROSPECT_CMD_LEN then Some c else None)"

definition introspection_of :: "managed_unit \<Rightarrow> introspection" where
  "introspection_of u =
     (case usable_introspect_cmd u of
        Some c \<Rightarrow> Intro_Command c
      | None \<Rightarrow>
          (case kind u of
             Some k \<Rightarrow> if k = ''ollama'' then Intro_Ollama else Intro_None
           | None \<Rightarrow>
               if str_contains (to_ascii_lowercase (unit_name u)) ''ollama''
               then Intro_Ollama else Intro_None))"

definition resolved_units :: "config \<Rightarrow> managed_unit list" where
  "resolved_units cfg = managed_units cfg"

definition deprecated_unit_keys :: "managed_unit \<Rightarrow> string list" where
  "deprecated_unit_keys u =
     (if yield_cmd u \<noteq> None then [unit_name u @ ''.yield_cmd''] else [])
     @ (if unit_yield_timeout_s u \<noteq> None then [unit_name u @ ''.yield_timeout_s''] else [])"

definition deprecated_keys :: "config \<Rightarrow> string list" where
  "deprecated_keys cfg =
     (if yield_timeout_s cfg \<noteq> None then [''yield_timeout_s''] else [])
     @ concat (map deprecated_unit_keys (resolved_units cfg))"

definition from_toml :: "(string \<Rightarrow> string + config) \<Rightarrow> string \<Rightarrow> config_error + config" where
  "from_toml toml s =
     (case toml s of
        Inl e \<Rightarrow> Inl (CE_Parse e)
      | Inr cfg \<Rightarrow>
          if MAX_GAME_EXIT_GRACE_S < game_exit_grace_s cfg then
            Inl (CE_Invalid (''game_exit_grace_s = '' @ show_nat (game_exit_grace_s cfg)
              @ '' exceeds the maximum of '' @ show_nat MAX_GAME_EXIT_GRACE_S @ '' seconds''))
          else Inr cfg)"

definition load ::
  "platform \<Rightarrow> (string \<Rightarrow> string + config) \<Rightarrow> (string \<Rightarrow> io_error + string) \<Rightarrow> string \<Rightarrow>
   config_error + config" where
  "load p toml read path =
     (case read path of
        Inr s \<Rightarrow> from_toml toml s
      | Inl (IoError k msg) \<Rightarrow>
          if k = IO_NotFound then Inr (default_config p) else Inl (CE_Io path (IoError k msg)))"

section \<open>Lemmas\<close>

lemma default_unit_below_game: "DEFAULT_UNIT_PRIORITY < DEFAULT_GAME_PRIORITY"
  by (simp add: DEFAULT_UNIT_PRIORITY_def DEFAULT_GAME_PRIORITY_def)

lemma from_toml_Inr:
  "from_toml toml s = Inr cfg \<longleftrightarrow>
     toml s = Inr cfg \<and> game_exit_grace_s cfg \<le> MAX_GAME_EXIT_GRACE_S"
  by (auto simp: from_toml_def split: sum.splits if_splits)

lemma deprecated_keys_Nil:
  "deprecated_keys cfg = [] \<longleftrightarrow>
     yield_timeout_s cfg = None \<and>
     list_all (\<lambda>u. yield_cmd u = None \<and> unit_yield_timeout_s u = None) (resolved_units cfg)"
  by (auto simp: deprecated_keys_def deprecated_unit_keys_def list_all_iff split: if_splits)

end
