(* ===== verification/Counters.thy ===== *)
theory Counters
  imports GA_Prelude "HOL-Library.Multiset"
begin

text \<open>
  The contract every monotonic counter family of the daemon satisfies (\<open>/metrics\<close> counters keyed
  by unit, outcome, trigger or hook): recording a key adds one to that key's count and leaves
  every other key's alone. The component theories interpret it on the recorders of the model.
\<close>

locale counter_family =
  fixes bump :: "'k \<Rightarrow> 'm \<Rightarrow> 'm"
    and get :: "'m \<Rightarrow> 'k \<Rightarrow> nat"
  assumes get_bump_same: "get (bump k m) k = Suc (get m k)"
    and get_bump_other: "j \<noteq> k \<Longrightarrow> get (bump k m) j = get m j"
begin

lemma get_bump: "get (bump k m) j = get m j + (if j = k then 1 else 0)"
  by (cases "j = k") (simp_all add: get_bump_same get_bump_other)

text \<open>After any sequence of recordings a count is the number of recordings of its key.\<close>

lemma get_fold: "get (fold bump ks m) j = get m j + count_list ks j"
  by (induction ks arbitrary: m) (auto simp: get_bump)

lemma get_mono: "get m j \<le> get (fold bump ks m) j"
  by (simp add: get_fold)

lemma get_order_irrelevant:
  "mset ks = mset ls \<Longrightarrow> get (fold bump ks m) j = get (fold bump ls m) j"
  by (simp add: get_fold) (metis count_mset)

lemma total_bump:
  assumes "finite K" and "k \<in> K"
  shows "(\<Sum>j\<in>K. get (bump k m) j) = Suc (\<Sum>j\<in>K. get m j)"
proof -
  have "(\<Sum>j\<in>K. get (bump k m) j) = (\<Sum>j\<in>K. get m j + (if j = k then 1 else 0))"
    by (simp add: get_bump)
  also have "\<dots> = (\<Sum>j\<in>K. get m j) + 1"
    using assms by (simp add: sum.distrib)
  finally show ?thesis by simp
qed

end

end
