(* ===== verification/Arbiter_State.thy ===== *)
theory Arbiter_State
  imports Config Counters "HOL-Library.Char_ord" "HOL-Library.List_Lexorder"
begin

text \<open>
  \<open>src/state.rs\<close>: claims, the three-valued state, triggers, the shared \<open>ArbiterState\<close>, its
  counters and the \<open>/status\<close> snapshot, and the RFC 3339 rendering of time stamps.

  The reply channel of a manual trigger is a number; what is sent on it is recorded by the
  reconcile pass. \<open>SystemTime\<close> is nanoseconds from the Unix epoch, an \<open>f64\<close> second count is the
  exact rational it rounds, a \<open>u64\<close> event counter is a natural number (one increment per event
  cannot reach the width), and the hash maps that are only looked up are partial functions.
\<close>

section \<open>Claims and states\<close>

datatype claim = Steam string | Pattern string

fun claim_token :: "claim \<Rightarrow> string" where
  "claim_token (Steam i) = ''steam:'' @ i"
| "claim_token (Pattern n) = ''pattern:'' @ n"

text \<open>The derived order: the variant first, then the payload.\<close>

instantiation claim :: linorder
begin

fun less_eq_claim :: "claim \<Rightarrow> claim \<Rightarrow> bool" where
  "less_eq_claim (Steam a) (Steam b) = (a \<le> b)"
| "less_eq_claim (Steam a) (Pattern b) = True"
| "less_eq_claim (Pattern a) (Steam b) = False"
| "less_eq_claim (Pattern a) (Pattern b) = (a \<le> b)"

definition less_claim :: "claim \<Rightarrow> claim \<Rightarrow> bool" where
  "less_claim a b \<longleftrightarrow> a \<le> b \<and> \<not> b \<le> a"

instance
proof
  fix x y z :: claim
  show "x < y \<longleftrightarrow> x \<le> y \<and> \<not> y \<le> x" by (simp add: less_claim_def)
  show "x \<le> x" by (cases x) simp_all
  show "x \<le> y \<Longrightarrow> y \<le> z \<Longrightarrow> x \<le> z" by (cases x; cases y; cases z) auto
  show "x \<le> y \<Longrightarrow> y \<le> x \<Longrightarrow> x = y" by (cases x; cases y) auto
  show "x \<le> y \<or> y \<le> x" by (cases x; cases y) auto
qed

end

datatype arb_state = Gaming | Available | Evicting

datatype manual_action_error = Failed | GpuHeldByGame | PreemptedByTenant

type_synonym manual_reply = "manual_action_error + unit"

datatype trigger =
    ProcEvent
  | Timer
  | Startup
  | ManualStart string nat
  | ManualStop string nat

datatype pass_trigger = PT_ProcEvent | PT_Timer | PT_Manual | PT_Startup

fun trigger_label :: "trigger \<Rightarrow> string" where
  "trigger_label ProcEvent = ''proc_event''"
| "trigger_label Timer = ''timer''"
| "trigger_label (ManualStart _ _) = ''manual_start''"
| "trigger_label (ManualStop _ _) = ''manual_stop''"
| "trigger_label Startup = ''startup''"

fun pass_trigger_of :: "trigger \<Rightarrow> pass_trigger" where
  "pass_trigger_of ProcEvent = PT_ProcEvent"
| "pass_trigger_of Timer = PT_Timer"
| "pass_trigger_of (ManualStart _ _) = PT_Manual"
| "pass_trigger_of (ManualStop _ _) = PT_Manual"
| "pass_trigger_of Startup = PT_Startup"

fun pass_trigger_label :: "pass_trigger \<Rightarrow> string" where
  "pass_trigger_label PT_ProcEvent = ''proc_event''"
| "pass_trigger_label PT_Timer = ''timer''"
| "pass_trigger_label PT_Manual = ''manual''"
| "pass_trigger_label PT_Startup = ''startup''"

section \<open>Metrics\<close>

text \<open>\<open>units::EvictionMetricOutcome\<close>, the key of the eviction counters.\<close>

datatype eviction_metric_outcome = Graceful | Sigkill | Evict_Error

fun outcome_label :: "eviction_metric_outcome \<Rightarrow> string" where
  "outcome_label Graceful = ''graceful''"
| "outcome_label Sigkill = ''sigkill''"
| "outcome_label Evict_Error = ''error''"

datatype eviction_stage = Stage_Stop | Stage_Total

fun stage_label :: "eviction_stage \<Rightarrow> string" where
  "stage_label Stage_Stop = ''stop''"
| "stage_label Stage_Total = ''total''"

definition ALL_STAGES :: "eviction_stage list" where
  "ALL_STAGES = [Stage_Stop, Stage_Total]"

definition EVICTION_DURATION_BUCKETS :: "rat list" where
  "EVICTION_DURATION_BUCKETS = [1/10, 1/4, 1/2, 1, 2, 3, 5, 10, 30]"

record duration_histogram =
  buckets :: "nat list"
  hist_count :: nat
  hist_sum :: rat

definition empty_histogram :: duration_histogram where
  "empty_histogram = \<lparr> buckets = [], hist_count = 0, hist_sum = 0 \<rparr>"

definition bump_bucket :: "nat \<Rightarrow> nat list \<Rightarrow> nat list" where
  "bump_bucket i b = b[i := Suc (b ! i)]"

text \<open>
  \<open>observe\<close>. A bucket index past the end of \<open>buckets\<close> would be a panic in the source; the
  histogram invariant below rules it out.
\<close>

definition hist_observe :: "rat \<Rightarrow> duration_histogram \<Rightarrow> duration_histogram" where
  "hist_observe secs h =
     (let n = length EVICTION_DURATION_BUCKETS;
          bs = (if buckets h = [] then replicate n 0 else buckets h);
          bs' = fold (\<lambda>i. if secs \<le> EVICTION_DURATION_BUCKETS ! i then bump_bucket i else id)
                  [0..<n] bs
      in h\<lparr> buckets := bs', hist_count := Suc (hist_count h), hist_sum := hist_sum h + secs \<rparr>)"

record eviction_counts =
  yielded :: nat
  graceful :: nat
  sigkill :: nat
  evict_error :: nat

definition zero_counts :: eviction_counts where
  "zero_counts = \<lparr> yielded = 0, graceful = 0, sigkill = 0, evict_error = 0 \<rparr>"

record reconcile_pass_counts =
  rp_proc_event :: nat
  rp_timer :: nat
  rp_manual :: nat
  rp_startup :: nat

record metrics =
  evictions :: "(string \<times> eviction_counts) list"
  unit_restarts :: "(string \<times> nat) list"
  reconcile_passes :: reconcile_pass_counts
  eviction_durations :: "((string \<times> eviction_stage) \<times> duration_histogram) list"

definition empty_metrics :: metrics where
  "empty_metrics =
     \<lparr> evictions = [], unit_restarts = [],
       reconcile_passes = \<lparr> rp_proc_event = 0, rp_timer = 0, rp_manual = 0, rp_startup = 0 \<rparr>,
       eviction_durations = [] \<rparr>"

definition seed_unit :: "string \<Rightarrow> metrics \<Rightarrow> metrics" where
  "seed_unit u m =
     m\<lparr> evictions := alist_default u zero_counts (evictions m),
        eviction_durations :=
          fold (\<lambda>st d. alist_default (u, st) empty_histogram d) ALL_STAGES (eviction_durations m) \<rparr>"

fun bump_outcome :: "eviction_metric_outcome \<Rightarrow> eviction_counts \<Rightarrow> eviction_counts" where
  "bump_outcome Graceful c = c\<lparr> graceful := Suc (graceful c) \<rparr>"
| "bump_outcome Sigkill c = c\<lparr> sigkill := Suc (sigkill c) \<rparr>"
| "bump_outcome Evict_Error c = c\<lparr> evict_error := Suc (evict_error c) \<rparr>"

definition record_eviction :: "string \<Rightarrow> eviction_metric_outcome \<Rightarrow> metrics \<Rightarrow> metrics" where
  "record_eviction u out m =
     m\<lparr> evictions := alist_upd u zero_counts (bump_outcome out) (evictions m) \<rparr>"

definition record_eviction_duration ::
  "string \<Rightarrow> eviction_stage \<Rightarrow> rat \<Rightarrow> metrics \<Rightarrow> metrics" where
  "record_eviction_duration u st secs m =
     m\<lparr> eviction_durations :=
          alist_upd (u, st) empty_histogram (hist_observe secs) (eviction_durations m) \<rparr>"

definition record_unit_restart :: "string \<Rightarrow> metrics \<Rightarrow> metrics" where
  "record_unit_restart u m = m\<lparr> unit_restarts := alist_upd u 0 Suc (unit_restarts m) \<rparr>"

fun bump_pass :: "pass_trigger \<Rightarrow> reconcile_pass_counts \<Rightarrow> reconcile_pass_counts" where
  "bump_pass PT_ProcEvent c = c\<lparr> rp_proc_event := Suc (rp_proc_event c) \<rparr>"
| "bump_pass PT_Timer c = c\<lparr> rp_timer := Suc (rp_timer c) \<rparr>"
| "bump_pass PT_Manual c = c\<lparr> rp_manual := Suc (rp_manual c) \<rparr>"
| "bump_pass PT_Startup c = c\<lparr> rp_startup := Suc (rp_startup c) \<rparr>"

definition record_reconcile_pass :: "pass_trigger \<Rightarrow> metrics \<Rightarrow> metrics" where
  "record_reconcile_pass t m = m\<lparr> reconcile_passes := bump_pass t (reconcile_passes m) \<rparr>"

section \<open>The shared state\<close>

type_synonym system_time = int

record invariant_backoff =
  bo_until :: time
  bo_step :: time

record last_eviction =
  le_reason :: string
  le_outcome :: string
  le_at :: string

record unit_status =
  us_unit :: string
  us_running :: "bool option"
  us_models :: "string list"
  us_models_error :: "string option"
  us_vram_mb :: "u64 option"
  us_held :: bool
  us_last_eviction :: "last_eviction option"

record presence_view =
  last_input_unix :: int
  devices :: u32
  monitor_up :: bool

record status_snapshot =
  ss_version :: string
  ss_state :: arb_state
  ss_claims :: "string list"
  ss_units :: "unit_status list"
  ss_gpu_vram_used_mb :: u64
  ss_gpu_vram_total_mb :: u64
  ss_since :: string
  ss_local_input_last_unix :: int
  ss_physical_input_devices :: u32
  ss_input_monitor_up :: bool
  ss_degraded :: bool

record arbiter =
  cur_state :: arb_state
  claims :: "claim list"
  units :: "unit_status list"
  gpu_vram_used_mb :: u64
  gpu_vram_total_mb :: u64
  since :: system_time
  presence :: presence_view
  held :: "string set"
  needs_resume :: "string set"
  game_exit_pending_since :: "time option"
  last_evictions :: "string \<rightharpoonup> last_eviction"
  inv_backoff :: "string \<rightharpoonup> invariant_backoff"
  invariant_warned :: "string \<rightharpoonup> time"
  degraded :: bool
  arb_metrics :: metrics

definition default_presence :: presence_view where
  "default_presence = \<lparr> last_input_unix = 0, devices = 0, monitor_up = False \<rparr>"

definition default_arbiter :: "system_time \<Rightarrow> arbiter" where
  "default_arbiter now =
     \<lparr> cur_state = Available, claims = [], units = [], gpu_vram_used_mb = 0,
       gpu_vram_total_mb = 0, since = now, presence = default_presence, held = {},
       needs_resume = {}, game_exit_pending_since = None, last_evictions = Map.empty,
       inv_backoff = Map.empty, invariant_warned = Map.empty, degraded = False,
       arb_metrics = empty_metrics \<rparr>"

definition with_config :: "system_time \<Rightarrow> config \<Rightarrow> arbiter" where
  "with_config now cfg =
     fold (\<lambda>u s. s\<lparr> arb_metrics := seed_unit (unit_name u) (arb_metrics s),
                     needs_resume := insert (unit_name u) (needs_resume s) \<rparr>)
       (resolved_units cfg) (default_arbiter now)"

definition resolve_state :: "claim list \<Rightarrow> arb_state" where
  "resolve_state cs = (if cs = [] then Available else Gaming)"

definition set_state :: "arb_state \<Rightarrow> system_time \<Rightarrow> arbiter \<Rightarrow> arbiter" where
  "set_state new now s =
     (if cur_state s \<noteq> new then s\<lparr> cur_state := new, since := now \<rparr> else s)"

section \<open>Time stamps\<close>

text \<open>
  All quantities are non-negative here (\<open>secs\<close> is unsigned), so the truncating division of the
  source is \<open>div\<close>; the largest intermediate value stays far below \<open>2 ^ 63\<close>.
\<close>

definition civil_from_unix_secs :: "nat \<Rightarrow> int \<times> int \<times> int \<times> int \<times> int \<times> int" where
  "civil_from_unix_secs secs =
     (let days = int (secs div 86400);
          rem = int (secs mod 86400);
          hour = rem div 3600;
          minute = (rem mod 3600) div 60;
          sec = rem mod 60;
          z = days + 719468;
          era = (if z \<ge> 0 then z else z - 146096) div 146097;
          doe = z - era * 146097;
          yoe = (doe - doe div 1460 + doe div 36524 - doe div 146096) div 365;
          y = yoe + era * 400;
          doy = doe - (365 * yoe + yoe div 4 - yoe div 100);
          mp = (5 * doy + 2) div 153;
          day = doy - (153 * mp + 2) div 5 + 1;
          month = (if mp < 10 then mp + 3 else mp - 9);
          year = (if month \<le> 2 then y + 1 else y)
      in (year, month, day, hour, minute, sec))"

definition unix_secs :: "system_time \<Rightarrow> nat" where
  "unix_secs t = (if t < 0 then 0 else nat (t div 1000000000))"

definition format_rfc3339 :: "system_time \<Rightarrow> string" where
  "format_rfc3339 t =
     (let (year, month, day, hour, minute, sec) = civil_from_unix_secs (unix_secs t)
      in show_pad 4 (nat year) @ ''-'' @ show_pad 2 (nat month) @ ''-'' @ show_pad 2 (nat day)
         @ ''T'' @ show_pad 2 (nat hour) @ '':'' @ show_pad 2 (nat minute) @ '':''
         @ show_pad 2 (nat sec) @ ''Z'')"

definition snapshot :: "string \<Rightarrow> arbiter \<Rightarrow> status_snapshot" where
  "snapshot version s =
     \<lparr> ss_version = version, ss_state = cur_state s, ss_claims = map claim_token (claims s),
       ss_units = units s, ss_gpu_vram_used_mb = gpu_vram_used_mb s,
       ss_gpu_vram_total_mb = gpu_vram_total_mb s, ss_since = format_rfc3339 (since s),
       ss_local_input_last_unix = last_input_unix (presence s),
       ss_physical_input_devices = devices (presence s),
       ss_input_monitor_up = monitor_up (presence s), ss_degraded = degraded s \<rparr>"

section \<open>Counters\<close>

text \<open>What \<open>/metrics\<close> reads for each counter family; an absent unit has no series, so count 0.\<close>

definition restart_count :: "metrics \<Rightarrow> string \<Rightarrow> nat" where
  "restart_count m u = (case map_of (unit_restarts m) u of None \<Rightarrow> 0 | Some n \<Rightarrow> n)"

fun outcome_count :: "eviction_counts \<Rightarrow> eviction_metric_outcome \<Rightarrow> nat" where
  "outcome_count c Graceful = graceful c"
| "outcome_count c Sigkill = sigkill c"
| "outcome_count c Evict_Error = evict_error c"

definition eviction_count :: "metrics \<Rightarrow> string \<times> eviction_metric_outcome \<Rightarrow> nat" where
  "eviction_count m k =
     (case map_of (evictions m) (fst k) of None \<Rightarrow> 0 | Some c \<Rightarrow> outcome_count c (snd k))"

fun pass_count :: "reconcile_pass_counts \<Rightarrow> pass_trigger \<Rightarrow> nat" where
  "pass_count c PT_ProcEvent = rp_proc_event c"
| "pass_count c PT_Timer = rp_timer c"
| "pass_count c PT_Manual = rp_manual c"
| "pass_count c PT_Startup = rp_startup c"

lemma outcome_count_bump:
  "outcome_count (bump_outcome out c) o' = outcome_count c o' + (if o' = out then 1 else 0)"
  by (cases out; cases o') simp_all

lemma outcome_count_zero [simp]: "outcome_count zero_counts k = 0"
  by (cases k) (simp_all add: zero_counts_def)

interpretation restarts: counter_family record_unit_restart restart_count
  by unfold_locales
    (simp_all add: record_unit_restart_def restart_count_def map_of_alist_upd split: option.splits)

interpretation evicted: counter_family
  "\<lambda>k. record_eviction (fst k) (snd k)" eviction_count
proof
  fix k :: "string \<times> eviction_metric_outcome" and m
  show "eviction_count (record_eviction (fst k) (snd k) m) k = Suc (eviction_count m k)"
    by (simp add: record_eviction_def eviction_count_def map_of_alist_upd outcome_count_bump
        split: option.splits)
next
  fix j k :: "string \<times> eviction_metric_outcome" and m
  assume "j \<noteq> k"
  then show "eviction_count (record_eviction (fst k) (snd k) m) j = eviction_count m j"
    by (cases j; cases k)
      (auto simp: record_eviction_def eviction_count_def map_of_alist_upd outcome_count_bump
        split: option.splits)
qed

interpretation passes: counter_family record_reconcile_pass "\<lambda>m. pass_count (reconcile_passes m)"
proof
  fix k :: pass_trigger and m
  show "pass_count (reconcile_passes (record_reconcile_pass k m)) k
      = Suc (pass_count (reconcile_passes m) k)"
    by (cases k) (simp_all add: record_reconcile_pass_def)
next
  fix j k :: pass_trigger and m
  assume "j \<noteq> k"
  then show "pass_count (reconcile_passes (record_reconcile_pass k m)) j
      = pass_count (reconcile_passes m) j"
    by (cases j; cases k) (simp_all add: record_reconcile_pass_def)
qed

section \<open>The duration histogram\<close>

lemma fold_buckets_length [simp]:
  "length (fold (\<lambda>i. if P i then bump_bucket i else id) is bs) = length bs"
  by (induction "is" arbitrary: bs) (auto simp: bump_bucket_def)

lemma fold_buckets_nth:
  "j < length bs \<Longrightarrow>
   fold (\<lambda>i. if P i then bump_bucket i else id) [0..<n] bs ! j
     = bs ! j + (if j < n \<and> P j then 1 else 0)"
proof (induction n)
  case (Suc n)
  then show ?case by (auto simp: bump_bucket_def nth_list_update less_Suc_eq)
qed simp

text \<open>
  A histogram holds the sample list \<open>xs\<close> when each bucket counts the samples within its bound.
\<close>

definition hist_holds :: "rat list \<Rightarrow> duration_histogram \<Rightarrow> bool" where
  "hist_holds xs h \<longleftrightarrow>
     buckets h = (if xs = [] then []
       else map (\<lambda>b. length (filter (\<lambda>x. x \<le> b) xs)) EVICTION_DURATION_BUCKETS)
     \<and> hist_count h = length xs \<and> hist_sum h = sum_list xs"

lemma hist_holds_observe:
  assumes "hist_holds xs h"
  shows "hist_holds (xs @ [x]) (hist_observe x h)"
proof -
  let ?B = EVICTION_DURATION_BUCKETS
  let ?bs = "if buckets h = [] then replicate (length ?B) 0 else buckets h"
  have B: "?B \<noteq> []" by (simp add: EVICTION_DURATION_BUCKETS_def)
  have bs: "?bs = map (\<lambda>b. length (filter (\<lambda>y. y \<le> b) xs)) ?B"
    using assms B by (auto simp: hist_holds_def map_replicate_const)
  have "fold (\<lambda>i. if x \<le> ?B ! i then bump_bucket i else id) [0..<length ?B] ?bs
      = map (\<lambda>b. length (filter (\<lambda>y. y \<le> b) (xs @ [x]))) ?B"
    unfolding bs by (rule nth_equalityI) (simp_all add: fold_buckets_nth)
  then show ?thesis
    using assms by (simp add: hist_holds_def hist_observe_def Let_def)
qed

lemma hist_holds_fold:
  "hist_holds xs h \<Longrightarrow> hist_holds (xs @ ys) (fold hist_observe ys h)"
proof (induction ys arbitrary: xs h)
  case (Cons y ys)
  from Cons.IH [OF hist_holds_observe [OF Cons.prems, of y]] show ?case by simp
qed simp

lemma hist_holds_sorted:
  assumes "hist_holds xs h" and "xs \<noteq> []"
  shows "sorted (buckets h @ [hist_count h]) \<and> length (buckets h) = 9"
proof -
  have mono: "length (filter (\<lambda>x. x \<le> a) xs) \<le> length (filter (\<lambda>x. x \<le> b) xs)" if "a \<le> b" for a b :: rat
    using that by (induction xs) auto
  have "sorted EVICTION_DURATION_BUCKETS"
    by (simp add: EVICTION_DURATION_BUCKETS_def)
  then have "sorted (map (\<lambda>b. length (filter (\<lambda>x. x \<le> b) xs)) EVICTION_DURATION_BUCKETS)"
    unfolding sorted_wrt_map by (rule sorted_wrt_mono_rel [rotated]) (rule mono)
  then have "sorted (map (\<lambda>b. length (filter (\<lambda>x. x \<le> b) xs)) EVICTION_DURATION_BUCKETS @ [length xs])"
    by (auto simp: sorted_append)
  with assms show ?thesis
    by (simp add: hist_holds_def EVICTION_DURATION_BUCKETS_def)
qed

section \<open>Lemmas on the state\<close>

lemma set_state_simps [simp]:
  "cur_state (set_state x now s) = x"
  "claims (set_state x now s) = claims s"
  "units (set_state x now s) = units s"
  "held (set_state x now s) = held s"
  "needs_resume (set_state x now s) = needs_resume s"
  "game_exit_pending_since (set_state x now s) = game_exit_pending_since s"
  "last_evictions (set_state x now s) = last_evictions s"
  "inv_backoff (set_state x now s) = inv_backoff s"
  "invariant_warned (set_state x now s) = invariant_warned s"
  "degraded (set_state x now s) = degraded s"
  "arb_metrics (set_state x now s) = arb_metrics s"
  by (simp_all add: set_state_def)

lemma set_state_since: "since (set_state x now s) = (if cur_state s = x then since s else now)"
  by (simp add: set_state_def)

lemma with_config_fold:
  "needs_resume (fold (\<lambda>u s. s\<lparr> arb_metrics := seed_unit (unit_name u) (arb_metrics s),
       needs_resume := insert (unit_name u) (needs_resume s) \<rparr>) us s)
     = needs_resume s \<union> unit_name ` set us"
  by (induction us arbitrary: s) auto

lemma with_config_needs_resume:
  "needs_resume (with_config now cfg) = unit_name ` set (resolved_units cfg)"
  by (simp add: with_config_def with_config_fold default_arbiter_def)

lemma with_config_frame:
  "cur_state (fold (\<lambda>u s. s\<lparr> arb_metrics := seed_unit (unit_name u) (arb_metrics s),
       needs_resume := insert (unit_name u) (needs_resume s) \<rparr>) us s) = cur_state s
   \<and> claims (fold (\<lambda>u s. s\<lparr> arb_metrics := seed_unit (unit_name u) (arb_metrics s),
       needs_resume := insert (unit_name u) (needs_resume s) \<rparr>) us s) = claims s
   \<and> held (fold (\<lambda>u s. s\<lparr> arb_metrics := seed_unit (unit_name u) (arb_metrics s),
       needs_resume := insert (unit_name u) (needs_resume s) \<rparr>) us s) = held s
   \<and> game_exit_pending_since (fold (\<lambda>u s. s\<lparr> arb_metrics := seed_unit (unit_name u) (arb_metrics s),
       needs_resume := insert (unit_name u) (needs_resume s) \<rparr>) us s) = game_exit_pending_since s"
  by (induction us arbitrary: s) auto

lemma with_config_simps [simp]:
  "cur_state (with_config now cfg) = Available"
  "claims (with_config now cfg) = []"
  "held (with_config now cfg) = {}"
  "game_exit_pending_since (with_config now cfg) = None"
  using with_config_frame [of "resolved_units cfg" "default_arbiter now"]
  by (simp_all add: with_config_def default_arbiter_def)

lemma resolve_state_eq [simp]:
  "resolve_state cs = Gaming \<longleftrightarrow> cs \<noteq> []"
  "resolve_state cs = Available \<longleftrightarrow> cs = []"
  "resolve_state cs \<noteq> Evicting"
  by (simp_all add: resolve_state_def)

end
