(* ===== verification/Classify.thy ===== *)
theory Classify
  imports Arbiter_State
begin

text \<open>
  \<open>src/classify.rs\<close>: from a process command line to an optional claim. The Steam rule comes
  first; the configured patterns follow in order, each with its own vetoes.
\<close>

definition STEAM_MARKER :: string where
  "STEAM_MARKER = ''SteamLaunch AppId=''"

definition steam_appid :: "string \<Rightarrow> string option" where
  "steam_appid cmdline =
     (case split_once cmdline STEAM_MARKER of
        None \<Rightarrow> None
      | Some (_, rest) \<Rightarrow>
          (let i = takeWhile is_digit rest in if i = [] then None else Some i))"

definition match_pattern :: "string \<Rightarrow> game_pattern list \<Rightarrow> game_pattern option" where
  "match_pattern cmdline patterns =
     find (\<lambda>p. str_contains cmdline (match_substr p)
               \<and> \<not> list_ex (\<lambda>veto. str_contains cmdline veto) (exclude p)) patterns"

definition classify :: "string \<Rightarrow> config \<Rightarrow> claim option" where
  "classify cmdline cfg =
     (case (if detect_steam cfg then steam_appid cmdline else None) of
        Some i \<Rightarrow> Some (Steam i)
      | None \<Rightarrow> map_option (\<lambda>p. Pattern (pattern_name p)) (match_pattern cmdline (game_patterns cfg)))"

text \<open>A compute process as \<open>nvidia-smi\<close> reports it; \<open>owning_unit\<close> is filled in by \<open>Cgroup\<close>.\<close>

record gpu_compute_proc =
  pid :: int
  proc_name :: string
  vram_mb :: u64
  owning_unit :: "string option"

section \<open>Lemmas\<close>

lemma find_SomeD: "find P xs = Some x \<Longrightarrow> x \<in> set xs \<and> P x"
  by (induction xs) (auto split: if_splits)

lemma steam_appid_Some:
  "steam_appid cmdline = Some i \<Longrightarrow>
     str_contains cmdline (STEAM_MARKER @ i) \<and> i \<noteq> [] \<and> list_all is_digit i"
proof -
  assume "steam_appid cmdline = Some i"
  then obtain a rest where s: "split_once cmdline STEAM_MARKER = Some (a, rest)"
      and i: "i = takeWhile is_digit rest" "i \<noteq> []"
    by (auto simp: steam_appid_def Let_def split: option.splits if_splits)
  have "cmdline = a @ (STEAM_MARKER @ i) @ dropWhile is_digit rest"
    using split_once_Some [OF s] i by simp
  then have "str_contains cmdline (STEAM_MARKER @ i)"
    by (auto simp only: str_contains_iff)
  moreover have "list_all is_digit i"
    unfolding i(1) by (auto simp: list_all_iff dest: set_takeWhileD)
  ultimately show ?thesis using i(2) by simp
qed

lemma classify_no_steam:
  "\<not> str_contains cmdline STEAM_MARKER \<Longrightarrow>
   classify cmdline cfg
     = map_option (\<lambda>p. Pattern (pattern_name p)) (match_pattern cmdline (game_patterns cfg))"
  by (auto simp: classify_def steam_appid_def split_once_None [THEN iffD2])

lemma match_pattern_Some:
  "match_pattern cmdline ps = Some p \<Longrightarrow>
     p \<in> set ps \<and> str_contains cmdline (match_substr p)
     \<and> (\<forall>v\<in>set (exclude p). \<not> str_contains cmdline v)"
  by (auto simp: match_pattern_def list_ex_iff dest!: find_SomeD)

lemma match_pattern_None:
  "match_pattern cmdline ps = None \<longleftrightarrow>
     (\<forall>p\<in>set ps. str_contains cmdline (match_substr p) \<longrightarrow>
        (\<exists>v\<in>set (exclude p). str_contains cmdline v))"
  by (auto simp: match_pattern_def find_None_iff list_ex_iff)

end
