(* ===== verification/Host.thy ===== *)
theory Host
  imports Arbiter_State "HOL-Library.Product_Lexorder"
begin

text \<open>
  The host the daemon runs on. Everything outside the program (the init system, the probes and
  hooks it spawns, \<open>nvidia-smi\<close>, \<open>/proc\<close> and \<open>/sys\<close>, the HTTP client, the clocks) is one
  argument \<open>os\<close>: each of its fields answers a call from the state of the world, with the new
  state of the world and the time the call took. Nothing is assumed of the answers.

  The \<open>host\<close> state threads that world through the program, together with the monotonic clock,
  the hook failure counters (a module global of \<open>src/units.rs\<close>) and a ghost log, newest first,
  of the process controls and process scans the program performed (a scan with the claims it
  found, \<open>None\<close> if it failed). No operation reads the log.
\<close>

section \<open>External calls\<close>

datatype cmd_result = TimedOut | SpawnFailed io_error | Exited "int option" string string

datatype fetch_result = Fetch_Body string | Fetch_Error string | Fetch_Join string | Fetch_Timeout

record 'w os =
  os_platform :: platform
  os_run :: "time \<Rightarrow> string list \<Rightarrow> 'w \<Rightarrow> cmd_result \<times> time \<times> 'w"
  os_read_dir :: "string \<Rightarrow> 'w \<Rightarrow> (io_error + string list) \<times> time \<times> 'w"
  os_read_file :: "string \<Rightarrow> 'w \<Rightarrow> (io_error + string) \<times> time \<times> 'w"
  os_read_link :: "string \<Rightarrow> 'w \<Rightarrow> string option \<times> time \<times> 'w"
  os_on_path :: "string \<Rightarrow> 'w \<Rightarrow> bool"
  os_oversleep :: "time \<Rightarrow> 'w \<Rightarrow> time \<times> 'w"
  os_wall :: "'w \<Rightarrow> system_time"
  os_http_get :: "time \<Rightarrow> string \<Rightarrow> 'w \<Rightarrow> fetch_result \<times> time \<times> 'w"
  os_parse_ps :: "string \<Rightarrow> string + (string option \<times> string option) list"
  os_processes :: "'w \<Rightarrow> (u32 \<times> string list \<times> string option) list \<times> time \<times> 'w"

text \<open>
  \<open>os_run limit argv\<close> spawns \<open>argv\<close> without a shell and gives up after \<open>limit\<close>; \<open>os_read_dir\<close>
  lists the names of the readable entries; \<open>os_oversleep d\<close> is what a sleep of \<open>d\<close> took beyond
  \<open>d\<close>; \<open>os_parse_ps\<close> is \<open>serde_json\<close> on the body of Ollama's \<open>/api/ps\<close>: the \<open>name\<close> and \<open>model\<close>
  of each entry of \<open>models\<close>, or the decoding error; \<open>os_processes\<close> is the \<open>sysinfo\<close> process
  table of Windows: process id, arguments and image path.
\<close>

section \<open>Hook failures\<close>

datatype hook = Hook_Busy | Hook_Resume

fun hook_label :: "hook \<Rightarrow> string" where
  "hook_label Hook_Busy = ''busy''"
| "hook_label Hook_Resume = ''resume''"

datatype hook_failure = NonZero | Unrunnable

fun hook_failure_label :: "hook_failure \<Rightarrow> string" where
  "hook_failure_label NonZero = ''nonzero''"
| "hook_failure_label Unrunnable = ''unrunnable''"

text \<open>The derived orders: in the order of the constructors.\<close>

instantiation hook :: linorder
begin

definition less_eq_hook :: "hook \<Rightarrow> hook \<Rightarrow> bool" where
  "less_eq_hook a b \<longleftrightarrow> a = Hook_Busy \<or> b = Hook_Resume"

definition less_hook :: "hook \<Rightarrow> hook \<Rightarrow> bool" where
  "less_hook a b \<longleftrightarrow> a = Hook_Busy \<and> b = Hook_Resume"

instance
  by standard (auto simp: less_eq_hook_def less_hook_def intro: hook.exhaust)

end

instantiation hook_failure :: linorder
begin

definition less_eq_hook_failure :: "hook_failure \<Rightarrow> hook_failure \<Rightarrow> bool" where
  "less_eq_hook_failure a b \<longleftrightarrow> a = NonZero \<or> b = Unrunnable"

definition less_hook_failure :: "hook_failure \<Rightarrow> hook_failure \<Rightarrow> bool" where
  "less_hook_failure a b \<longleftrightarrow> a = NonZero \<and> b = Unrunnable"

instance
  by standard (auto simp: less_eq_hook_failure_def less_hook_failure_def intro: hook_failure.exhaust)

end

type_synonym hook_failure_key = "string \<times> hook \<times> hook_failure"

section \<open>The host state\<close>

datatype event =
    Ev_Control (ev_action: string) (ev_unit: string) (ev_argv: "string list") (ev_result: cmd_result)
  | Ev_Scan "claim list option"

record 'w host =
  hclock :: time
  hlog :: "event list"
  hook_counts :: "(hook_failure_key \<times> nat) list"
  hworld :: 'w

definition host_call :: "('w \<Rightarrow> 'a \<times> time \<times> 'w) \<Rightarrow> ('w host, 'a) state" where
  "host_call f = State (\<lambda>h. case f (hworld h) of
     (a, d, w) \<Rightarrow> (a, h\<lparr> hclock := hclock h + d, hworld := w \<rparr>))"

definition log_event :: "event \<Rightarrow> ('w host, unit) state" where
  "log_event e = State_Monad.update (\<lambda>h. h\<lparr> hlog := e # hlog h \<rparr>)"

definition now :: "('w host, time) state" where
  "now = State (\<lambda>h. (hclock h, h))"

definition wall_clock :: "'w os \<Rightarrow> ('w host, system_time) state" where
  "wall_clock E = State (\<lambda>h. (os_wall E (hworld h), h))"

definition sleep :: "'w os \<Rightarrow> time \<Rightarrow> ('w host, unit) state" where
  "sleep E d = host_call (\<lambda>w. case os_oversleep E d w of (x, w') \<Rightarrow> ((), d + x, w'))"

text \<open>\<open>fs::read_to_string\<close>: the bytes must be UTF-8.\<close>

definition read_to_string :: "'w os \<Rightarrow> string \<Rightarrow> ('w host, io_error + string) state" where
  "read_to_string E path = do {
     r \<leftarrow> host_call (os_read_file E path);
     State_Monad.return (case r of
        Inl e \<Rightarrow> Inl e
      | Inr s \<Rightarrow> if utf8_valid s then Inr s
               else Inl (IoError IO_Other ''stream did not contain valid UTF-8''))
   }"

definition record_hook_failure :: "string \<Rightarrow> hook \<Rightarrow> hook_failure \<Rightarrow> ('w host, unit) state" where
  "record_hook_failure u hk out =
     State_Monad.update (\<lambda>h. h\<lparr> hook_counts := alist_upd (u, hk, out) 0 Suc (hook_counts h) \<rparr>)"

definition hook_failures :: "'w host \<Rightarrow> (hook_failure_key \<times> nat) list" where
  "hook_failures h = sort_key fst (hook_counts h)"

definition hook_count :: "'w host \<Rightarrow> hook_failure_key \<Rightarrow> nat" where
  "hook_count h k = (case map_of (hook_counts h) k of None \<Rightarrow> 0 | Some n \<Rightarrow> n)"

definition bump_hook :: "hook_failure_key \<Rightarrow> 'w host \<Rightarrow> 'w host" where
  "bump_hook k h =
     snd (run_state (record_hook_failure (fst k) (fst (snd k)) (snd (snd k))) h)"

interpretation hooks: counter_family bump_hook hook_count
  by unfold_locales
    (auto simp: bump_hook_def record_hook_failure_def hook_count_def map_of_alist_upd
      split: option.splits)

section \<open>What host operations change\<close>

text \<open>
  The preconditions of the primitive calls. A call answered by the operating system can return
  anything, so a postcondition must hold for every answer; it cannot touch the log or the
  counters, and time does not run backwards.
\<close>

lemma wp_host_call [wp_simps]:
  "wp (host_call f) Q h =
     (case f (hworld h) of (a, d, w) \<Rightarrow> Q a (h\<lparr> hclock := hclock h + d, hworld := w \<rparr>))"
  by (auto simp: host_call_def wp_simps split: prod.splits)

lemma wp_log_event [wp_simps]: "wp (log_event e) Q h = Q () (h\<lparr> hlog := e # hlog h \<rparr>)"
  by (simp add: log_event_def wp_simps)

lemma wp_now [wp_simps]: "wp now Q h = Q (hclock h) h"
  by (simp add: now_def wp_simps)

lemma wp_wall_clock [wp_simps]: "wp (wall_clock E) Q h = Q (os_wall E (hworld h)) h"
  by (simp add: wall_clock_def wp_simps)

lemma wp_record_hook_failure [wp_simps]:
  "wp (record_hook_failure u k f) Q h =
     Q () (h\<lparr> hook_counts := alist_upd (u, k, f) 0 Suc (hook_counts h) \<rparr>)"
  by (simp add: record_hook_failure_def wp_simps)

text \<open>
  \<open>quiet m\<close>: the computation performs no process control and no scan. \<open>grows R m\<close>: every
  event it adds to the log satisfies \<open>R\<close>.
\<close>

definition quiet :: "('w host, 'a) state \<Rightarrow> bool" where
  "quiet m \<longleftrightarrow> (\<forall>h. hlog (snd (run_state m h)) = hlog h)"

definition grows :: "(event \<Rightarrow> bool) \<Rightarrow> ('w host, 'a) state \<Rightarrow> bool" where
  "grows R m \<longleftrightarrow> (\<forall>h. \<exists>es. hlog (snd (run_state m h)) = es @ hlog h \<and> list_all R es)"

definition timed :: "('w host, 'a) state \<Rightarrow> bool" where
  "timed m \<longleftrightarrow> (\<forall>h. hclock h \<le> hclock (snd (run_state m h)))"

named_theorems host_intros "quiet, grows and timed rules"

lemma quiet_wp: "quiet m \<Longrightarrow> wp m (\<lambda>_ h'. hlog h' = hlog h) h"
  by (auto simp: quiet_def wp_def split: prod.splits dest: spec [of _ h])

lemma quiet_return [host_intros]: "quiet (State_Monad.return a)"
  by (simp add: quiet_def)

lemma quiet_bind [host_intros]:
  assumes "quiet m" and "\<And>a. quiet (f a)"
  shows "quiet (State_Monad.bind m f)"
  unfolding quiet_def
proof
  fix h
  obtain a h' where 1: "run_state m h = (a, h')" by fastforce
  have "hlog h' = hlog h" using assms(1) 1 by (metis quiet_def snd_conv)
  then show "hlog (snd (run_state (State_Monad.bind m f) h)) = hlog h"
    using assms(2) 1 by (simp add: quiet_def)
qed

lemma quiet_host_call [host_intros]: "quiet (host_call f)"
  by (simp add: quiet_def host_call_def split: prod.splits)

lemma quiet_now [host_intros]: "quiet now"
  by (simp add: quiet_def now_def)

lemma quiet_wall_clock [host_intros]: "quiet (wall_clock E)"
  by (simp add: quiet_def wall_clock_def)

lemma quiet_sleep [host_intros]: "quiet (sleep E d)"
  by (simp add: sleep_def quiet_host_call)

lemma quiet_record_hook_failure [host_intros]: "quiet (record_hook_failure u k f)"
  by (simp add: quiet_def record_hook_failure_def)

lemma quiet_read_to_string [host_intros]: "quiet (read_to_string E p)"
  by (auto simp: read_to_string_def intro!: host_intros)

lemma quiet_if [host_intros]: "quiet a \<Longrightarrow> quiet b \<Longrightarrow> quiet (if c then a else b)"
  by simp

lemma quiet_case_sum [host_intros]:
  "(\<And>e. quiet (f e)) \<Longrightarrow> (\<And>a. quiet (g a)) \<Longrightarrow> quiet (case r of Inl e \<Rightarrow> f e | Inr a \<Rightarrow> g a)"
  by (cases r) auto

lemma quiet_case_option [host_intros]:
  "quiet f \<Longrightarrow> (\<And>a. quiet (g a)) \<Longrightarrow> quiet (case r of None \<Rightarrow> f | Some a \<Rightarrow> g a)"
  by (cases r) auto

lemma quiet_case_prod [host_intros]:
  "(\<And>a b. quiet (f a b)) \<Longrightarrow> quiet (case r of (a, b) \<Rightarrow> f a b)"
  by (cases r) auto

lemma timed_run: "timed m \<Longrightarrow> run_state m h = (a, h') \<Longrightarrow> hclock h \<le> hclock h'"
  unfolding timed_def by (metis snd_conv)

lemma timed_return [host_intros]: "timed (State_Monad.return a)"
  by (simp add: timed_def)

lemma timed_bind [host_intros]:
  assumes "timed m" and "\<And>a. timed (f a)"
  shows "timed (State_Monad.bind m f)"
  unfolding timed_def
proof
  fix h
  obtain a h' where 1: "run_state m h = (a, h')" by fastforce
  have "hclock h \<le> hclock h'" using timed_run [OF assms(1) 1] .
  also have "\<dots> \<le> hclock (snd (run_state (f a) h'))"
    using assms(2) [of a] by (simp add: timed_def)
  finally show "hclock h \<le> hclock (snd (run_state (State_Monad.bind m f) h))"
    using 1 by simp
qed

lemma timed_host_call [host_intros]: "timed (host_call f)"
  by (simp add: timed_def host_call_def split: prod.splits)

lemma timed_now [host_intros]: "timed now"
  by (simp add: timed_def now_def)

lemma timed_log_event [host_intros]: "timed (log_event e)"
  by (simp add: timed_def log_event_def)

lemma timed_sleep [host_intros]: "timed (sleep E d)"
  by (simp add: sleep_def timed_host_call)

lemma timed_record_hook_failure [host_intros]: "timed (record_hook_failure u k f)"
  by (simp add: timed_def record_hook_failure_def)

lemma timed_read_to_string [host_intros]: "timed (read_to_string E p)"
  by (auto simp: read_to_string_def intro!: host_intros)

lemma timed_if [host_intros]: "timed a \<Longrightarrow> timed b \<Longrightarrow> timed (if c then a else b)"
  by simp

lemma timed_case_sum [host_intros]:
  "(\<And>e. timed (f e)) \<Longrightarrow> (\<And>a. timed (g a)) \<Longrightarrow> timed (case r of Inl e \<Rightarrow> f e | Inr a \<Rightarrow> g a)"
  by (cases r) auto

lemma timed_case_option [host_intros]:
  "timed f \<Longrightarrow> (\<And>a. timed (g a)) \<Longrightarrow> timed (case r of None \<Rightarrow> f | Some a \<Rightarrow> g a)"
  by (cases r) auto

text \<open>
  \<open>grows R m\<close> composes along the program's structure in the same way; a quiet computation adds
  nothing at all.
\<close>

lemma growsE:
  assumes "grows R m" and "run_state m h = (a, h')"
  obtains es where "hlog h' = es @ hlog h" and "list_all R es"
  using assms unfolding grows_def by (metis snd_conv)

lemma grows_quiet: "quiet m \<Longrightarrow> grows R m"
  unfolding quiet_def grows_def by (metis append_Nil list.pred_inject(1))

lemma grows_return [host_intros]: "grows R (State_Monad.return a)"
  by (simp add: grows_def)

lemma grows_host_call [host_intros]: "grows R (host_call f)"
  by (rule grows_quiet) (rule quiet_host_call)

lemma grows_now [host_intros]: "grows R now"
  by (rule grows_quiet) (rule quiet_now)

lemma grows_sleep [host_intros]: "grows R (sleep E d)"
  by (rule grows_quiet) (rule quiet_sleep)

lemma grows_record_hook_failure [host_intros]: "grows R (record_hook_failure u k f)"
  by (rule grows_quiet) (rule quiet_record_hook_failure)

lemma grows_log_event [host_intros]: "R e \<Longrightarrow> grows R (log_event e)"
  by (simp add: grows_def log_event_def)

lemma grows_bind [host_intros]:
  assumes "grows R m" and "\<And>a. grows R (f a)"
  shows "grows R (State_Monad.bind m f)"
  unfolding grows_def
proof
  fix h
  obtain a h1 where 1: "run_state m h = (a, h1)" by fastforce
  obtain es where es: "hlog h1 = es @ hlog h" "list_all R es" using assms(1) 1 by (rule growsE)
  obtain b h2 where 2: "run_state (f a) h1 = (b, h2)" by fastforce
  obtain fs where fs: "hlog h2 = fs @ hlog h1" "list_all R fs" using assms(2) 2 by (rule growsE)
  show "\<exists>es. hlog (snd (run_state (State_Monad.bind m f) h)) = es @ hlog h \<and> list_all R es"
    using 1 2 es fs by (intro exI [of _ "fs @ es"]) simp
qed

lemma grows_if [host_intros]:
  "(c \<Longrightarrow> grows R a) \<Longrightarrow> (\<not> c \<Longrightarrow> grows R b) \<Longrightarrow> grows R (if c then a else b)"
  by simp

lemma grows_case_sum [host_intros]:
  "(\<And>e. grows R (f e)) \<Longrightarrow> (\<And>a. grows R (g a)) \<Longrightarrow> grows R (case r of Inl e \<Rightarrow> f e | Inr a \<Rightarrow> g a)"
  by (cases r) auto

lemma grows_case_option [host_intros]:
  "grows R f \<Longrightarrow> (\<And>a. grows R (g a)) \<Longrightarrow> grows R (case r of None \<Rightarrow> f | Some a \<Rightarrow> g a)"
  by (cases r) auto

lemma grows_mono: "grows R m \<Longrightarrow> (\<And>e. R e \<Longrightarrow> S e) \<Longrightarrow> grows S m"
  unfolding grows_def by (metis list.pred_mono_strong)

text \<open>
  \<open>emits m P\<close>: a run of \<open>m\<close> with result \<open>a\<close> adds events \<open>es\<close> (newest first) with \<open>P a es\<close>. The
  rule for \<open>bind\<close> works backwards through a block, like a weakest precondition on the trace.
\<close>

definition emits :: "('w host, 'a) state \<Rightarrow> ('a \<Rightarrow> event list \<Rightarrow> bool) \<Rightarrow> bool" where
  "emits m P \<longleftrightarrow> (\<forall>h a h'. run_state m h = (a, h') \<longrightarrow> (\<exists>es. hlog h' = es @ hlog h \<and> P a es))"

lemma emitsI:
  "(\<And>h a h'. run_state m h = (a, h') \<Longrightarrow> \<exists>es. hlog h' = es @ hlog h \<and> P a es) \<Longrightarrow> emits m P"
  by (auto simp: emits_def)

lemma emitsE:
  assumes "emits m P" and "run_state m h = (a, h')"
  obtains es where "hlog h' = es @ hlog h" and "P a es"
  using assms unfolding emits_def by blast

lemma emits_mono: "emits m P \<Longrightarrow> (\<And>a es. P a es \<Longrightarrow> Q a es) \<Longrightarrow> emits m Q"
  unfolding emits_def by meson

lemma emits_return: "P a [] \<Longrightarrow> emits (State_Monad.return a) P"
  by (simp add: emits_def)

lemma emits_quiet: "quiet m \<Longrightarrow> (\<And>a. P a []) \<Longrightarrow> emits m P"
  unfolding emits_def quiet_def by (metis append_Nil snd_conv)

lemma emits_bind:
  assumes "emits m P" and "\<And>a es. P a es \<Longrightarrow> emits (f a) (\<lambda>b fs. Q b (fs @ es))"
  shows "emits (State_Monad.bind m f) Q"
proof (rule emitsI)
  fix h b h2
  assume r: "run_state (State_Monad.bind m f) h = (b, h2)"
  obtain a h1 where 1: "run_state m h = (a, h1)" by fastforce
  obtain es where es: "hlog h1 = es @ hlog h" "P a es" using assms(1) 1 by (rule emitsE)
  have 2: "run_state (f a) h1 = (b, h2)" using r 1 by simp
  obtain fs where "hlog h2 = fs @ hlog h1" "Q b (fs @ es)" using assms(2) [OF es(2)] 2 by (rule emitsE)
  with es show "\<exists>es. hlog h2 = es @ hlog h \<and> Q b es" by (intro exI [of _ "fs @ es"]) simp
qed

lemma emits_bind_quiet:
  assumes "quiet m" and "\<And>a. emits (f a) Q"
  shows "emits (State_Monad.bind m f) Q"
proof (rule emits_bind [where P = "\<lambda>_ es. es = []"])
  show "emits m (\<lambda>_ es. es = [])" by (rule emits_quiet [OF assms(1)]) simp
qed (use assms(2) in simp)

lemma emits_log_event: "P () [e] \<Longrightarrow> emits (log_event e) P"
  by (simp add: emits_def log_event_def)

lemma emits_grows: "emits m (\<lambda>_ es. list_all R es) \<longleftrightarrow> grows R m"
  by (simp add: emits_def grows_def prod_eq_iff)

lemma sleep_clock: "run_state (sleep E d) h = (a, h') \<Longrightarrow> hclock h + d \<le> hclock h'"
  by (auto simp: sleep_def host_call_def split: prod.splits)

end
