(* ===== verification/Cgroup.thy ===== *)
theory Cgroup
  imports Classify Host
begin

text \<open>
  \<open>src/cgroup.rs\<close>: which systemd unit owns a process, from its \<open>/proc/<pid>/cgroup\<close>. The parser
  is pure; \<open>attribute_units\<close> reads the files through the host.
\<close>

definition unit_suffix :: "string \<Rightarrow> bool" where
  "unit_suffix s \<longleftrightarrow> ends_with s ''.service'' \<or> ends_with s ''.scope''"

definition segments :: "string \<Rightarrow> string list" where
  "segments path = filter (\<lambda>s. s \<noteq> []) (split_on (CHR ''/'') path)"

definition unit_from_cgroup_line :: "string \<Rightarrow> string option" where
  "unit_from_cgroup_line line =
     (let path = (case rsplit_once line (CHR '':'') of Some (_, p) \<Rightarrow> p | None \<Rightarrow> line)
      in case dropWhile (\<lambda>s. s \<noteq> ''system.slice'') (segments path) of
           [] \<Rightarrow> None
         | _ # below \<Rightarrow> find unit_suffix (rev below))"

definition unit_from_cgroup :: "string \<Rightarrow> string option" where
  "unit_from_cgroup contents =
     (case List.map_filter unit_from_cgroup_line (str_lines contents) of
        [] \<Rightarrow> None
      | u # _ \<Rightarrow> Some u)"

fun resolve_pid_units :: "'w os \<Rightarrow> int list \<Rightarrow> ('w host, int \<rightharpoonup> string) state" where
  "resolve_pid_units E [] = State_Monad.return Map.empty"
| "resolve_pid_units E (p # ps) = do {
     r \<leftarrow> read_to_string E (''/proc/'' @ show_int p @ ''/cgroup'');
     m \<leftarrow> resolve_pid_units E ps;
     State_Monad.return
       (case r of
          Inl _ \<Rightarrow> m
        | Inr contents \<Rightarrow>
            (case unit_from_cgroup contents of
               None \<Rightarrow> m
             | Some u \<Rightarrow> (case m p of None \<Rightarrow> m(p \<mapsto> u) | Some _ \<Rightarrow> m)))
   }"

text \<open>
  A later read of the same pid overwrites an earlier one in the source's map, which is why the
  recursion above keeps the entry found further down the list.
\<close>

definition attribute_units ::
  "'w os \<Rightarrow> gpu_compute_proc list \<Rightarrow> ('w host, gpu_compute_proc list) state" where
  "attribute_units E procs =
     (if os_platform E = Linux then do {
        m \<leftarrow> resolve_pid_units E (map pid procs);
        State_Monad.return (map (\<lambda>p. p\<lparr> owning_unit := m (pid p) \<rparr>) procs)
      } else State_Monad.return procs)"

section \<open>Lemmas\<close>

lemma quiet_resolve_pid_units [host_intros]: "quiet (resolve_pid_units E ps)"
  by (induction ps) (auto intro!: host_intros)

lemma timed_resolve_pid_units [host_intros]: "timed (resolve_pid_units E ps)"
  by (induction ps) (auto intro!: host_intros)

lemma quiet_attribute_units [host_intros]: "quiet (attribute_units E ps)"
  by (auto simp: attribute_units_def intro!: host_intros)

lemma timed_attribute_units [host_intros]: "timed (attribute_units E ps)"
  by (auto simp: attribute_units_def intro!: host_intros)

text \<open>The cgroup v2 line systemd writes for a unit below a chain of slices.\<close>

definition cgroup_line :: "string list \<Rightarrow> string" where
  "cgroup_line segs = ''0::'' @ concat (map (\<lambda>s. CHR ''/'' # s) segs)"

lemma split_on_path:
  "list_all (\<lambda>s. CHR ''/'' \<notin> set s) segs \<Longrightarrow>
   split_on (CHR ''/'') (concat (map (\<lambda>s. CHR ''/'' # s) segs)) = [] # segs"
proof (induction segs)
  case (Cons s segs)
  have "split_on (CHR ''/'') (s @ concat (map (\<lambda>s. CHR ''/'' # s) segs)) = s # segs"
  proof (cases segs)
    case Nil
    with Cons.prems show ?thesis by (simp add: split_on_no)
  next
    case (Cons t ts)
    with Cons.IH Cons.prems show ?thesis
      by (simp add: split_on_append)
  qed
  then show ?case by simp
qed simp

lemma segments_path:
  assumes "list_all (\<lambda>s. CHR ''/'' \<notin> set s \<and> s \<noteq> []) segs"
  shows "segments (concat (map (\<lambda>s. CHR ''/'' # s) segs)) = segs"
proof -
  have "list_all (\<lambda>s. CHR ''/'' \<notin> set s) segs" and "filter (\<lambda>s. s \<noteq> []) segs = segs"
    using assms by (induction segs) auto
  then show ?thesis by (simp add: segments_def split_on_path)
qed

lemma cgroup_line_path:
  assumes "list_all (\<lambda>s. CHR '':'' \<notin> set s) segs"
  shows "rsplit_once (cgroup_line segs) (CHR '':'')
           = Some (''0:'', concat (map (\<lambda>s. CHR ''/'' # s) segs))"
proof -
  have "CHR '':'' \<notin> set (concat (map (\<lambda>s. CHR ''/'' # s) segs))"
    using assms by (auto simp: list_all_iff)
  from rsplit_once_append [OF this, of "''0:''"] show ?thesis by (simp add: cgroup_line_def)
qed

text \<open>What the line parser finds: the deepest unit segment below \<open>system.slice\<close>.\<close>

lemma unit_from_cgroup_line_Some:
  assumes "unit_from_cgroup_line line = Some u"
  shows "unit_suffix u \<and> str_contains line u"
proof -
  define path where "path = (case rsplit_once line (CHR '':'') of Some (_, p) \<Rightarrow> p | None \<Rightarrow> line)"
  from assms obtain s below where
    d: "dropWhile (\<lambda>s. s \<noteq> ''system.slice'') (segments path) = s # below"
    and f: "find unit_suffix (rev below) = Some u"
    by (auto simp: unit_from_cgroup_line_def path_def Let_def split: list.splits)
  have "u \<in> set below" and suf: "unit_suffix u"
    using find_SomeD [OF f] by auto
  then have "u \<in> set (segments path)"
    using d by (metis list.set_intros(2) set_dropWhileD)
  then have "u \<in> set (split_on (CHR ''/'') path)"
    by (simp add: segments_def)
  then have "str_contains path u"
    using split_piece_contains by blast
  moreover have "\<exists>a. line = a @ path"
    by (auto simp: path_def dest: rsplit_once_Some split: option.splits)
  ultimately show ?thesis
    using suf by (metis append_assoc str_contains_iff)
qed

end
