(* ===== verification/Gpu.thy ===== *)
theory Gpu
  imports Cgroup
begin

text \<open>
  \<open>src/gpu.rs\<close>: the two vendor back ends, the parsers of their output, and the attribution of
  VRAM to a managed unit. Sizes are \<open>u64\<close> words: \<open>sum\<close> wraps in the release profile and
  division is unsigned. A \<open>spawn_blocking\<close> task cannot fail to join (the profile aborts on a
  panic), so the sysfs read has no \<open>TaskPanicked\<close> result.
\<close>

section \<open>Data\<close>

definition NVIDIA_SMI_TIMEOUT :: time where
  "NVIDIA_SMI_TIMEOUT = from_secs 2"

record gpu_memory =
  used_mb :: u64
  total_mb :: u64

datatype gpu_error =
    GE_Io string io_error
  | GE_Exit string "int option" string
  | GE_Timeout string time
  | GE_NoAmdCard string
  | GE_Parse string

datatype gpu_backend = Nvidia | Amd

definition attribution_capable :: "gpu_backend \<Rightarrow> bool" where
  "attribution_capable b \<longleftrightarrow> b = Nvidia"

section \<open>Parsers\<close>

definition bytes_to_mib :: "u64 \<Rightarrow> u64" where
  "bytes_to_mib b = b div 1024 div 1024"

fun csv_cols :: "string \<Rightarrow> string list" where
  "csv_cols line = map str_trim (split_on (CHR '','') line)"

definition parse_memory_csv :: "string \<Rightarrow> gpu_error + gpu_memory" where
  "parse_memory_csv out =
     (case find (\<lambda>l. l \<noteq> []) (map str_trim (str_lines out)) of
        None \<Rightarrow> Inl (GE_Parse ''empty nvidia-smi output'')
      | Some line \<Rightarrow>
          (let cols = csv_cols line in
           case (if cols = [] then None else parse_u64 (cols ! 0)) of
             None \<Rightarrow> Inl (GE_Parse (''memory.used in '' @ str_debug line))
           | Some used \<Rightarrow>
               (case (if length cols < 2 then None else parse_u64 (cols ! 1)) of
                  None \<Rightarrow> Inl (GE_Parse (''memory.total in '' @ str_debug line))
                | Some tot \<Rightarrow> Inr \<lparr> used_mb = used, total_mb = tot \<rparr>)))"

definition parse_proc_line :: "string \<Rightarrow> gpu_compute_proc option" where
  "parse_proc_line l =
     (let line = str_trim l in
      if line = [] then None
      else case csv_cols line of
        p # n # rest \<Rightarrow>
          (case parse_i32 p of
             None \<Rightarrow> None
           | Some i \<Rightarrow>
               Some \<lparr> pid = i, proc_name = n,
                      vram_mb = (case rest of
                        [] \<Rightarrow> 0
                      | v # _ \<Rightarrow> (case parse_u64 v of None \<Rightarrow> 0 | Some x \<Rightarrow> x)),
                      owning_unit = None \<rparr>)
      | _ \<Rightarrow> None)"

definition parse_compute_procs_csv :: "string \<Rightarrow> gpu_compute_proc list" where
  "parse_compute_procs_csv out = List.map_filter parse_proc_line (str_lines out)"

definition parse_vram_sysfs :: "string \<Rightarrow> string \<Rightarrow> gpu_error + gpu_memory" where
  "parse_vram_sysfs used_bytes total_bytes =
     (case parse_u64 (str_trim used_bytes) of
        None \<Rightarrow> Inl (GE_Parse (''mem_info_vram_used in '' @ str_debug used_bytes))
      | Some used \<Rightarrow>
          (case parse_u64 (str_trim total_bytes) of
             None \<Rightarrow> Inl (GE_Parse (''mem_info_vram_total in '' @ str_debug total_bytes))
           | Some tot \<Rightarrow>
               Inr \<lparr> used_mb = bytes_to_mib used, total_mb = bytes_to_mib tot \<rparr>))"

section \<open>Back ends\<close>

definition run_nvidia_smi :: "'w os \<Rightarrow> string list \<Rightarrow> ('w host, gpu_error + string) state" where
  "run_nvidia_smi E args = do {
     r \<leftarrow> host_call (os_run E NVIDIA_SMI_TIMEOUT (''nvidia-smi'' # args));
     State_Monad.return (case r of
        TimedOut \<Rightarrow> Inl (GE_Timeout ''nvidia-smi'' NVIDIA_SMI_TIMEOUT)
      | SpawnFailed e \<Rightarrow> Inl (GE_Io ''spawning nvidia-smi'' e)
      | Exited code sout serr \<Rightarrow>
          if code \<noteq> Some 0 then
            Inl (GE_Exit ''nvidia-smi'' code (str_trim (utf8_lossy serr)))
          else
            (case utf8_error 0 sout of
               None \<Rightarrow> Inr sout
             | Some e \<Rightarrow> Inl (GE_Parse (''nvidia-smi stdout not UTF-8: '' @ e))))
   }"

definition nvidia_query_memory :: "'w os \<Rightarrow> ('w host, gpu_error + gpu_memory) state" where
  "nvidia_query_memory E = do {
     r \<leftarrow> run_nvidia_smi E [''--query-gpu=memory.used,memory.total'', ''--format=csv,noheader,nounits''];
     State_Monad.return (case r of Inl e \<Rightarrow> Inl e | Inr out \<Rightarrow> parse_memory_csv out)
   }"

definition nvidia_query_compute_procs ::
  "'w os \<Rightarrow> ('w host, gpu_error + gpu_compute_proc list) state" where
  "nvidia_query_compute_procs E = do {
     r \<leftarrow> run_nvidia_smi E
       [''--query-compute-apps=pid,process_name,used_memory'', ''--format=csv,noheader,nounits''];
     State_Monad.return (case r of Inl e \<Rightarrow> Inl e | Inr out \<Rightarrow> Inr (parse_compute_procs_csv out))
   }"

definition DRM_BASE :: string where
  "DRM_BASE = ''/sys/class/drm''"

definition is_card_node :: "string \<Rightarrow> bool" where
  "is_card_node name \<longleftrightarrow>
     utf8_valid name \<and> starts_with name ''card'' \<and> list_all is_digit (drop 4 name)"

fun read_first_card :: "'w os \<Rightarrow> string list \<Rightarrow> ('w host, gpu_error + gpu_memory) state" where
  "read_first_card E [] = State_Monad.return (Inl (GE_NoAmdCard DRM_BASE))"
| "read_first_card E (name # names) =
     (if \<not> is_card_node name then read_first_card E names
      else do {
        used \<leftarrow> read_to_string E (DRM_BASE @ ''/'' @ name @ ''/device/mem_info_vram_used'');
        tot \<leftarrow> read_to_string E (DRM_BASE @ ''/'' @ name @ ''/device/mem_info_vram_total'');
        (case (used, tot) of
           (Inr u, Inr t) \<Rightarrow> State_Monad.return (parse_vram_sysfs u t)
         | _ \<Rightarrow> read_first_card E names)
      })"

definition amd_query_memory :: "'w os \<Rightarrow> ('w host, gpu_error + gpu_memory) state" where
  "amd_query_memory E =
     (if os_platform E = Linux then do {
        r \<leftarrow> host_call (os_read_dir E DRM_BASE);
        (case r of
           Inl e \<Rightarrow> State_Monad.return (Inl (GE_Io (''reading '' @ DRM_BASE) e))
         | Inr names \<Rightarrow> read_first_card E names)
      } else State_Monad.return (Inl (GE_NoAmdCard ''/sys/class/drm'')))"

definition query_memory :: "'w os \<Rightarrow> gpu_backend \<Rightarrow> ('w host, gpu_error + gpu_memory) state" where
  "query_memory E b = (case b of Nvidia \<Rightarrow> nvidia_query_memory E | Amd \<Rightarrow> amd_query_memory E)"

definition query_compute_procs ::
  "'w os \<Rightarrow> gpu_backend \<Rightarrow> ('w host, gpu_error + gpu_compute_proc list) state" where
  "query_compute_procs E b =
     (case b of Nvidia \<Rightarrow> nvidia_query_compute_procs E | Amd \<Rightarrow> State_Monad.return (Inr []))"

section \<open>Choosing the back end\<close>

definition nvidia_smi_on_path :: "'w os \<Rightarrow> 'w \<Rightarrow> bool" where
  "nvidia_smi_on_path E w =
     list_ex (\<lambda>name. os_on_path E name w)
       (if os_platform E = Windows then [''nvidia-smi.exe''] else [''nvidia-smi''])"

text \<open>\<open>Path::file_name\<close>: the last component, if it is a normal one.\<close>

definition file_name :: "string \<Rightarrow> string option" where
  "file_name path =
     (let cs = filter (\<lambda>s. s \<noteq> [] \<and> s \<noteq> ''.'') (split_on (CHR ''/'') path)
      in if cs = [] \<or> last cs = ''..'' then None else Some (last cs))"

fun amdgpu_among :: "'w os \<Rightarrow> string list \<Rightarrow> ('w host, bool) state" where
  "amdgpu_among E [] = State_Monad.return False"
| "amdgpu_among E (name # names) =
     (if \<not> is_card_node name then amdgpu_among E names
      else do {
        target \<leftarrow> host_call (os_read_link E (DRM_BASE @ ''/'' @ name @ ''/device/driver''));
        (if (case target of None \<Rightarrow> False | Some t \<Rightarrow> file_name t = Some ''amdgpu'')
         then State_Monad.return True
         else amdgpu_among E names)
      })"

definition amdgpu_card_present :: "'w os \<Rightarrow> ('w host, bool) state" where
  "amdgpu_card_present E =
     (if os_platform E \<noteq> Linux then State_Monad.return False
      else do {
        r \<leftarrow> host_call (os_read_dir E DRM_BASE);
        (case r of
           Inl _ \<Rightarrow> State_Monad.return False
         | Inr names \<Rightarrow> amdgpu_among E names)
      })"

definition resolve_backend :: "'w os \<Rightarrow> gpu_backend_kind \<Rightarrow> ('w host, gpu_backend) state" where
  "resolve_backend E k =
     (case k of
        Kind_Nvidia \<Rightarrow> State_Monad.return Nvidia
      | Kind_Amd \<Rightarrow> State_Monad.return Amd
      | Kind_Auto \<Rightarrow> do {
          h \<leftarrow> State_Monad.get;
          (if nvidia_smi_on_path E (hworld h) then State_Monad.return Nvidia
           else do {
             amd \<leftarrow> amdgpu_card_present E;
             State_Monad.return (if amd then Amd else Nvidia)
           })
        })"

section \<open>Attribution\<close>

definition vram_total :: "gpu_compute_proc list \<Rightarrow> u64" where
  "vram_total ps = sum_list (map vram_mb ps)"

definition vram_mb_matching :: "gpu_compute_proc list \<Rightarrow> string \<Rightarrow> u64 option" where
  "vram_mb_matching compute needle =
     (let matched = filter (\<lambda>p. str_contains (to_ascii_lowercase (proc_name p))
                                  (to_ascii_lowercase needle)) compute
      in if matched = [] then None else Some (vram_total matched))"

definition vram_mb_by_cgroup :: "gpu_compute_proc list \<Rightarrow> string \<Rightarrow> u64 option" where
  "vram_mb_by_cgroup compute u =
     (let matched = filter (\<lambda>p. owning_unit p = Some u) compute
      in if matched = [] then None else Some (vram_total matched))"

definition unit_vram_sum :: "gpu_compute_proc list \<Rightarrow> string \<Rightarrow> u64" where
  "unit_vram_sum compute u = vram_total (filter (\<lambda>p. owning_unit p = Some u) compute)"

definition attribute_unit_vram ::
  "gpu_compute_proc list option \<Rightarrow> bool \<Rightarrow> string \<Rightarrow> string option \<Rightarrow> u64 option" where
  "attribute_unit_vram compute is_systemd u vmatch =
     (case compute of
        None \<Rightarrow> None
      | Some procs \<Rightarrow>
          if is_systemd then Some (unit_vram_sum procs u)
          else map_option (\<lambda>needle. case vram_mb_matching procs needle of None \<Rightarrow> 0 | Some v \<Rightarrow> v) vmatch)"

section \<open>Lemmas\<close>

lemma quiet_run_nvidia_smi [host_intros]: "quiet (run_nvidia_smi E a)"
  by (auto simp: run_nvidia_smi_def intro!: host_intros)

lemma timed_run_nvidia_smi [host_intros]: "timed (run_nvidia_smi E a)"
  by (auto simp: run_nvidia_smi_def intro!: host_intros)

lemma quiet_read_first_card [host_intros]: "quiet (read_first_card E ns)"
  by (induction ns) (auto intro!: host_intros split: sum.split)

lemma timed_read_first_card [host_intros]: "timed (read_first_card E ns)"
  by (induction ns) (auto intro!: host_intros split: sum.split)

lemma quiet_query_memory [host_intros]: "quiet (query_memory E b)"
  by (cases b) (auto simp: query_memory_def nvidia_query_memory_def amd_query_memory_def
      intro!: host_intros)

lemma timed_query_memory [host_intros]: "timed (query_memory E b)"
  by (cases b) (auto simp: query_memory_def nvidia_query_memory_def amd_query_memory_def
      intro!: host_intros)

lemma quiet_query_compute_procs [host_intros]: "quiet (query_compute_procs E b)"
  by (cases b) (auto simp: query_compute_procs_def nvidia_query_compute_procs_def
      intro!: host_intros)

lemma timed_query_compute_procs [host_intros]: "timed (query_compute_procs E b)"
  by (cases b) (auto simp: query_compute_procs_def nvidia_query_compute_procs_def
      intro!: host_intros)

text \<open>The two cgroup sums agree wherever the optional one answers.\<close>

lemma unit_vram_sum_by_cgroup:
  "unit_vram_sum ps u = (case vram_mb_by_cgroup ps u of None \<Rightarrow> 0 | Some v \<Rightarrow> v)"
  by (simp add: unit_vram_sum_def vram_mb_by_cgroup_def vram_total_def Let_def)

lemma vram_mb_by_cgroup_None:
  "vram_mb_by_cgroup ps u = None \<longleftrightarrow> (\<forall>p\<in>set ps. owning_unit p \<noteq> Some u)"
  by (auto simp: vram_mb_by_cgroup_def Let_def filter_empty_conv)

lemma unat_bytes_to_mib: "unat (bytes_to_mib b) = unat b div 1048576"
  by (simp add: bytes_to_mib_def unat_div div_mult2_eq [symmetric])

end
