(* ===== verification/Units_Core.thy ===== *)
theory Units_Core
  imports Gpu
begin

text \<open>
  The pure half of \<open>src/units.rs\<close>: the supervisor of a unit, its errors, the excerpts of command
  output, and the decisions of the eviction loop (the freed/escalate/wait step, the run-state
  override and the trust in a zero VRAM reading).
\<close>

section \<open>Data\<close>

datatype unit_error =
    UE_Control string string io_error
  | UE_Exit string string string
  | UE_Timeout string string time
  | UE_Gpu gpu_error
  | UE_StillRunning string string

datatype supervisor =
    Systemd
  | Command (cmd_stop: "string list") (cmd_start: "string list") (cmd_is_active: "string list")
      (cmd_kill: "string list option")

definition argv_of :: "argv_cmd option \<Rightarrow> string list" where
  "argv_of c = (case c of None \<Rightarrow> [] | Some a \<Rightarrow> argv a)"

definition resolve_supervisor :: "managed_unit \<Rightarrow> supervisor" where
  "resolve_supervisor u =
     (if stop_cmd u = None \<and> start_cmd u = None \<and> is_active_cmd u = None \<and> kill_cmd u = None
      then Systemd
      else Command (argv_of (stop_cmd u)) (argv_of (start_cmd u)) (argv_of (is_active_cmd u))
             (map_option argv (kill_cmd u)))"

datatype eviction_outcome = Freed | Escalated | AlreadyClear

fun eviction_metric_outcome ::
  "unit_error + eviction_outcome \<Rightarrow> eviction_metric_outcome option" where
  "eviction_metric_outcome (Inr Freed) = Some Graceful"
| "eviction_metric_outcome (Inr Escalated) = Some Sigkill"
| "eviction_metric_outcome (Inr AlreadyClear) = None"
| "eviction_metric_outcome (Inl _) = Some Evict_Error"

definition EVICTION_POLL_INTERVAL :: time where
  "EVICTION_POLL_INTERVAL = from_millis 250"

definition SYSTEMCTL_TIMEOUT :: time where
  "SYSTEMCTL_TIMEOUT = from_secs 10"

definition INTROSPECTION_TIMEOUT :: time where
  "INTROSPECTION_TIMEOUT = from_secs 2"

definition KILL_SETTLE :: time where
  "KILL_SETTLE = from_secs 2"

section \<open>Excerpts of command output\<close>

definition OUTPUT_EXCERPT_MAX :: nat where
  "OUTPUT_EXCERPT_MAX = 300"

definition truncated_mark :: string where
  "truncated_mark = [CHR 0xE2, CHR 0x80, CHR 0xA6] @ '' (truncated)''"

definition nonempty_lines :: "string \<Rightarrow> string list" where
  "nonempty_lines text = filter (\<lambda>l. l \<noteq> []) (map str_trim (str_lines text))"

definition stderr_excerpt :: "string \<Rightarrow> string" where
  "stderr_excerpt serr =
     (case nonempty_lines (utf8_lossy serr) of
        [] \<Rightarrow> ''<no stderr>''
      | line # _ \<Rightarrow>
          if 300 < char_count line then take_chars 300 line @ truncated_mark else line)"

definition output_excerpt :: "string \<Rightarrow> string option" where
  "output_excerpt out =
     (let joined = str_join '' | '' (nonempty_lines (utf8_lossy out))
      in if joined = [] then None
         else if OUTPUT_EXCERPT_MAX < char_count joined
         then Some (take_chars OUTPUT_EXCERPT_MAX joined @ truncated_mark)
         else Some joined)"

definition exit_detail :: "int option \<Rightarrow> string \<Rightarrow> string \<Rightarrow> string" where
  "exit_detail code sout serr =
     str_join ''; ''
       ([''exit '' @ (case code of None \<Rightarrow> ''signal'' | Some c \<Rightarrow> show_int c)]
        @ (case output_excerpt serr of None \<Rightarrow> [] | Some t \<Rightarrow> [''stderr: '' @ t])
        @ (case output_excerpt sout of None \<Rightarrow> [] | Some t \<Rightarrow> [''stdout: '' @ t]))"

text \<open>
  The \<open>Display\<close> of an error, as the detail of a failed kill quotes it: a kill fails with
  \<open>Control\<close>, \<open>Exit\<close> or \<open>Timeout\<close>. No code builds the \<open>Gpu\<close> variant.
\<close>

fun unit_error_text :: "unit_error \<Rightarrow> string" where
  "unit_error_text (UE_Control a u e) =
     a @ '' '' @ u @ '': spawning failed: '' @ (case e of IoError _ m \<Rightarrow> m)"
| "unit_error_text (UE_Exit a u d) = a @ '' '' @ u @ '' failed: '' @ d"
| "unit_error_text (UE_Timeout a u t) =
     a @ '' '' @ u @ '' timed out after '' @ show_nat (t div 1000000000) @ ''s''"
| "unit_error_text (UE_Gpu _) = ''gpu query during eviction: ''"
| "unit_error_text (UE_StillRunning u d) = u @ '' still running after kill ('' @ d @ '')''"

section \<open>Eviction decisions\<close>

definition vram_is_free :: "gpu_memory \<Rightarrow> config \<Rightarrow> bool" where
  "vram_is_free mem cfg \<longleftrightarrow> used_mb mem < vram_free_threshold_mb cfg"

datatype eviction_step = Step_Freed | Step_Escalate | Step_KeepWaiting

datatype unit_vram_reading = Attributed u64 | Fallback "gpu_memory option" | Unavailable

definition eviction_step :: "unit_vram_reading \<Rightarrow> time \<Rightarrow> config \<Rightarrow> eviction_step" where
  "eviction_step reading elapsed cfg =
     (let is_freed = (case reading of
             Attributed mb \<Rightarrow> mb < vram_free_threshold_mb cfg
           | Fallback (Some mem) \<Rightarrow> vram_is_free mem cfg
           | Fallback None \<Rightarrow> False
           | Unavailable \<Rightarrow> False)
      in if is_freed then Step_Freed
         else if from_secs (eviction_timeout_s cfg) \<le> elapsed then Step_Escalate
         else Step_KeepWaiting)"

definition poll_step :: "eviction_step \<Rightarrow> bool \<Rightarrow> bool option \<Rightarrow> bool \<Rightarrow> eviction_step" where
  "poll_step step vram_open running timed_out =
     (if vram_open \<and> running = Some False then Step_Freed
      else if step = Step_Freed then (if timed_out then Step_Escalate else Step_KeepWaiting)
      else step)"

definition attribution_is_trustworthy :: "u64 option \<Rightarrow> bool \<Rightarrow> bool" where
  "attribution_is_trustworthy attributed seen_nonzero =
     (case attributed of None \<Rightarrow> False | Some mb \<Rightarrow> 0 < mb \<or> seen_nonzero)"

datatype busy_reply = Busy | Idle | IdleOther int | Killed

definition classify_busy_exit :: "int option \<Rightarrow> busy_reply" where
  "classify_busy_exit code =
     (case code of
        None \<Rightarrow> Killed
      | Some c \<Rightarrow> if c = 0 then Busy else if c = 1 then Idle else IdleOther c)"

definition resolve_unit :: "config \<Rightarrow> string \<Rightarrow> unit_error + managed_unit" where
  "resolve_unit cfg unit =
     (case find (\<lambda>u. unit_name u = unit) (resolved_units cfg) of
        Some u \<Rightarrow> Inr u
      | None \<Rightarrow> Inl (UE_Exit ''resolve'' unit ''unit is not (or no longer) managed''))"

section \<open>Introspection\<close>

datatype introspect_error =
    IE_Request string string
  | IE_Parse string string
  | IE_Timeout string time
  | IE_Task string string

text \<open>The body's \<open>models\<close>, decoded by \<open>serde_json\<close>, then reduced to trimmed non-empty names.\<close>

definition parse_ollama_api_ps ::
  "(string \<Rightarrow> string + (string option \<times> string option) list) \<Rightarrow> string \<Rightarrow> string + string list" where
  "parse_ollama_api_ps parse body =
     (case parse body of
        Inl e \<Rightarrow> Inl e
      | Inr models \<Rightarrow>
          Inr (filter (\<lambda>n. n \<noteq> [])
                 (map str_trim
                   (List.map_filter (\<lambda>(n, m). case n of Some x \<Rightarrow> Some x | None \<Rightarrow> m) models))))"

definition ollama_ps_url :: "string \<Rightarrow> string" where
  "ollama_ps_url base = trim_end_matches base (CHR ''/'') @ ''/api/ps''"

definition parse_model_lines :: "string \<Rightarrow> string list" where
  "parse_model_lines out = nonempty_lines out"

fun introspect_error_text :: "introspect_error \<Rightarrow> string" where
  "introspect_error_text (IE_Request url d) = ''GET '' @ url @ '': '' @ d"
| "introspect_error_text (IE_Parse url d) = ''GET '' @ url @ '': unexpected response body: '' @ d"
| "introspect_error_text (IE_Timeout url t) =
     ''GET '' @ url @ '': timed out after '' @ show_nat (t div 1000000000) @ ''s''"
| "introspect_error_text (IE_Task url d) = ''GET '' @ url @ '': query task failed: '' @ d"

section \<open>Lemmas\<close>

lemma poll_step_Freed: "poll_step st vo r t = Step_Freed \<longleftrightarrow> vo \<and> r = Some False"
  by (cases st) (auto simp: poll_step_def)

lemma poll_step_KeepWaiting:
  "poll_step st vo r t = Step_KeepWaiting \<Longrightarrow> st = Step_KeepWaiting \<or> st = Step_Freed \<and> \<not> t"
  by (auto simp: poll_step_def split: if_splits)

lemma eviction_step_KeepWaiting:
  "eviction_step r e cfg = Step_KeepWaiting \<Longrightarrow> e < from_secs (eviction_timeout_s cfg)"
  by (auto simp: eviction_step_def Let_def split: if_splits)

lemma eviction_metric_outcome_None:
  "eviction_metric_outcome r = None \<longleftrightarrow> r = Inr AlreadyClear"
  by (cases r rule: eviction_metric_outcome.cases) auto

lemma resolve_unit_Inr:
  "resolve_unit cfg n = Inr u \<Longrightarrow> u \<in> set (resolved_units cfg) \<and> unit_name u = n"
  by (auto simp: resolve_unit_def dest: find_SomeD split: option.splits)

lemma resolve_unit_Inl:
  "(\<exists>e. resolve_unit cfg n = Inl e) \<longleftrightarrow> n \<notin> unit_name ` set (resolved_units cfg)"
  by (auto simp: resolve_unit_def find_None_iff split: option.splits dest: find_SomeD)

lemma resolve_supervisor_Systemd:
  "resolve_supervisor u = Systemd \<longleftrightarrow>
     stop_cmd u = None \<and> start_cmd u = None \<and> is_active_cmd u = None \<and> kill_cmd u = None"
  by (auto simp: resolve_supervisor_def split: if_splits)

lemma trustworthy_zero: "attribution_is_trustworthy (Some 0) seen \<longleftrightarrow> seen"
  by (simp add: attribution_is_trustworthy_def)

end
