(* ===== verification/Units.thy ===== *)
theory Units
  imports Units_Core
begin

text \<open>
  The effectful half of \<open>src/units.rs\<close>: every process control the daemon issues (\<open>run_argv\<close> and
  its callers), model introspection, and the eviction of one unit with its two polling loops.

  The loops are total functions on the host state: each round that keeps waiting sleeps at least
  the poll interval on the monotonic clock, so the time left in the budget decreases.
\<close>

section \<open>Process controls\<close>

definition run_argv ::
  "'w os \<Rightarrow> string \<Rightarrow> string \<Rightarrow> string list \<Rightarrow> string \<Rightarrow>
   ('w host, unit_error + int option \<times> string \<times> string) state" where
  "run_argv E action unit cmdv unit_arg =
     (if cmdv = [] then
        State_Monad.return
          (Inl (UE_Exit action unit ''empty command (no override configured for this verb)''))
      else do {
        let full = (if unit_arg = [] then cmdv else cmdv @ [unit_arg]);
        r \<leftarrow> host_call (os_run E SYSTEMCTL_TIMEOUT full);
        log_event (Ev_Control action unit full r);
        State_Monad.return (case r of
            TimedOut \<Rightarrow> Inl (UE_Timeout action unit SYSTEMCTL_TIMEOUT)
          | SpawnFailed e \<Rightarrow> Inl (UE_Control action unit e)
          | Exited code sout serr \<Rightarrow> Inr (code, sout, serr))
      })"

definition systemctl ::
  "'w os \<Rightarrow> string \<Rightarrow> string \<Rightarrow> ('w host, unit_error + int option \<times> string \<times> string) state" where
  "systemctl E action unit = run_argv E action unit [''systemctl'', action] unit"

definition is_running :: "'w os \<Rightarrow> managed_unit \<Rightarrow> ('w host, unit_error + bool) state" where
  "is_running E u = do {
     r \<leftarrow> (case resolve_supervisor u of
             Systemd \<Rightarrow> systemctl E ''is-active'' (unit_name u)
           | Command _ _ act _ \<Rightarrow> run_argv E ''is-active'' (unit_name u) act []);
     State_Monad.return (case r of Inl e \<Rightarrow> Inl e | Inr (code, _, _) \<Rightarrow> Inr (code = Some 0))
   }"

definition resume :: "'w os \<Rightarrow> managed_unit \<Rightarrow> ('w host, bool) state" where
  "resume E u =
     (case resume_cmd u of
        None \<Rightarrow> State_Monad.return True
      | Some cmd \<Rightarrow> do {
          r \<leftarrow> run_argv E ''resume'' (unit_name u) (argv cmd) [];
          (case r of
             Inr (code, _, _) \<Rightarrow>
               if code = Some 0 then State_Monad.return True
               else do { record_hook_failure (unit_name u) Hook_Resume NonZero;
                         State_Monad.return False }
           | Inl _ \<Rightarrow> do { record_hook_failure (unit_name u) Hook_Resume Unrunnable;
                          State_Monad.return False })
        })"

definition is_busy :: "'w os \<Rightarrow> managed_unit \<Rightarrow> ('w host, bool) state" where
  "is_busy E u =
     (case busy_cmd u of
        None \<Rightarrow> State_Monad.return False
      | Some cmd \<Rightarrow> do {
          r \<leftarrow> run_argv E ''busy'' (unit_name u) (argv cmd) [];
          (case r of
             Inr (code, _, _) \<Rightarrow>
               (case classify_busy_exit code of
                  Busy \<Rightarrow> State_Monad.return True
                | Idle \<Rightarrow> State_Monad.return False
                | IdleOther _ \<Rightarrow> State_Monad.return False
                | Killed \<Rightarrow> do { record_hook_failure (unit_name u) Hook_Busy NonZero;
                                State_Monad.return False })
           | Inl _ \<Rightarrow> do { record_hook_failure (unit_name u) Hook_Busy Unrunnable;
                          State_Monad.return False })
        })"

definition start :: "'w os \<Rightarrow> managed_unit \<Rightarrow> ('w host, unit_error + unit) state" where
  "start E u = do {
     r \<leftarrow> (case resolve_supervisor u of
             Systemd \<Rightarrow> systemctl E ''start'' (unit_name u)
           | Command _ st _ _ \<Rightarrow> run_argv E ''start'' (unit_name u) st []);
     State_Monad.return (case r of
         Inl e \<Rightarrow> Inl e
       | Inr (code, sout, serr) \<Rightarrow>
           if code = Some 0 then Inr ()
           else Inl (UE_Exit ''start'' (unit_name u) (exit_detail code sout serr)))
   }"

definition stop_unit ::
  "'w os \<Rightarrow> supervisor \<Rightarrow> string \<Rightarrow> ('w host, unit_error + int option \<times> string \<times> string) state" where
  "stop_unit E sv unit =
     (case sv of
        Systemd \<Rightarrow> systemctl E ''stop'' unit
      | Command st _ _ _ \<Rightarrow> run_argv E ''stop'' unit st [])"

definition kill_unit :: "'w os \<Rightarrow> supervisor \<Rightarrow> string \<Rightarrow> ('w host, unit_error + unit) state" where
  "kill_unit E sv unit = do {
     r \<leftarrow> (case sv of
             Systemd \<Rightarrow> run_argv E ''kill'' unit [''systemctl'', ''kill'', ''-s'', ''SIGKILL''] unit
           | Command _ _ _ (Some k) \<Rightarrow> run_argv E ''kill'' unit k []
           | Command st _ _ None \<Rightarrow> run_argv E ''kill'' unit st []);
     State_Monad.return (case r of
         Inl e \<Rightarrow> Inl e
       | Inr (code, sout, serr) \<Rightarrow>
           if code = Some 0 then Inr ()
           else Inl (UE_Exit ''kill'' unit (exit_detail code sout serr)))
   }"

section \<open>Introspection\<close>

definition run_introspect_cmd :: "'w os \<Rightarrow> string \<Rightarrow> ('w host, string list) state" where
  "run_introspect_cmd E cmd =
     (case split_whitespace cmd of
        [] \<Rightarrow> State_Monad.return []
      | toks \<Rightarrow> do {
          r \<leftarrow> host_call (os_run E INTROSPECTION_TIMEOUT toks);
          State_Monad.return (case r of
              Exited code sout _ \<Rightarrow>
                if code = Some 0 then parse_model_lines (utf8_lossy sout) else []
            | _ \<Rightarrow> [])
        })"

definition ollama_loaded_models ::
  "'w os \<Rightarrow> string \<Rightarrow> time \<Rightarrow> ('w host, introspect_error + string list) state" where
  "ollama_loaded_models E base limit = do {
     let url = ollama_ps_url base;
     r \<leftarrow> host_call (os_http_get E limit url);
     State_Monad.return (case r of
         Fetch_Body body \<Rightarrow>
           (case parse_ollama_api_ps (os_parse_ps E) body of
              Inl e \<Rightarrow> Inl (IE_Parse url e)
            | Inr ms \<Rightarrow> Inr ms)
       | Fetch_Error d \<Rightarrow> Inl (IE_Request url d)
       | Fetch_Join d \<Rightarrow> Inl (IE_Task url d)
       | Fetch_Timeout \<Rightarrow> Inl (IE_Timeout url limit))
   }"

definition loaded_models ::
  "'w os \<Rightarrow> managed_unit \<Rightarrow> ('w host, introspect_error + string list) state" where
  "loaded_models E u =
     (case introspection_of u of
        Intro_Command cmd \<Rightarrow> do { ms \<leftarrow> run_introspect_cmd E cmd; State_Monad.return (Inr ms) }
      | Intro_Ollama \<Rightarrow> ollama_loaded_models E (ollama_base_url u) INTROSPECTION_TIMEOUT
      | Intro_None \<Rightarrow> State_Monad.return (Inr []))"

section \<open>What a control leaves in the log\<close>

text \<open>\<open>acts A u e\<close>: the event is a control of unit \<open>u\<close> with one of the actions \<open>A\<close>.\<close>

fun acts :: "string list \<Rightarrow> string \<Rightarrow> event \<Rightarrow> bool" where
  "acts A u (Ev_Control a v _ _) = (a \<in> set A \<and> v = u)"
| "acts A u (Ev_Scan _) = False"

lemma acts_mono: "acts A u e \<Longrightarrow> set A \<subseteq> set B \<Longrightarrow> acts B u e"
  by (cases e) auto

lemma acts_all_mono:
  "list_all (acts A u) es \<Longrightarrow> set A \<subseteq> set B \<Longrightarrow> list_all (acts B u) es"
  by (auto simp: list_all_iff intro: acts_mono)

lemma grows_run_argv [host_intros]:
  "a \<in> set A \<Longrightarrow> grows (acts A u) (run_argv E a u cmdv arg)"
  by (auto simp: run_argv_def Let_def intro!: host_intros)

lemma timed_run_argv [host_intros]: "timed (run_argv E a u cmdv arg)"
  by (auto simp: run_argv_def Let_def intro!: host_intros)

lemma grows_systemctl [host_intros]: "a \<in> set A \<Longrightarrow> grows (acts A u) (systemctl E a u)"
  by (simp add: systemctl_def grows_run_argv)

lemma timed_systemctl [host_intros]: "timed (systemctl E a u)"
  by (simp add: systemctl_def timed_run_argv)

lemma grows_is_running [host_intros]:
  "''is-active'' \<in> set A \<Longrightarrow> v = unit_name u \<Longrightarrow> grows (acts A v) (is_running E u)"
  by (auto simp: is_running_def intro!: host_intros split: supervisor.split)

lemma timed_is_running [host_intros]: "timed (is_running E u)"
  by (auto simp: is_running_def intro!: host_intros split: supervisor.split)

lemma grows_start [host_intros]:
  "''start'' \<in> set A \<Longrightarrow> v = unit_name u \<Longrightarrow> grows (acts A v) (start E u)"
  by (auto simp: start_def intro!: host_intros split: supervisor.split)

lemma grows_stop_unit [host_intros]: "''stop'' \<in> set A \<Longrightarrow> grows (acts A u) (stop_unit E sv u)"
  by (auto simp: stop_unit_def intro!: host_intros split: supervisor.split)

lemma timed_stop_unit [host_intros]: "timed (stop_unit E sv u)"
  by (auto simp: stop_unit_def intro!: host_intros split: supervisor.split)

lemma grows_kill_unit [host_intros]: "''kill'' \<in> set A \<Longrightarrow> grows (acts A u) (kill_unit E sv u)"
  by (auto simp: kill_unit_def intro!: host_intros split: supervisor.split)

lemma timed_kill_unit [host_intros]: "timed (kill_unit E sv u)"
  by (auto simp: kill_unit_def intro!: host_intros split: supervisor.split)

lemma grows_resume [host_intros]:
  "''resume'' \<in> set A \<Longrightarrow> v = unit_name u \<Longrightarrow> grows (acts A v) (resume E u)"
  by (auto simp: resume_def intro!: host_intros)

lemma grows_is_busy [host_intros]:
  "''busy'' \<in> set A \<Longrightarrow> v = unit_name u \<Longrightarrow> grows (acts A v) (is_busy E u)"
  by (auto simp: is_busy_def intro!: host_intros split: busy_reply.split)

lemma quiet_loaded_models [host_intros]: "quiet (loaded_models E u)"
  by (auto simp: loaded_models_def run_introspect_cmd_def ollama_loaded_models_def Let_def
      intro!: host_intros split: introspection.split list.split)

text \<open>The trace of one control: nothing for an empty argv, otherwise the event of its result.\<close>

fun control_result ::
  "string \<Rightarrow> string \<Rightarrow> cmd_result \<Rightarrow> unit_error + int option \<times> string \<times> string" where
  "control_result a u TimedOut = Inl (UE_Timeout a u SYSTEMCTL_TIMEOUT)"
| "control_result a u (SpawnFailed e) = Inl (UE_Control a u e)"
| "control_result a u (Exited code sout serr) = Inr (code, sout, serr)"

lemma control_result_Inr [simp]:
  "control_result a u c = Inr (code, sout, serr) \<longleftrightarrow> c = Exited code sout serr"
  "Inr (code, sout, serr) = control_result a u c \<longleftrightarrow> c = Exited code sout serr"
  by (cases c; auto)+

lemma emits_run_argv:
  "emits (run_argv E a u cmdv arg) (\<lambda>r es.
     if cmdv = [] then es = [] \<and> (\<exists>e. r = Inl e)
     else \<exists>full c. es = [Ev_Control a u full c] \<and> r = control_result a u c)"
proof (cases "cmdv = []")
  case True
  then show ?thesis by (simp add: run_argv_def emits_return)
next
  case False
  have "(case c of TimedOut \<Rightarrow> Inl (UE_Timeout a u SYSTEMCTL_TIMEOUT)
      | SpawnFailed e \<Rightarrow> Inl (UE_Control a u e)
      | Exited code sout serr \<Rightarrow> Inr (code, sout, serr)) = control_result a u c" for c
    by (cases c) simp_all
  with False show ?thesis
    by (auto simp: run_argv_def Let_def intro!: emits_bind_quiet quiet_host_call
        emits_bind [OF emits_log_event [where P = "\<lambda>_ es. es = [_]"]] emits_return)
qed

text \<open>
  \<open>answers u e\<close>: what a run-state probe of unit \<open>u\<close> recorded by event \<open>e\<close> said.
\<close>

fun answers :: "string \<Rightarrow> event \<Rightarrow> bool option" where
  "answers u (Ev_Control a v _ (Exited code _ _)) =
     (if a = ''is-active'' \<and> v = u then Some (code = Some 0) else None)"
| "answers u _ = None"

lemma answers_probe:
  "answers u (Ev_Control ''is-active'' u full c)
     = ok_of (case control_result a u c of Inl e \<Rightarrow> Inl e | Inr (code, _, _) \<Rightarrow> Inr (code = Some 0))"
  by (cases c) simp_all

lemma emits_is_running:
  "emits (is_running E u) (\<lambda>r es.
     (es = [] \<and> ok_of r = None)
     \<or> (\<exists>full c. es = [Ev_Control ''is-active'' (unit_name u) full c]
          \<and> ok_of r = answers (unit_name u) (hd es)))"
proof -
  let ?P = "\<lambda>r es. (es = [] \<and> ok_of r = None)
     \<or> (\<exists>full c. es = [Ev_Control ''is-active'' (unit_name u) full c]
          \<and> ok_of r = answers (unit_name u) (hd es))"
  have argv: "emits (run_argv E ''is-active'' (unit_name u) cmdv arg \<bind>
      (\<lambda>r. State_Monad.return (case r of Inl e \<Rightarrow> Inl e | Inr (code, _, _) \<Rightarrow> Inr (code = Some 0))))
      ?P" for cmdv arg
  proof (rule emits_bind [OF emits_run_argv], rule emits_return, goal_cases)
    case (1 r es)
    then show ?case
      by (cases "cmdv = []") (auto simp: answers_probe [where a = "''is-active''"])
  qed
  show ?thesis
    unfolding is_running_def systemctl_def
    by (cases "resolve_supervisor u") (simp_all only: supervisor.case argv)
qed

lemma emits_run_argv_some:
  "cmdv \<noteq> [] \<Longrightarrow> emits (run_argv E a u cmdv arg) (\<lambda>r es.
     \<exists>full c. es = [Ev_Control a u full c] \<and> r = control_result a u c)"
  using emits_run_argv [of E a u cmdv arg] by simp

lemma emits_run_argv_none:
  "emits (run_argv E a u [] arg) (\<lambda>r es. es = [] \<and> (\<exists>e. r = Inl e))"
  using emits_run_argv [of E a u "[]" arg] by simp

lemma emits_stop_argv:
  "emits (run_argv E a u cmdv arg) (\<lambda>r es.
     (es = [] \<and> (\<exists>e. r = Inl e))
     \<or> (\<exists>full c. es = [Ev_Control a u full c] \<and> r = control_result a u c))"
  by (rule emits_mono [OF emits_run_argv]) (auto split: if_splits)

lemma emits_stop_unit:
  "emits (stop_unit E sv u) (\<lambda>r es.
     (es = [] \<and> (\<exists>e. r = Inl e))
     \<or> (\<exists>full c. es = [Ev_Control ''stop'' u full c] \<and> r = control_result ''stop'' u c))"
  by (cases sv) (simp_all add: stop_unit_def systemctl_def emits_stop_argv)

text \<open>The command a kill runs, empty only for a configured empty one.\<close>

definition kill_argv :: "supervisor \<Rightarrow> string list" where
  "kill_argv sv =
     (case sv of
        Systemd \<Rightarrow> [''systemctl'', ''kill'', ''-s'', ''SIGKILL'']
      | Command st _ _ k \<Rightarrow> (case k of Some x \<Rightarrow> x | None \<Rightarrow> st))"

lemma emits_kill_unit:
  "emits (kill_unit E sv u) (\<lambda>_ es.
     if kill_argv sv = [] then es = [] else \<exists>full c. es = [Ev_Control ''kill'' u full c])"
proof -
  have "emits (run_argv E ''kill'' u (kill_argv sv) arg \<bind> (\<lambda>r. State_Monad.return (f r)))
      (\<lambda>_ es. if kill_argv sv = [] then es = [] else \<exists>full c. es = [Ev_Control ''kill'' u full c])"
    for arg and f :: "_ \<Rightarrow> unit_error + unit"
    by (rule emits_bind [OF emits_run_argv]) (auto intro: emits_return split: if_splits)
  note argv = this
  show ?thesis
  proof (cases sv)
    case Systemd
    then show ?thesis using argv [of u] by (simp add: kill_unit_def kill_argv_def)
  next
    case (Command st sa ia k)
    then show ?thesis using argv [of "[]"] by (cases k) (simp_all add: kill_unit_def kill_argv_def)
  qed
qed

end
