(* ===== verification/Polling.thy ===== *)
theory Polling
  imports GA_Prelude
begin

text \<open>
  The contract of a bounded polling loop: probe, decide, pause, repeat. The loop's owner promises
  that a round only keeps waiting when it began before the deadline, that a round issues at most
  one probe, and that a pause lasts at least one step. In return it gets an invariant rule and a
  bound on the number of probes. Both polling loops of the eviction and the loop of the client's \<open>wait\<close>
  interpret it.
\<close>

locale polling =
  fixes clk :: "'h \<Rightarrow> nat"
    and cnt :: "'h \<Rightarrow> nat"
    and round :: "'h \<Rightarrow> 'a option \<times> 'h"
    and pause :: "'h \<Rightarrow> 'h"
    and deadline :: nat
    and step :: nat
    and loop :: "'h \<Rightarrow> 'a \<times> 'h"
  assumes waiting: "round h = (None, h1) \<Longrightarrow> clk h < deadline"
    and round_clk: "round h = (r, h1) \<Longrightarrow> clk h \<le> clk h1"
    and round_cnt: "round h = (r, h1) \<Longrightarrow> cnt h1 \<le> Suc (cnt h)"
    and pause_clk: "clk h + step \<le> clk (pause h)"
    and pause_cnt: "cnt (pause h) = cnt h"
    and step_pos: "0 < step"
    and loop_eq: "loop h =
      (case round h of (None, h1) \<Rightarrow> loop (pause h1) | (Some a, h1) \<Rightarrow> (a, h1))"
begin

lemma loop_done: "round h = (Some a, h1) \<Longrightarrow> loop h = (a, h1)"
  by (subst loop_eq) simp

lemma loop_wait: "round h = (None, h1) \<Longrightarrow> loop h = loop (pause h1)"
  by (subst loop_eq) simp

lemma time_left: "round h = (None, h1) \<Longrightarrow> deadline - clk (pause h1) < deadline - clk h"
  using waiting [of h h1] round_clk [of h None h1] pause_clk [of h1] step_pos by linarith

text \<open>The invariant rule: \<open>I\<close> holds at the top of every round, \<open>Q\<close> of the way out.\<close>

lemma loop_invariant:
  assumes "I h"
    and "\<And>h h1. I h \<Longrightarrow> round h = (None, h1) \<Longrightarrow> I (pause h1)"
    and "\<And>h a h1. I h \<Longrightarrow> round h = (Some a, h1) \<Longrightarrow> Q a h1"
    and "loop h = (a, h')"
  shows "Q a h'"
  using assms(1,4)
proof (induction "deadline - clk h" arbitrary: h rule: less_induct)
  case less
  obtain r h1 where r: "round h = (r, h1)" by fastforce
  show ?case
  proof (cases r)
    case None
    with r have r: "round h = (None, h1)" by simp
    show ?thesis
      using less.hyps [OF time_left [OF r] assms(2) [OF less.prems(1) r]] less.prems(2) loop_wait [OF r]
      by simp
  next
    case (Some b)
    with r have r: "round h = (Some b, h1)" by simp
    then show ?thesis
      using assms(3) [OF less.prems(1) r] less.prems(2) loop_done [OF r] by simp
  qed
qed

lemma loop_clk: "loop h = (a, h') \<Longrightarrow> clk h \<le> clk h'"
proof (rule loop_invariant [where I = "\<lambda>x. clk h \<le> clk x" and Q = "\<lambda>_ x. clk h \<le> clk x"])
  show "clk h \<le> clk (pause h1)" if "clk h \<le> clk x" and "round x = (None, h1)" for x h1
    using that round_clk [of x None h1] pause_clk [of h1] by linarith
  show "clk h \<le> clk h1" if "clk h \<le> clk x" and "round x = (Some b, h1)" for x b h1
    using that round_clk [of x "Some b" h1] by linarith
qed auto

text \<open>At most one probe per started step of the remaining time, and one more.\<close>

lemma loop_cnt:
  assumes "loop h = (a, h')"
  shows "cnt h' \<le> cnt h + (deadline - clk h + step - 1) div step + 1"
  using assms
proof (induction "deadline - clk h" arbitrary: h rule: less_induct)
  case less
  obtain r h1 where r: "round h = (r, h1)" by fastforce
  show ?case
  proof (cases r)
    case None
    with r have r: "round h = (None, h1)" by simp
    let ?p = "pause h1"
    have "deadline - clk ?p + step \<le> max step (deadline - clk h)"
      using waiting [OF r] round_clk [OF r] pause_clk [of h1] by linarith
    then have "deadline - clk ?p + step - 1 \<le> max (step - 1) (deadline - clk h - 1)"
      by linarith
    then have le: "(deadline - clk ?p + step - 1) div step \<le> (deadline - clk h - 1) div step"
      using step_pos by (auto simp: max_def le_div_geq split: if_splits intro: div_le_mono)
    have "(deadline - clk h + step - 1) div step = (deadline - clk h - 1) div step + 1"
      using waiting [OF r] step_pos div_add_self2 [of step "deadline - clk h - 1"] by simp
    moreover have "cnt h' \<le> cnt ?p + (deadline - clk ?p + step - 1) div step + 1"
      using less.hyps [OF time_left [OF r]] less.prems loop_wait [OF r] by simp
    ultimately show ?thesis
      using le round_cnt [OF r] pause_cnt [of h1] by linarith
  next
    case (Some b)
    with r have "round h = (Some b, h1)" by simp
    then show ?thesis
      using less.prems loop_done round_cnt by fastforce
  qed
qed

end

end
