(* ===== verification/Eviction.thy ===== *)
theory Eviction
  imports Units Polling
begin

text \<open>
  The eviction of one unit (\<open>evict_inner\<close> and what it calls in \<open>src/units.rs\<close>): stop, poll until
  the unit's VRAM has drained and its run state says stopped, kill after the timeout, and judge
  the kill by the run state.

  \<open>evict_loop\<close> and \<open>wait_until_stopped_from\<close> are the two \<open>loop\<close>s of the source. They are total:
  a round that keeps waiting began inside the time budget and its sleep advances the clock.
\<close>

section \<open>One VRAM reading\<close>

definition unit_vram_reading ::
  "'w os \<Rightarrow> managed_unit \<Rightarrow> gpu_backend \<Rightarrow> bool \<Rightarrow> bool \<Rightarrow> bool \<Rightarrow> ('w host, unit_vram_reading) state" where
  "unit_vram_reading E u backend is_systemd capable seen_nonzero =
     (if os_platform E = Windows then State_Monad.return Unavailable
      else do {
        attributed \<leftarrow>
          (if capable \<and> attribution_capable backend then do {
             compute \<leftarrow>
               (if is_systemd then do {
                  r \<leftarrow> query_compute_procs E backend;
                  (case r of
                     Inl _ \<Rightarrow> State_Monad.return None
                   | Inr procs \<Rightarrow> do {
                       ps \<leftarrow> attribute_units E procs;
                       State_Monad.return (Some ps)
                     })
                } else do {
                  r \<leftarrow> query_compute_procs E backend;
                  State_Monad.return (ok_of r)
                });
             State_Monad.return (attribute_unit_vram compute is_systemd (unit_name u) (vram_match u))
           } else State_Monad.return None);
        (if attribution_is_trustworthy attributed seen_nonzero
         then State_Monad.return (Attributed (case attributed of None \<Rightarrow> 0 | Some mb \<Rightarrow> mb))
         else do {
           m \<leftarrow> query_memory E backend;
           State_Monad.return (Fallback (ok_of m))
         })
      })"

section \<open>The polling loop\<close>

definition reading_nonzero :: "unit_vram_reading \<Rightarrow> bool" where
  "reading_nonzero r = (case r of Attributed mb \<Rightarrow> 0 < mb | _ \<Rightarrow> False)"

text \<open>One round of the loop up to its decision, with the updated \<open>seen_nonzero\<close>.\<close>

definition poll_once ::
  "'w os \<Rightarrow> config \<Rightarrow> gpu_backend \<Rightarrow> managed_unit \<Rightarrow> time \<Rightarrow> bool \<Rightarrow>
   ('w host, eviction_step \<times> bool) state" where
  "poll_once E cfg backend u start_at seen_nonzero = do {
     let is_systemd = (resolve_supervisor u = Systemd);
     reading \<leftarrow> unit_vram_reading E u backend is_systemd
       (is_systemd \<or> vram_match u \<noteq> None) seen_nonzero;
     t1 \<leftarrow> now;
     let step = eviction_step reading (t1 - start_at) cfg;
     let vram_open = (step = Step_Freed \<or> reading = Unavailable);
     running \<leftarrow>
       (if vram_open then do { r \<leftarrow> is_running E u; State_Monad.return (ok_of r) }
        else State_Monad.return None);
     t2 \<leftarrow> now;
     State_Monad.return
       (poll_step step vram_open running (from_secs (eviction_timeout_s cfg) \<le> t2 - start_at),
        seen_nonzero \<or> reading_nonzero reading)
   }"

lemma timed_unit_vram_reading [host_intros]: "timed (unit_vram_reading E u b s c n)"
  by (auto simp: unit_vram_reading_def intro!: host_intros)

lemma quiet_unit_vram_reading [host_intros]: "quiet (unit_vram_reading E u b s c n)"
  by (auto simp: unit_vram_reading_def intro!: host_intros)

lemma timed_poll_once [host_intros]: "timed (poll_once E cfg b u t0 seen)"
  by (auto simp: poll_once_def Let_def intro!: host_intros)

text \<open>A round that keeps waiting began before the timeout.\<close>

lemma wp_timed: "timed m \<Longrightarrow> wp m (\<lambda>_ h'. hclock h \<le> hclock h') h"
  by (rule wpI) (rule timed_run)

lemma poll_once_waiting:
  assumes "run_state (poll_once E cfg b u t0 seen) h = ((Step_KeepWaiting, seen'), h')"
  shows "hclock h < t0 + from_secs (eviction_timeout_s cfg)"
proof -
  let ?T = "from_secs (eviction_timeout_s cfg)"
  have "wp (poll_once E cfg b u t0 seen)
      (\<lambda>(st, _) _. st = Step_KeepWaiting \<longrightarrow> hclock h < t0 + ?T) h"
    unfolding poll_once_def Let_def wp_simps
    apply (rule wp_mono [OF wp_timed [OF timed_unit_vram_reading]])
    subgoal for reading h1
      apply (cases "eviction_step reading (hclock h1 - t0) cfg = Step_Freed \<or> reading = Unavailable")
      subgoal
        apply (simp only: if_True wp_simps)
        apply (rule wp_mono [OF wp_timed [OF timed_is_running]])
        apply (auto dest!: poll_step_KeepWaiting eviction_step_KeepWaiting)
        done
      subgoal
        by (auto simp: wp_simps dest!: poll_step_KeepWaiting eviction_step_KeepWaiting)
      done
    done
  from wp_run [OF this assms] show ?thesis by simp
qed

lemma sleep_poll_clock:
  "hclock h + 250000000 \<le> hclock (snd (run_state (sleep E EVICTION_POLL_INTERVAL) h))"
  using sleep_clock [of E EVICTION_POLL_INTERVAL h]
  by (cases "run_state (sleep E EVICTION_POLL_INTERVAL) h")
    (simp add: EVICTION_POLL_INTERVAL_def from_millis_def)

function evict_loop ::
  "'w os \<Rightarrow> config \<Rightarrow> gpu_backend \<Rightarrow> managed_unit \<Rightarrow> time \<Rightarrow> bool \<Rightarrow> 'w host \<Rightarrow>
   eviction_step \<times> 'w host" where
  "evict_loop E cfg backend u start_at seen_nonzero h =
     (case run_state (poll_once E cfg backend u start_at seen_nonzero) h of
        ((Step_KeepWaiting, seen'), h1) \<Rightarrow>
          evict_loop E cfg backend u start_at seen' (snd (run_state (sleep E EVICTION_POLL_INTERVAL) h1))
      | ((Step_Freed, _), h1) \<Rightarrow> (Step_Freed, h1)
      | ((Step_Escalate, _), h1) \<Rightarrow> (Step_Escalate, h1))"
  by pat_completeness auto

termination
proof (relation "measure (\<lambda>(E, cfg, b, u, t0, seen, h).
    t0 + from_secs (eviction_timeout_s cfg) - hclock h)", goal_cases)
  case (2 E cfg backend u start_at seen_nonzero h x h1 st seen')
  then have run: "run_state (poll_once E cfg backend u start_at seen_nonzero) h
      = ((Step_KeepWaiting, seen'), h1)" by simp
  have "hclock h < start_at + from_secs (eviction_timeout_s cfg)"
    using poll_once_waiting [OF run] .
  moreover have "hclock h \<le> hclock h1"
    using timed_run [OF timed_poll_once run] .
  ultimately show ?case using sleep_poll_clock [of h1 E] by auto
qed simp

declare evict_loop.simps [simp del]

section \<open>Waiting for a kill to take effect\<close>

function wait_until_stopped_from ::
  "'w os \<Rightarrow> managed_unit \<Rightarrow> time \<Rightarrow> time \<Rightarrow> 'w host \<Rightarrow> bool \<times> 'w host" where
  "wait_until_stopped_from E u budget start_at h =
     (case run_state (is_running E u) h of
        (r, h1) \<Rightarrow>
          if r = Inr False then (True, h1)
          else if budget \<le> hclock h1 - start_at then (False, h1)
          else wait_until_stopped_from E u budget start_at
                 (snd (run_state (sleep E EVICTION_POLL_INTERVAL) h1)))"
  by pat_completeness auto

termination
proof (relation "measure (\<lambda>(E, u, budget, t0, h). t0 + budget - hclock h)", goal_cases)
  case 1
  show ?case by simp
next
  case (2 E u budget start_at h r h1)
  then have run: "run_state (is_running E u) h = (r, h1)" by simp
  show ?case
    using 2 timed_run [OF timed_is_running run] sleep_poll_clock [of h1 E] by auto
qed

declare wait_until_stopped_from.simps [simp del]

definition wait_until_stopped :: "'w os \<Rightarrow> managed_unit \<Rightarrow> time \<Rightarrow> ('w host, bool) state" where
  "wait_until_stopped E u budget = State (\<lambda>h. wait_until_stopped_from E u budget (hclock h) h)"

section \<open>One eviction\<close>

definition secs_of :: "time \<Rightarrow> rat" where
  "secs_of d = of_nat d / 1000000000"

definition elapsed_since :: "time \<Rightarrow> ('w host, rat) state" where
  "elapsed_since t0 = do { t \<leftarrow> now; State_Monad.return (secs_of (t - t0)) }"

text \<open>The stop command failed: kill a unit that is (or may be) still up, and report the error.\<close>

definition stop_failed ::
  "'w os \<Rightarrow> managed_unit \<Rightarrow> time \<Rightarrow> unit_error \<Rightarrow>
   ('w host, (unit_error + eviction_outcome) \<times> rat option) state" where
  "stop_failed E u stop_started e = do {
     r \<leftarrow> is_running E u;
     (if unwrap_or r True
      then do { k \<leftarrow> kill_unit E (resolve_supervisor u) (unit_name u); State_Monad.return () }
      else State_Monad.return ());
     secs \<leftarrow> elapsed_since stop_started;
     State_Monad.return (Inl e, Some secs)
   }"

text \<open>The timeout elapsed: re-check, kill, and judge the kill by the run state.\<close>

definition escalate ::
  "'w os \<Rightarrow> managed_unit \<Rightarrow> time \<Rightarrow>
   ('w host, (unit_error + eviction_outcome) \<times> rat option) state" where
  "escalate E u stop_started = do {
     r \<leftarrow> is_running E u;
     (if \<not> unwrap_or r True then do {
        secs \<leftarrow> elapsed_since stop_started;
        State_Monad.return (Inr Freed, Some secs)
      } else do {
        killed \<leftarrow> kill_unit E (resolve_supervisor u) (unit_name u);
        gone \<leftarrow> wait_until_stopped E u KILL_SETTLE;
        secs \<leftarrow> elapsed_since stop_started;
        State_Monad.return
          (if gone then (Inr Escalated, Some secs)
           else (Inl (UE_StillRunning (unit_name u)
                   (case killed of
                      Inr _ \<Rightarrow> ''kill command exited 0''
                    | Inl e \<Rightarrow> unit_error_text e)), Some secs))
      })
   }"

definition drain ::
  "'w os \<Rightarrow> config \<Rightarrow> gpu_backend \<Rightarrow> managed_unit \<Rightarrow> ('w host, eviction_step) state" where
  "drain E cfg backend u = do {
     t0 \<leftarrow> now;
     State (evict_loop E cfg backend u t0 False)
   }"

definition evict_inner ::
  "'w os \<Rightarrow> config \<Rightarrow> gpu_backend \<Rightarrow> managed_unit \<Rightarrow>
   ('w host, (unit_error + eviction_outcome) \<times> rat option) state" where
  "evict_inner E cfg backend u = do {
     running \<leftarrow> is_running E u;
     (case running of
        Inl e \<Rightarrow> State_Monad.return (Inl e, None)
      | Inr up \<Rightarrow>
          if \<not> up then State_Monad.return (Inr AlreadyClear, None)
          else do {
            stop_started \<leftarrow> now;
            stop \<leftarrow> stop_unit E (resolve_supervisor u) (unit_name u);
            (case stop of
               Inl e \<Rightarrow> stop_failed E u stop_started e
             | Inr (code, sout, serr) \<Rightarrow>
                 if code \<noteq> Some 0 then
                   stop_failed E u stop_started
                     (UE_Exit ''stop'' (unit_name u) (exit_detail code sout serr))
                 else do {
                   step \<leftarrow> drain E cfg backend u;
                   (if step = Step_Freed then do {
                      secs \<leftarrow> elapsed_since stop_started;
                      State_Monad.return (Inr Freed, Some secs)
                    } else escalate E u stop_started)
                 })
          })
   }"

record eviction_timings =
  stop_secs :: "rat option"
  total_secs :: rat

definition evict_timed ::
  "'w os \<Rightarrow> config \<Rightarrow> gpu_backend \<Rightarrow> managed_unit \<Rightarrow>
   ('w host, (unit_error + eviction_outcome) \<times> eviction_timings) state" where
  "evict_timed E cfg backend u = do {
     started \<leftarrow> now;
     (result, st) \<leftarrow> evict_inner E cfg backend u;
     tot \<leftarrow> elapsed_since started;
     State_Monad.return (result, \<lparr> stop_secs = st, total_secs = tot \<rparr>)
   }"

definition evict ::
  "'w os \<Rightarrow> config \<Rightarrow> gpu_backend \<Rightarrow> managed_unit \<Rightarrow> ('w host, unit_error + eviction_outcome) state" where
  "evict E cfg backend u = do {
     (result, _) \<leftarrow> evict_timed E cfg backend u;
     State_Monad.return result
   }"

definition start_by_name :: "'w os \<Rightarrow> config \<Rightarrow> string \<Rightarrow> ('w host, unit_error + unit) state" where
  "start_by_name E cfg unit =
     (case resolve_unit cfg unit of
        Inl e \<Rightarrow> State_Monad.return (Inl e)
      | Inr u \<Rightarrow> start E u)"

definition evict_by_name ::
  "'w os \<Rightarrow> config \<Rightarrow> gpu_backend \<Rightarrow> string \<Rightarrow> ('w host, unit_error + eviction_outcome) state" where
  "evict_by_name E cfg backend unit =
     (case resolve_unit cfg unit of
        Inl e \<Rightarrow> State_Monad.return (Inl e)
      | Inr u \<Rightarrow> evict E cfg backend u)"

section \<open>The loops as bounded polls\<close>

definition evict_round ::
  "'w os \<Rightarrow> config \<Rightarrow> gpu_backend \<Rightarrow> managed_unit \<Rightarrow> time \<Rightarrow> bool \<times> 'w host \<Rightarrow>
   eviction_step option \<times> bool \<times> 'w host" where
  "evict_round E cfg b u t0 x =
     (case run_state (poll_once E cfg b u t0 (fst x)) (snd x) of
        ((st, seen'), h1) \<Rightarrow>
          if st = Step_KeepWaiting then (None, seen', h1) else (Some st, False, h1))"

definition poll_pause :: "'w os \<Rightarrow> 'w host \<Rightarrow> 'w host" where
  "poll_pause E h = snd (run_state (sleep E EVICTION_POLL_INTERVAL) h)"

definition stopped_round ::
  "'w os \<Rightarrow> managed_unit \<Rightarrow> time \<Rightarrow> time \<Rightarrow> 'w host \<Rightarrow> bool option \<times> 'w host" where
  "stopped_round E u budget t0 h =
     (case run_state (is_running E u) h of
        (r, h1) \<Rightarrow>
          (if r = Inr False then Some True
           else if budget \<le> hclock h1 - t0 then Some False else None, h1))"

lemma poll_pause_log: "hlog (poll_pause E h) = hlog h"
  using quiet_sleep [of E EVICTION_POLL_INTERVAL] by (simp add: quiet_def poll_pause_def)

lemma poll_pause_clock: "hclock h + EVICTION_POLL_INTERVAL \<le> hclock (poll_pause E h)"
  using sleep_poll_clock [of h E]
  by (simp add: poll_pause_def EVICTION_POLL_INTERVAL_def from_millis_def)

text \<open>
  What one round adds to the log: at most the probe, and a freed verdict only from a probe that
  said stopped.
\<close>

lemma emits_poll_once:
  "emits (poll_once E cfg b u t0 seen) (\<lambda>(st, _) es.
     length es \<le> 1 \<and> list_all (acts [''is-active''] (unit_name u)) es
     \<and> (st = Step_Freed \<longrightarrow> es \<noteq> [] \<and> answers (unit_name u) (hd es) = Some False))"
proof -
  let ?Q = "\<lambda>(st, _) es. length es \<le> 1 \<and> list_all (acts [''is-active''] (unit_name u)) es
     \<and> (st = Step_Freed \<longrightarrow> es \<noteq> [] \<and> answers (unit_name u) (hd es) = Some False)"
  have tail: "emits (now \<bind> (\<lambda>t2. State_Monad.return
      (poll_step st vo running (from_secs (eviction_timeout_s cfg) \<le> t2 - t0), sn)))
      (\<lambda>x fs. ?Q x (fs @ es))"
    if "length es \<le> 1" "list_all (acts [''is-active''] (unit_name u)) es"
      "running = Some False \<longrightarrow> es \<noteq> [] \<and> answers (unit_name u) (hd es) = Some False"
    for st vo running sn es
    using that by (intro emits_bind_quiet quiet_now emits_return) (auto simp: poll_step_Freed)
  have probe: "emits (is_running E u \<bind> (\<lambda>r. State_Monad.return (ok_of r)))
      (\<lambda>running es. length es \<le> 1 \<and> list_all (acts [''is-active''] (unit_name u)) es
        \<and> (running = Some False \<longrightarrow> es \<noteq> [] \<and> answers (unit_name u) (hd es) = Some False))"
    by (rule emits_bind [OF emits_is_running], rule emits_return) auto
  have running: "emits (if vo then is_running E u \<bind> (\<lambda>r. State_Monad.return (ok_of r))
        else State_Monad.return None)
      (\<lambda>running es. length es \<le> 1 \<and> list_all (acts [''is-active''] (unit_name u)) es
        \<and> (running = Some False \<longrightarrow> es \<noteq> [] \<and> answers (unit_name u) (hd es) = Some False))" for vo
    using probe by (cases vo) (simp_all add: emits_return)
  show ?thesis
    unfolding poll_once_def Let_def
    by (intro emits_bind_quiet quiet_unit_vram_reading quiet_now emits_bind [OF running] tail) blast+
qed

interpretation draining: polling
  "\<lambda>x. hclock (snd x)" "\<lambda>x. length (hlog (snd x))" "evict_round E cfg b u t0"
  "\<lambda>x. (fst x, poll_pause E (snd x))" "t0 + from_secs (eviction_timeout_s cfg)"
  EVICTION_POLL_INTERVAL
  "\<lambda>x. case evict_loop E cfg b u t0 (fst x) (snd x) of (st, h') \<Rightarrow> (st, False, h')"
proof (unfold_locales, goal_cases)
  case (1 h h1)
  then show ?case
    using poll_once_waiting [of E cfg b u t0 "fst h" "snd h" "fst h1" "snd h1"]
    by (auto simp: evict_round_def split: prod.splits if_splits)
next
  case (2 h r h1)
  then show ?case
    using timed_poll_once [of E cfg b u t0 "fst h"]
    by (auto simp: evict_round_def timed_def split: prod.splits if_splits dest!: spec [of _ "snd h"])
next
  case (3 h r h1)
  obtain v h2 where r: "run_state (poll_once E cfg b u t0 (fst h)) (snd h) = (v, h2)" by fastforce
  obtain es where "hlog h2 = es @ hlog (snd h)" "length es \<le> 1"
    using emitsE [OF emits_poll_once r] by (auto split: prod.splits)
  with 3 r show ?case by (auto simp: evict_round_def split: prod.splits if_splits)
next
  case (4 h)
  then show ?case using poll_pause_clock by simp
next
  case (5 h)
  then show ?case by (simp add: poll_pause_log)
next
  case 6
  show ?case by (simp add: EVICTION_POLL_INTERVAL_def from_millis_def)
next
  case (7 h)
  obtain st s' h1 where r: "run_state (poll_once E cfg b u t0 (fst h)) (snd h) = ((st, s'), h1)"
    by (metis prod.collapse)
  show ?case
    by (subst evict_loop.simps, cases st) (simp_all add: r evict_round_def poll_pause_def)
qed

interpretation settling: polling
  hclock "\<lambda>h. length (hlog h)" "stopped_round E u budget t0" "poll_pause E" "t0 + budget"
  EVICTION_POLL_INTERVAL "wait_until_stopped_from E u budget t0"
proof (unfold_locales, goal_cases)
  case (1 h h1)
  then show ?case
    using timed_run [OF timed_is_running, of E u h]
    by (fastforce simp: stopped_round_def split: prod.splits if_splits)
next
  case (2 h r h1)
  then show ?case
    using timed_run [OF timed_is_running, of E u h]
    by (fastforce simp: stopped_round_def split: prod.splits)
next
  case (3 h r h1)
  obtain v h2 where r: "run_state (is_running E u) h = (v, h2)" by fastforce
  have "h1 = h2" using 3 r by (simp add: stopped_round_def)
  moreover have "length (hlog h2) \<le> Suc (length (hlog h))"
    using emitsE [OF emits_is_running r] by (metis append_Nil length_Cons nat_le_linear not_less_eq_eq
      append_Cons le_SucI)
  ultimately show ?case by simp
next
  case (4 h)
  then show ?case by (rule poll_pause_clock)
next
  case (5 h)
  then show ?case by (simp add: poll_pause_log)
next
  case 6
  show ?case by (simp add: EVICTION_POLL_INTERVAL_def from_millis_def)
next
  case (7 h)
  obtain r h1 where r: "run_state (is_running E u) h = (r, h1)" by fastforce
  show ?case
    by (subst wait_until_stopped_from.simps) (simp add: r stopped_round_def poll_pause_def)
qed

text \<open>The loops' traces: probes only; a positive verdict rests on a probe that said stopped.\<close>

definition probes_only :: "managed_unit \<Rightarrow> bool \<Rightarrow> event list \<Rightarrow> bool" where
  "probes_only u verdict es \<longleftrightarrow>
     list_all (acts [''is-active''] (unit_name u)) es
     \<and> (verdict \<longrightarrow> es \<noteq> [] \<and> answers (unit_name u) (hd es) = Some False)"

lemma probes_only_append:
  "probes_only u v es \<Longrightarrow> probes_only u False fs \<Longrightarrow> probes_only u v (es @ fs)"
  by (auto simp: probes_only_def)

lemma emits_evict_loop:
  "emits (State (evict_loop E cfg b u t0 seen)) (\<lambda>st es.
     probes_only u (st = Step_Freed) es \<and> st \<noteq> Step_KeepWaiting)"
proof (rule emitsI)
  fix h st h'
  assume "run_state (State (evict_loop E cfg b u t0 seen)) h = (st, h')"
  then have run: "(case evict_loop E cfg b u t0 (fst (seen, h)) (snd (seen, h)) of
      (st, h') \<Rightarrow> (st, False, h')) = (st, False, h')" by simp
  let ?I = "\<lambda>x. \<exists>es. hlog (snd x) = es @ hlog h \<and> probes_only u False es"
  have round: "\<exists>es. hlog (snd x1) = es @ hlog (snd x) \<and> probes_only u (r = Some Step_Freed) es
      \<and> r \<noteq> Some Step_KeepWaiting"
    if r: "evict_round E cfg b u t0 x = (r, x1)" for x r x1
  proof -
    obtain v s2 h2 where p: "run_state (poll_once E cfg b u t0 (fst x)) (snd x) = ((v, s2), h2)"
      by (metis prod.collapse)
    obtain es where "hlog h2 = es @ hlog (snd x)" "probes_only u (v = Step_Freed) es"
      using emitsE [OF emits_poll_once p] by (auto simp: probes_only_def)
    with r p show ?thesis
      by (auto simp: evict_round_def probes_only_def split: if_splits)
  qed
  show "\<exists>es. hlog h' = es @ hlog h \<and> probes_only u (st = Step_Freed) es \<and> st \<noteq> Step_KeepWaiting"
  proof -
    let ?Q = "\<lambda>st x. \<exists>es. hlog (snd x) = es @ hlog h \<and> probes_only u (st = Step_Freed) es
        \<and> st \<noteq> Step_KeepWaiting"
    have 0: "?I (seen, h)" by (simp add: probes_only_def)
    have 1: "?I (fst x1, poll_pause E (snd x1))"
      if "?I x" and "evict_round E cfg b u t0 x = (None, x1)" for x x1
      using that(1) round [OF that(2)] by (auto simp: poll_pause_log intro: probes_only_append)
    have 2: "?Q v x1" if "?I x" and "evict_round E cfg b u t0 x = (Some v, x1)" for x v x1
      using that(1) round [OF that(2)] by (auto intro: probes_only_append)
    show ?thesis
      using draining.loop_invariant [of ?I "(seen, h)" E cfg b u t0 ?Q st "(False, h')", OF 0 1 2] run
      by simp
  qed
qed

lemma emits_stopped_round:
  assumes "stopped_round E u budget t0 h = (r, h1)"
  shows "\<exists>es. hlog h1 = es @ hlog h \<and> probes_only u (r = Some True) es"
proof -
  obtain v where p: "run_state (is_running E u) h = (v, h1)"
      and r: "r = Some True \<Longrightarrow> v = Inr False"
    using assms by (auto simp: stopped_round_def split: prod.splits if_splits)
  obtain es where "hlog h1 = es @ hlog h"
    "es = [] \<and> ok_of v = None \<or> (\<exists>full c. es = [Ev_Control ''is-active'' (unit_name u) full c]
       \<and> ok_of v = answers (unit_name u) (hd es))"
    using emitsE [OF emits_is_running p] by blast
  with r show ?thesis by (auto simp: probes_only_def)
qed

lemma emits_wait_until_stopped:
  "emits (wait_until_stopped E u KILL_SETTLE) (\<lambda>gone es. probes_only u gone es \<and> length es \<le> 9)"
proof (rule emitsI)
  fix h gone h'
  assume "run_state (wait_until_stopped E u KILL_SETTLE) h = (gone, h')"
  then have run: "wait_until_stopped_from E u KILL_SETTLE (hclock h) h = (gone, h')"
    by (simp add: wait_until_stopped_def)
  let ?I = "\<lambda>x. \<exists>es. hlog x = es @ hlog h \<and> probes_only u False es"
  let ?Q = "\<lambda>v x. \<exists>es. hlog x = es @ hlog h \<and> probes_only u v es"
  have 0: "?I h" by (simp add: probes_only_def)
  have 1: "?I (poll_pause E x1)" if "?I x" and "stopped_round E u KILL_SETTLE (hclock h) x = (None, x1)"
    for x x1
    using that(1) emits_stopped_round [OF that(2)]
    by (auto simp: poll_pause_log intro: probes_only_append)
  have 2: "?Q v x1" if "?I x" and "stopped_round E u KILL_SETTLE (hclock h) x = (Some v, x1)"
    for x v x1
    using that(1) emits_stopped_round [OF that(2)] by (auto intro: probes_only_append)
  have "?Q gone h'"
    using settling.loop_invariant [of ?I h E u KILL_SETTLE "hclock h" ?Q, OF 0 1 2 run] .
  moreover have "length (hlog h') \<le> length (hlog h) + 9"
    using settling.loop_cnt [OF run]
    by (simp add: KILL_SETTLE_def EVICTION_POLL_INTERVAL_def from_secs_def from_millis_def)
  ultimately show "\<exists>es. hlog h' = es @ hlog h \<and> probes_only u gone es \<and> length es \<le> 9"
    by auto
qed

lemma emits_drain:
  "emits (drain E cfg b u) (\<lambda>st es. probes_only u (st = Step_Freed) es \<and> st \<noteq> Step_KeepWaiting
     \<and> length es \<le> 4 * eviction_timeout_s cfg + 1)"
proof (rule emitsI)
  fix h st h'
  assume "run_state (drain E cfg b u) h = (st, h')"
  then have run: "evict_loop E cfg b u (hclock h) False h = (st, h')"
    by (simp add: drain_def now_def)
  then obtain es where es: "hlog h' = es @ hlog h" "probes_only u (st = Step_Freed) es"
      "st \<noteq> Step_KeepWaiting"
    using emitsE [OF emits_evict_loop [of E cfg b u "hclock h" False], of h st h'] by auto
  let ?T = "from_secs (eviction_timeout_s cfg)"
  have "length (hlog h') \<le> length (hlog h)
      + (?T + EVICTION_POLL_INTERVAL - 1) div EVICTION_POLL_INTERVAL + 1"
    using draining.loop_cnt [of E cfg b u "hclock h" "(False, h)" st "(False, h')"] run by simp
  moreover have "(?T + EVICTION_POLL_INTERVAL - 1) div EVICTION_POLL_INTERVAL = 4 * eviction_timeout_s cfg"
    by (simp add: EVICTION_POLL_INTERVAL_def from_secs_def from_millis_def)
  ultimately show "\<exists>es. hlog h' = es @ hlog h \<and> probes_only u (st = Step_Freed) es
      \<and> st \<noteq> Step_KeepWaiting \<and> length es \<le> 4 * eviction_timeout_s cfg + 1"
    using es by auto
qed

section \<open>The trace of an eviction\<close>

fun stop_ok :: "string \<Rightarrow> event \<Rightarrow> bool" where
  "stop_ok u (Ev_Control a v _ (Exited code _ _)) = (a = ''stop'' \<and> v = u \<and> code = Some 0)"
| "stop_ok u _ = False"

text \<open>
  \<open>escalated_trace\<close>: the kill (unless its configured command is empty), then probes, the last of
  which said stopped. The events are newest first.
\<close>

definition escalated_trace :: "managed_unit \<Rightarrow> event list \<Rightarrow> bool" where
  "escalated_trace u es \<longleftrightarrow>
     (\<exists>post pre. es = post @ pre \<and> probes_only u True post
        \<and> (kill_argv (resolve_supervisor u) = []
           \<or> pre \<noteq> [] \<and> acts [''kill''] (unit_name u) (hd pre)))"

fun evict_trace :: "managed_unit \<Rightarrow> unit_error + eviction_outcome \<Rightarrow> event list \<Rightarrow> bool" where
  "evict_trace u (Inr AlreadyClear) es = (probes_only u True es \<and> length es = 1)"
| "evict_trace u (Inr Freed) es =
     (es \<noteq> [] \<and> answers (unit_name u) (hd es) = Some False
      \<and> list_ex (stop_ok (unit_name u)) es
      \<and> list_all (acts [''is-active'', ''stop''] (unit_name u)) es)"
| "evict_trace u (Inr Escalated) es =
     (escalated_trace u es \<and> list_ex (stop_ok (unit_name u)) es
      \<and> list_all (acts [''is-active'', ''stop'', ''kill''] (unit_name u)) es)"
| "evict_trace u (Inl e) es = list_all (acts [''is-active'', ''stop'', ''kill''] (unit_name u)) es"

lemma probes_only_acts:
  "probes_only u v es \<Longrightarrow> ''is-active'' \<in> set A \<Longrightarrow> list_all (acts A (unit_name u)) es"
  unfolding probes_only_def by (auto intro: acts_all_mono)

lemma quiet_elapsed_since: "quiet (elapsed_since t)"
  by (auto simp: elapsed_since_def intro!: host_intros)

lemma emits_probe:
  "emits (is_running E u) (\<lambda>r es. probes_only u (r = Inr False) es \<and> length es \<le> 1)"
  by (rule emits_mono [OF emits_is_running]) (auto simp: probes_only_def)

lemma emits_kill:
  "emits (kill_unit E (resolve_supervisor u) (unit_name u)) (\<lambda>_ es. length es \<le> 1
     \<and> list_all (acts [''kill''] (unit_name u)) es
     \<and> (kill_argv (resolve_supervisor u) = [] \<or> es \<noteq> []))"
  by (rule emits_mono [OF emits_kill_unit]) (auto split: if_splits)

lemma emits_stop_failed:
  "emits (stop_failed E u t e) (\<lambda>(r, _) es. r = Inl e \<and> length es \<le> 2
     \<and> list_all (acts [''is-active'', ''stop'', ''kill''] (unit_name u)) es)"
proof -
  let ?A = "[''is-active'', ''stop'', ''kill'']"
  have kill: "emits (if c then do { k \<leftarrow> kill_unit E (resolve_supervisor u) (unit_name u);
        State_Monad.return () } else State_Monad.return ())
      (\<lambda>_ es. length es \<le> 1 \<and> list_all (acts ?A (unit_name u)) es)" for c
    by (cases c)
      (auto intro!: emits_return emits_bind [OF emits_kill] intro: acts_all_mono [of "[''kill'']"])
  show ?thesis
    unfolding stop_failed_def
    by (intro emits_bind [OF emits_probe] emits_bind [OF kill] emits_bind_quiet quiet_elapsed_since
        emits_return) (auto simp: probes_only_acts)
qed

lemma emits_escalate:
  "emits (escalate E u t) (\<lambda>(r, _) es. length es \<le> 11
     \<and> list_all (acts [''is-active'', ''stop'', ''kill''] (unit_name u)) es
     \<and> (case r of
          Inr Freed \<Rightarrow> probes_only u True es
        | Inr Escalated \<Rightarrow> escalated_trace u es
        | Inr AlreadyClear \<Rightarrow> False
        | Inl _ \<Rightarrow> True))"
  (is "emits _ ?P")
proof -
  let ?A = "[''is-active'', ''stop'', ''kill'']"
  let ?k = "kill_argv (resolve_supervisor u) = []"
  have settle: "emits (wait_until_stopped E u KILL_SETTLE \<bind> (\<lambda>gone. elapsed_since t \<bind> (\<lambda>secs.
      State_Monad.return (if gone then (Inr Escalated, Some secs)
        else (Inl (UE_StillRunning (unit_name u) d), Some secs)))))
      (\<lambda>x fs. ?P x (fs @ es))"
    if es: "length es \<le> 2" "list_all (acts ?A (unit_name u)) es"
      "?k \<or> es \<noteq> [] \<and> acts [''kill''] (unit_name u) (hd es)" for es d
  proof (intro emits_bind [OF emits_wait_until_stopped] emits_bind_quiet quiet_elapsed_since
      emits_return, goal_cases)
    case (1 gone fs secs)
    have "escalated_trace u (fs @ es)" if gone
      using 1 es(3) that unfolding escalated_trace_def by (intro exI [of _ fs] exI [of _ es]) simp
    moreover have "list_all (acts ?A (unit_name u)) (fs @ es)"
      using 1 es(2) by (auto simp: probes_only_acts)
    moreover have "length (fs @ es) \<le> 11"
      using 1 es(1) by simp
    ultimately show ?case by (cases gone) simp_all
  qed
  have kill: "emits (kill_unit E (resolve_supervisor u) (unit_name u) \<bind> (\<lambda>killed.
      wait_until_stopped E u KILL_SETTLE \<bind> (\<lambda>gone. elapsed_since t \<bind> (\<lambda>secs.
      State_Monad.return (if gone then (Inr Escalated, Some secs)
        else (Inl (UE_StillRunning (unit_name u)
               (case killed of Inr _ \<Rightarrow> ''kill command exited 0'' | Inl e \<Rightarrow> unit_error_text e)),
              Some secs))))))
      (\<lambda>x fs. ?P x (fs @ es))"
    if es: "length es \<le> 1" "list_all (acts ?A (unit_name u)) es" for es
    unfolding append_assoc [symmetric]
  proof (rule emits_bind [OF emits_kill], unfold append_assoc, rule settle, goal_cases)
    case (1 k ks)
    then show ?case using es by simp
  next
    case (2 k ks)
    then show ?case using es by (auto intro: acts_all_mono [of "[''kill'']"])
  next
    case (3 k ks)
    then show ?case by (cases ks) auto
  qed
  have freed: "emits (elapsed_since t \<bind> (\<lambda>secs. State_Monad.return (Inr Freed, Some secs)))
      (\<lambda>x fs. ?P x (fs @ es))" if "probes_only u True es" "length es \<le> 1" for es
    using that by (intro emits_bind_quiet quiet_elapsed_since emits_return) (auto simp: probes_only_acts)
  show ?thesis
    unfolding escalate_def
  proof (rule emits_bind [OF emits_probe], goal_cases)
    case (1 r es)
    show ?case
    proof (cases "r = Inr False")
      case True
      then show ?thesis using freed [of es] 1 by simp
    next
      case False
      then have "unwrap_or r True" by (cases r) auto
      moreover have "list_all (acts ?A (unit_name u)) es"
        using 1 by (auto simp: probes_only_acts)
      ultimately show ?thesis using kill [of es] 1 by simp
    qed
  qed
qed

lemma emits_evict_inner:
  "emits (evict_inner E cfg b u) (\<lambda>(r, _) es.
     evict_trace u r es \<and> length es \<le> 4 * eviction_timeout_s cfg + 14)"
  (is "emits _ ?P")
proof -
  let ?A = "[''is-active'', ''stop'', ''kill'']"
  let ?u = "unit_name u"
  let ?stopped = "\<lambda>es. length es \<le> 2 \<and> list_ex (stop_ok ?u) es
      \<and> list_all (acts [''is-active'', ''stop''] ?u) es"
  have failed: "emits (stop_failed E u t e) (\<lambda>x fs. ?P x (fs @ es))"
    if "length es \<le> 2" "list_all (acts ?A ?u) es" for t e es
    by (rule emits_mono [OF emits_stop_failed]) (use that in auto)
  have esc: "emits (escalate E u t) (\<lambda>x fs. ?P x (fs @ es))"
    if es: "length es \<le> 4 * eviction_timeout_s cfg + 3" "list_ex (stop_ok ?u) es"
      "list_all (acts [''is-active'', ''stop''] ?u) es" for t es
  proof (rule emits_mono [OF emits_escalate], clarify, goal_cases)
    case (1 r secs fs)
    have A: "list_all (acts ?A ?u) es" using es(3) by (rule acts_all_mono) simp
    have tr: "escalated_trace u fs \<Longrightarrow> escalated_trace u (fs @ es)"
      unfolding escalated_trace_def by (metis append.assoc append_is_Nil_conv hd_append2)
    show ?case
      using 1 es A tr
      by (auto simp: probes_only_acts split: sum.splits eviction_outcome.splits)
        (auto simp: probes_only_def)
  qed
  have main: "emits (drain E cfg b u \<bind> (\<lambda>step. if step = Step_Freed then
        elapsed_since t \<bind> (\<lambda>secs. State_Monad.return (Inr Freed, Some secs))
      else escalate E u t)) (\<lambda>x fs. ?P x (fs @ es))"
    if es: "?stopped es" for t es
  proof (rule emits_bind [OF emits_drain], goal_cases)
    case (1 st fs)
    have fs: "list_all (acts [''is-active'', ''stop''] ?u) fs"
      using 1 by (auto simp: probes_only_acts)
    show ?case
    proof (cases "st = Step_Freed")
      case True
      then show ?thesis
        using 1 es fs by (auto simp: probes_only_def intro!: emits_bind_quiet quiet_elapsed_since emits_return)
    next
      case False
      then show ?thesis
        using 1 es fs esc [of "fs @ es" t] by (simp add: append_assoc [symmetric] del: append_assoc)
    qed
  qed
  have stopped: "emits (case stop of Inl e \<Rightarrow> stop_failed E u t e
      | Inr (code, sout, serr) \<Rightarrow>
          if code \<noteq> Some 0 then stop_failed E u t (UE_Exit ''stop'' ?u (exit_detail code sout serr))
          else drain E cfg b u \<bind> (\<lambda>step. if step = Step_Freed then
              elapsed_since t \<bind> (\<lambda>secs. State_Monad.return (Inr Freed, Some secs))
            else escalate E u t))
      (\<lambda>x fs. ?P x (fs @ es @ [p]))"
    if es: "(es = [] \<and> (\<exists>e. stop = Inl e))
        \<or> (\<exists>full c. es = [Ev_Control ''stop'' ?u full c] \<and> stop = control_result ''stop'' ?u c)"
      and p: "acts [''is-active''] ?u p" for stop es t p
  proof -
    have A: "list_all (acts [''is-active'', ''stop''] ?u) (es @ [p])"
      using es acts_mono [OF p, of "[''is-active'', ''stop'']"] by auto
    then have A': "list_all (acts ?A ?u) (es @ [p])" by (rule acts_all_mono) simp
    have len: "length (es @ [p]) \<le> 2" using es by auto
    show ?thesis
    proof (cases "\<exists>sout serr. stop = Inr (Some 0, sout, serr)")
      case True
      then obtain sout serr where stop: "stop = Inr (Some 0, sout, serr)" by blast
      with es have "list_ex (stop_ok ?u) (es @ [p])"
        by auto
      then show ?thesis using main [of "es @ [p]" t] A len by (simp add: stop)
    next
      case False
      then show ?thesis
        using failed [OF len A'] by (auto split: sum.split)
    qed
  qed
  show ?thesis
    unfolding evict_inner_def
  proof (rule emits_bind [OF emits_is_running], goal_cases)
    case (1 r es)
    then consider e where "r = Inl e" "list_all (acts [''is-active''] ?u) es" "length es \<le> 1"
      | up p where "r = Inr up" "es = [p]" "acts [''is-active''] ?u p" "answers ?u p = Some up"
      by (cases r) auto
    then show ?case
    proof cases
      case 1
      moreover from this have "list_all (acts ?A ?u) es" by (auto intro: acts_all_mono [of "[''is-active'']"])
      ultimately show ?thesis by (simp add: emits_return)
    next
      case 2
      show ?thesis
      proof (cases up)
        case False
        with 2 show ?thesis by (auto simp: probes_only_def intro!: emits_return)
      next
        case True
        show ?thesis
          unfolding 2(1,2) sum.case
          apply (simp only: True not_True_eq_False if_False)
          apply (rule emits_bind_quiet [OF quiet_now])
          apply (rule emits_bind [OF emits_stop_unit])
          apply (unfold append_assoc)
          apply (rule stopped [OF _ 2(3)], assumption)
          done
      qed
    qed
  qed
qed

lemma emits_evict_timed:
  "emits (evict_timed E cfg b u) (\<lambda>(r, _) es.
     evict_trace u r es \<and> length es \<le> 4 * eviction_timeout_s cfg + 14)"
  unfolding evict_timed_def
  by (rule emits_bind_quiet [OF quiet_now])
    (auto intro!: emits_bind [OF emits_evict_inner] emits_bind_quiet quiet_elapsed_since emits_return)

lemma evict_trace_acts:
  "evict_trace u r es \<Longrightarrow> list_all (acts [''is-active'', ''stop'', ''kill''] (unit_name u)) es"
  by (cases "(u, r, es)" rule: evict_trace.cases)
    (auto simp: probes_only_acts intro: acts_all_mono [of "[''is-active'', ''stop'']"])

lemma grows_evict_timed [host_intros]:
  "grows (acts [''is-active'', ''stop'', ''kill''] (unit_name u)) (evict_timed E cfg b u)"
  unfolding emits_grows [symmetric]
  by (rule emits_mono [OF emits_evict_timed]) (auto intro: evict_trace_acts)

text \<open>A successful eviction ends with a probe that said stopped.\<close>

lemma evict_trace_Inr:
  assumes "evict_trace u (Inr out) es"
  shows "es \<noteq> [] \<and> answers (unit_name u) (hd es) = Some False"
proof (cases out)
  case Escalated
  with assms obtain post pre where "es = post @ pre" "probes_only u True post"
    by (auto simp: escalated_trace_def)
  then show ?thesis by (auto simp: probes_only_def)
qed (use assms in \<open>auto simp: probes_only_def\<close>)

end
