(* ===== verification/Reconcile_Core.thy ===== *)
theory Reconcile_Core
  imports Eviction
begin

text \<open>
  The pure half of \<open>src/reconcile.rs\<close> (the claim set, the game-exit debounce, the priority ladder,
  the targets of the ensure-running step, the gaming-invariant backoff, the transition table) and
  the process scan that feeds it.
\<close>

section \<open>Observing processes\<close>

record proc_info =
  pi_pid :: int
  cmdline :: string

record proc_snapshot =
  procs :: "proc_info list"

datatype reconcile_error = RE_Io io_error | RE_Join string | RE_Gpu gpu_error
  | RE_Unit unit_error | RE_Config config_error

definition claim_set :: "proc_snapshot \<Rightarrow> config \<Rightarrow> claim list" where
  "claim_set snap cfg =
     remdups_adj (sort (List.map_filter (\<lambda>p. classify (cmdline p) cfg) (procs snap)))"

definition flatten_cmdline :: "string \<Rightarrow> string" where
  "flatten_cmdline raw =
     str_join '' '' (filter (\<lambda>seg. seg \<noteq> []) (split_on (CHR 0x00) (utf8_lossy raw)))"

fun scan_entries :: "'w os \<Rightarrow> string list \<Rightarrow> ('w host, proc_info list) state" where
  "scan_entries E [] = State_Monad.return []"
| "scan_entries E (name # names) =
     (case (if utf8_valid name then parse_i32 name else None) of
        None \<Rightarrow> scan_entries E names
      | Some p \<Rightarrow> do {
          raw \<leftarrow> host_call (os_read_file E (''/proc/'' @ show_int p @ ''/cmdline''));
          out \<leftarrow> scan_entries E names;
          State_Monad.return (case raw of
              Inl _ \<Rightarrow> out
            | Inr bytes \<Rightarrow>
                if flatten_cmdline bytes = [] then out
                else \<lparr> pi_pid = p, cmdline = flatten_cmdline bytes \<rparr> # out)
        })"

definition scan_proc :: "'w os \<Rightarrow> ('w host, reconcile_error + proc_info list) state" where
  "scan_proc E = do {
     r \<leftarrow> host_call (os_read_dir E ''/proc'');
     (case r of
        Inl e \<Rightarrow> State_Monad.return (Inl (RE_Io e))
      | Inr names \<Rightarrow> do { out \<leftarrow> scan_entries E names; State_Monad.return (Inr out) })
   }"

text \<open>One entry of the Windows process table: the arguments, or the image path if they are blank.\<close>

definition process_entry :: "u32 \<times> string list \<times> string option \<Rightarrow> proc_info option" where
  "process_entry e =
     (case e of (p, cmd, exe) \<Rightarrow>
        (let joined = str_join '' '' cmd;
             line = (if str_trim joined = [] then (case exe of None \<Rightarrow> [] | Some x \<Rightarrow> x) else joined)
         in if str_trim line = [] then None
            else Some \<lparr> pi_pid = (if uint p < 2 ^ 31 then uint p else 2 ^ 31 - 1), cmdline = line \<rparr>))"

definition scan_processes :: "'w os \<Rightarrow> ('w host, proc_info list) state" where
  "scan_processes E = do {
     t \<leftarrow> host_call (os_processes E);
     State_Monad.return (List.map_filter process_entry t)
   }"

definition observe :: "'w os \<Rightarrow> ('w host, reconcile_error + proc_snapshot) state" where
  "observe E =
     (case os_platform E of
        Linux \<Rightarrow> do {
          r \<leftarrow> scan_proc E;
          State_Monad.return (case r of Inl e \<Rightarrow> Inl e | Inr ps \<Rightarrow> Inr \<lparr> procs = ps \<rparr>)
        }
      | Windows \<Rightarrow> do { ps \<leftarrow> scan_processes E; State_Monad.return (Inr \<lparr> procs = ps \<rparr>) }
      | MacOS \<Rightarrow> State_Monad.return (Inr \<lparr> procs = [] \<rparr>))"

text \<open>A scan reduced to its claims, recorded in the ghost log.\<close>

definition scan_claims :: "'w os \<Rightarrow> config \<Rightarrow> ('w host, reconcile_error + claim list) state" where
  "scan_claims E cfg = do {
     r \<leftarrow> observe E;
     let c = (case r of Inl e \<Rightarrow> Inl e | Inr snap \<Rightarrow> Inr (claim_set snap cfg));
     log_event (Ev_Scan (ok_of c));
     State_Monad.return c
   }"

section \<open>Decisions\<close>

definition debounce_game_exit ::
  "arb_state \<Rightarrow> arb_state \<Rightarrow> time option \<Rightarrow> time \<Rightarrow> time \<Rightarrow> arb_state \<times> time option" where
  "debounce_game_exit current observed pending grace t =
     (if observed \<noteq> Available \<or> current = Available then (observed, None)
      else let since_t = (case pending of None \<Rightarrow> t | Some s \<Rightarrow> s)
           in if grace \<le> t - since_t then (Available, None) else (Gaming, Some since_t))"

definition resume_targets ::
  "arb_state \<Rightarrow> config \<Rightarrow> string set \<Rightarrow> managed_unit list \<Rightarrow> managed_unit list" where
  "resume_targets desired cfg hs preempted =
     (if desired \<noteq> Available then []
      else filter (\<lambda>u. unit_name u \<notin> hs
                       \<and> \<not> list_ex (\<lambda>p. unit_name p = unit_name u) preempted)
             (resolved_units cfg))"

definition ensure_running_targets ::
  "arb_state \<Rightarrow> config \<Rightarrow> string set \<Rightarrow> managed_unit list \<Rightarrow> managed_unit list" where
  "ensure_running_targets desired cfg hs preempted =
     filter eager_restart (resume_targets desired cfg hs preempted)"

definition opt_max :: "u8 option \<Rightarrow> u8 option \<Rightarrow> u8 option" where
  "opt_max a b =
     (case a of None \<Rightarrow> b | Some x \<Rightarrow> (case b of None \<Rightarrow> Some x | Some y \<Rightarrow> Some (max x y)))"

definition effective_demand :: "claim list \<Rightarrow> config \<Rightarrow> managed_unit list \<Rightarrow> u8 option" where
  "effective_demand cs cfg busy =
     (let game = (if cs \<noteq> [] then Some (game_priority cfg) else None);
          tenant = fold (\<lambda>u m. opt_max m (Some (priority u))) busy None
      in case (game, tenant) of
           (Some g, Some t) \<Rightarrow> Some (max g t)
         | (Some g, None) \<Rightarrow> Some g
         | (None, t) \<Rightarrow> t)"

definition preempted_units :: "config \<Rightarrow> u8 option \<Rightarrow> managed_unit list" where
  "preempted_units cfg demand =
     (case demand of
        None \<Rightarrow> []
      | Some d \<Rightarrow> filter (\<lambda>u. priority u < d) (resolved_units cfg))"

definition ensure_running_toctou_clear :: "claim list \<Rightarrow> bool" where
  "ensure_running_toctou_clear fresh \<longleftrightarrow> fresh = []"

definition INVARIANT_WARN_EVERY :: time where
  "INVARIANT_WARN_EVERY = from_secs 60"

definition INVARIANT_BACKOFF_MIN :: time where
  "INVARIANT_BACKOFF_MIN = from_secs 15"

definition INVARIANT_BACKOFF_MAX :: time where
  "INVARIANT_BACKOFF_MAX = from_secs 120"

definition next_invariant_backoff :: "time option \<Rightarrow> time" where
  "next_invariant_backoff prev =
     (case prev of None \<Rightarrow> INVARIANT_BACKOFF_MIN | Some d \<Rightarrow> min (d * 2) INVARIANT_BACKOFF_MAX)"

definition note_one :: "time \<Rightarrow> managed_unit \<times> eviction_outcome option \<Rightarrow> arbiter \<Rightarrow> arbiter" where
  "note_one t ur a =
     (case ur of (u, r) \<Rightarrow>
        if r = Some Freed \<or> r = Some AlreadyClear then
          a\<lparr> inv_backoff := (inv_backoff a)(unit_name u := None) \<rparr>
        else
          let step = next_invariant_backoff (map_option bo_step (inv_backoff a (unit_name u)))
          in a\<lparr> inv_backoff := (inv_backoff a)(unit_name u \<mapsto> \<lparr> bo_until = t + step, bo_step = step \<rparr>) \<rparr>)"

definition note_invariant_backoff ::
  "managed_unit list \<Rightarrow> eviction_outcome option list \<Rightarrow> time \<Rightarrow> arbiter \<Rightarrow> arbiter" where
  "note_invariant_backoff targets results t = fold (note_one t) (zip targets results)"

datatype unit_action = UA_Evict | UA_Restart | UA_None

definition unit_action :: "arb_state \<Rightarrow> arb_state \<Rightarrow> unit_action" where
  "unit_action current desired =
     (case (current, desired) of
        (Available, Gaming) \<Rightarrow> UA_Evict
      | (Gaming, Available) \<Rightarrow> UA_Restart
      | (Available, Available) \<Rightarrow> UA_None
      | (Available, Evicting) \<Rightarrow> UA_None
      | (Gaming, Gaming) \<Rightarrow> UA_None
      | (Gaming, Evicting) \<Rightarrow> UA_None
      | (Evicting, Available) \<Rightarrow> UA_None
      | (Evicting, Gaming) \<Rightarrow> UA_None
      | (Evicting, Evicting) \<Rightarrow> UA_None)"

section \<open>Lemmas\<close>

lemma quiet_scan_entries [host_intros]: "quiet (scan_entries E ns)"
  by (induction ns) (auto intro!: host_intros split: option.split)

lemma quiet_observe [host_intros]: "quiet (observe E)"
  by (auto simp: observe_def scan_proc_def scan_processes_def intro!: host_intros
      split: platform.split)

lemma emits_scan_claims:
  "emits (scan_claims E cfg) (\<lambda>r es. es = [Ev_Scan (ok_of r)])"
  unfolding scan_claims_def Let_def
  by (intro emits_bind_quiet quiet_observe emits_bind [OF emits_log_event [where P = "\<lambda>_ es. es = [_]"]]
      emits_return) auto

lemma set_claim_set:
  "set (claim_set snap cfg) = {c. \<exists>p\<in>set (procs snap). classify (cmdline p) cfg = Some c}"
  by (auto simp: claim_set_def map_filter_def image_iff) force

lemma distinct_remdups_adj_sorted: "sorted xs \<Longrightarrow> distinct (remdups_adj (xs :: 'a :: linorder list))"
proof (induction xs rule: remdups_adj.induct)
  case (3 x y xs)
  then show ?case by (auto simp: less_le intro: order.antisym)
qed auto

lemma sorted_claim_set: "sorted (claim_set snap cfg) \<and> distinct (claim_set snap cfg)"
  by (simp add: claim_set_def sorted_remdups_adj distinct_remdups_adj_sorted)

section \<open>The debounce over a sequence of passes\<close>

text \<open>One pass as the debounce sees it: the observed state and the instant of the decision.\<close>

definition settle :: "time \<Rightarrow> arb_state \<times> time \<Rightarrow> arb_state \<times> time option \<Rightarrow> arb_state \<times> time option" where
  "settle grace ot cp = debounce_game_exit (fst cp) (fst ot) (snd cp) grace (snd ot)"

lemma settle_available: "settle grace (Available, t) (Available, None) = (Available, None)"
  by (simp add: settle_def debounce_game_exit_def)

lemma settle_pending:
  "settle grace (Available, t) (Gaming, Some s) =
     (if grace \<le> t - s then (Available, None) else (Gaming, Some s))"
  by (simp add: settle_def debounce_game_exit_def)

lemma settle_first:
  "settle grace (Available, t) (Gaming, None) =
     (if grace = 0 then (Available, None) else (Gaming, Some t))"
  by (simp add: settle_def debounce_game_exit_def)

lemma settle_claim: "settle grace (Gaming, t) cp = (Gaming, None)"
  by (simp add: settle_def debounce_game_exit_def)

lemma fold_settle_available:
  "fold (settle grace) (map (Pair Available) ts) (Available, None) = (Available, None)"
  by (induction ts) (simp_all add: settle_available)

lemma fold_settle_pending:
  "fold (settle grace) (map (Pair Available) ts) (Gaming, Some s)
     = (if list_ex (\<lambda>t. grace \<le> t - s) ts then (Available, None) else (Gaming, Some s))"
  by (induction ts) (simp_all add: settle_pending fold_settle_available)

lemma fold_settle_gaming:
  "fst (fold (settle grace) (map (Pair Available) ts) (Gaming, None)) = Available
     \<longleftrightarrow> list_ex (\<lambda>t. grace \<le> t - hd ts) ts"
  by (cases ts) (simp_all add: settle_first fold_settle_available fold_settle_pending)

section \<open>The priority ladder\<close>

lemma opt_max_simps [simp]:
  "opt_max None b = b" "opt_max a None = a" "opt_max (Some x) (Some y) = Some (max x y)"
  by (simp_all add: opt_max_def split: option.split)

lemma opt_max_fold:
  "fold (\<lambda>u m. opt_max m (Some (priority u))) us (Some d)
     = Some (fold max (map priority us) d)"
  by (induction us arbitrary: d) (simp_all add: max.commute)

lemma fold_max_ge: "d \<le> fold max xs (d :: u8) \<and> (\<forall>x\<in>set xs. x \<le> fold max xs d)"
proof (induction xs arbitrary: d)
  case (Cons a xs)
  from Cons.IH [of "max a d"] show ?case by auto
qed simp

lemma fold_max_in: "fold max xs (d :: u8) = d \<or> fold max xs d \<in> set xs"
  by (induction xs arbitrary: d) (auto simp: max_def split: if_splits)

lemma tenant_demand_None:
  "fold (\<lambda>u m. opt_max m (Some (priority u))) us None = None \<longleftrightarrow> us = []"
  by (cases us) (simp_all add: opt_max_fold)

lemma tenant_demand_ge:
  "u \<in> set us \<Longrightarrow> fold (\<lambda>u m. opt_max m (Some (priority u))) us None = Some d \<Longrightarrow> priority u \<le> d"
  using fold_max_ge [of "priority (hd us)" "map priority (tl us)"] by (cases us) (auto simp: opt_max_fold)

lemma tenant_demand_in:
  "fold (\<lambda>u m. opt_max m (Some (priority u))) us None = Some d \<Longrightarrow> \<exists>u\<in>set us. priority u = d"
proof (cases us)
  case (Cons u us')
  assume "fold (\<lambda>u m. opt_max m (Some (priority u))) us None = Some d"
  with Cons fold_max_in [of "map priority us'" "priority u"] show ?thesis
    by (auto simp: opt_max_fold)
qed simp

lemma effective_demand_None: "effective_demand cs cfg busy = None \<longleftrightarrow> cs = [] \<and> busy = []"
  by (auto simp: effective_demand_def Let_def tenant_demand_None split: option.splits)

lemma effective_demand_ge:
  "effective_demand cs cfg busy = Some d \<Longrightarrow>
     (u \<in> set busy \<longrightarrow> priority u \<le> d) \<and> (cs \<noteq> [] \<longrightarrow> game_priority cfg \<le> d)"
  by (auto simp: effective_demand_def Let_def split: option.splits if_splits
      dest: tenant_demand_ge)
    (auto simp: tenant_demand_None le_max_iff_disj dest: tenant_demand_ge)

lemma effective_demand_in:
  "effective_demand cs cfg busy = Some d \<Longrightarrow>
     (cs \<noteq> [] \<and> d = game_priority cfg) \<or> (\<exists>u\<in>set busy. d = priority u)"
  by (auto simp: effective_demand_def Let_def max_def split: option.splits if_splits
      dest!: tenant_demand_in)

lemma set_preempted_units:
  "set (preempted_units cfg (Some d)) = {u \<in> set (resolved_units cfg). priority u < d}"
  by (auto simp: preempted_units_def)

lemma set_resume_targets:
  "set (resume_targets desired cfg hs pre) =
     (if desired = Available
      then {u \<in> set (resolved_units cfg). unit_name u \<notin> hs \<and> unit_name u \<notin> unit_name ` set pre}
      else {})"
  by (auto simp: resume_targets_def list_ex_iff image_iff)

lemma unit_action_simps [simp]:
  "unit_action Available Gaming = UA_Evict"
  "unit_action Gaming Available = UA_Restart"
  "unit_action x x = UA_None"
  "unit_action Evicting y = UA_None"
  "unit_action x Evicting = UA_None"
  by (cases x; cases y; simp add: unit_action_def)+

section \<open>The backoff\<close>

text \<open>The interval after \<open>n\<close> backoffs in a row.\<close>

definition backoff_after :: "nat \<Rightarrow> time" where
  "backoff_after n = ((\<lambda>d. next_invariant_backoff (Some d)) ^^ n) (next_invariant_backoff None)"

lemma backoff_after_closed: "backoff_after n = from_secs (min 120 (15 * 2 ^ n))"
proof (induction n)
  case (Suc n)
  have "backoff_after (Suc n) = min (backoff_after n * 2) INVARIANT_BACKOFF_MAX"
    by (simp add: backoff_after_def next_invariant_backoff_def)
  then show ?case
    by (simp add: Suc.IH INVARIANT_BACKOFF_MAX_def from_secs_def min_def)
qed (simp add: backoff_after_def next_invariant_backoff_def INVARIANT_BACKOFF_MIN_def from_secs_def)

end
