(* ===== verification/Procmon.thy ===== *)
theory Procmon
  imports Arbiter_State
begin

text \<open>
  \<open>src/procmon.rs\<close>: the process-event listener. What \<open>neli\<close> answers (connecting, building and
  sending the subscription, and the sequence of results of \<open>recv\<close> with its checked parse) is the
  record \<open>netlink\<close>; what is modelled is what the listener makes of it: how each failure of the set-up
  ends it, which events become triggers, what a full channel or an overflow costs (one count of the
  dropped-event counter), and when it returns.

  The trigger channel is a bounded queue: \<open>try_send\<close> appends, or reports full or closed.
\<close>

section \<open>Event kinds\<close>

datatype proc_event_kind = PK_Fork | PK_Exec | PK_Exit | PK_Other

definition FORK :: u32 where "FORK = 0x00000001"
definition EXEC :: u32 where "EXEC = 0x00000002"
definition UID :: u32 where "UID = 0x00000004"
definition EXIT :: u32 where "EXIT = 0x80000000"
definition NONZERO_EXIT :: u32 where "NONZERO_EXIT = 0x20000000"

definition event_kind_from_what :: "u32 \<Rightarrow> proc_event_kind" where
  "event_kind_from_what what =
     (if what = FORK then PK_Fork else if what = EXEC then PK_Exec
      else if what = EXIT \<or> what = NONZERO_EXIT then PK_Exit else PK_Other)"

definition is_trigger_kind :: "proc_event_kind \<Rightarrow> bool" where
  "is_trigger_kind k \<longleftrightarrow> k = PK_Exec \<or> k = PK_Exit"

text \<open>The variants of \<open>neli\<close>'s \<open>ProcEvent\<close>; their fields are not read.\<close>

datatype neli_event = NE_Fork | NE_Exec | NE_Exit | NE_Ack | NE_Uid | NE_Gid | NE_Sid
  | NE_Ptrace | NE_Comm | NE_Coredump

fun kind_of :: "neli_event \<Rightarrow> proc_event_kind" where
  "kind_of NE_Fork = PK_Fork"
| "kind_of NE_Exec = PK_Exec"
| "kind_of NE_Exit = PK_Exit"
| "kind_of NE_Ack = PK_Other"
| "kind_of NE_Uid = PK_Other"
| "kind_of NE_Gid = PK_Other"
| "kind_of NE_Sid = PK_Other"
| "kind_of NE_Ptrace = PK_Other"
| "kind_of NE_Comm = PK_Other"
| "kind_of NE_Coredump = PK_Other"

section \<open>The listener\<close>

datatype recv_msg = Msg_Malformed | Msg_Control | Msg_Event neli_event

text \<open>
  A failure of a netlink call: an I/O error, with the system's error number when there is one, or
  any other kind. Each carries its message.
\<close>

datatype socket_error = SE_Io "int option" string | SE_Other string

datatype recv_result = Recv_Messages "recv_msg list" | Recv_Error socket_error

datatype procmon_error = PE_Socket string socket_error | PE_Build string string

definition ENOBUFS :: int where
  "ENOBUFS = 105"

fun is_enobufs :: "socket_error \<Rightarrow> bool" where
  "is_enobufs (SE_Io n _) = (n = Some ENOBUFS)"
| "is_enobufs (SE_Other _) = False"

fun socket_error_text :: "socket_error \<Rightarrow> string" where
  "socket_error_text (SE_Io _ e) = e"
| "socket_error_text (SE_Other e) = e"

fun procmon_error_text :: "procmon_error \<Rightarrow> string" where
  "procmon_error_text (PE_Socket action e) = action @ '' cn_proc netlink socket: '' @ socket_error_text e"
| "procmon_error_text (PE_Build what e) = ''building '' @ what @ '': '' @ e"

datatype send_result = Sent | Full | Closed

record listener =
  ln_queue :: "trigger list"
  ln_depth :: nat
  ln_closed :: bool
  ln_dropped :: nat

definition try_send :: "trigger \<Rightarrow> listener \<Rightarrow> send_result \<times> listener" where
  "try_send t l =
     (if ln_closed l then (Closed, l)
      else if ln_depth l \<le> length (ln_queue l) then (Full, l)
      else (Sent, l\<lparr> ln_queue := ln_queue l @ [t] \<rparr>))"

definition count_drop :: "listener \<Rightarrow> listener" where
  "count_drop l = l\<lparr> ln_dropped := Suc (ln_dropped l) \<rparr>"

text \<open>One datagram; the flag says the channel is closed, which ends the listener.\<close>

fun handle_messages :: "recv_msg list \<Rightarrow> listener \<Rightarrow> bool \<times> listener" where
  "handle_messages [] l = (False, l)"
| "handle_messages (Msg_Malformed # _) l = (False, l)"
| "handle_messages (Msg_Control # ms) l = handle_messages ms l"
| "handle_messages (Msg_Event e # ms) l =
     (if is_trigger_kind (kind_of e) then
        (case try_send ProcEvent l of
           (Sent, l') \<Rightarrow> handle_messages ms l'
         | (Full, l') \<Rightarrow> handle_messages ms (count_drop l')
         | (Closed, l') \<Rightarrow> (True, l'))
      else handle_messages ms l)"

text \<open>
  The receive loop on a sequence of results of \<open>recv\<close>: the listener's result once it returns,
  \<open>None\<close> while it is still listening.
\<close>

fun listen :: "recv_result list \<Rightarrow> listener \<Rightarrow> (procmon_error + unit) option \<times> listener" where
  "listen [] l = (None, l)"
| "listen (Recv_Error e # rs) l =
     (if is_enobufs e then listen rs (count_drop l)
      else (Some (Inl (PE_Socket ''receiving from'' e)), l))"
| "listen (Recv_Messages ms # rs) l =
     (case handle_messages ms l of
        (True, l') \<Rightarrow> (Some (Inr ()), l')
      | (False, l') \<Rightarrow> listen rs l')"

definition proc_events_dropped :: "listener \<Rightarrow> nat" where
  "proc_events_dropped l = ln_dropped l"

text \<open>
  The whole listener: connect, build the subscription (the message, then its header), send it,
  listen. Each step that fails ends it with its own error. Where there is no netlink the listener
  never returns and never does anything.
\<close>

record netlink =
  nl_connect :: "socket_error option"
  nl_message :: "string option"
  nl_header :: "string option"
  nl_send :: "socket_error option"
  nl_recv :: "recv_result list"

definition subscribe :: "netlink \<Rightarrow> procmon_error + unit" where
  "subscribe N =
     (case nl_connect N of Some e \<Rightarrow> Inl (PE_Socket ''connecting'' e)
      | None \<Rightarrow>
     (case nl_message N of Some e \<Rightarrow> Inl (PE_Build ''subscribe message'' e)
      | None \<Rightarrow>
     (case nl_header N of Some e \<Rightarrow> Inl (PE_Build ''subscribe header'' e)
      | None \<Rightarrow>
     (case nl_send N of Some e \<Rightarrow> Inl (PE_Socket ''sending subscribe on'' e)
      | None \<Rightarrow> Inr ()))))"

definition procmon_run ::
  "platform \<Rightarrow> netlink \<Rightarrow> listener \<Rightarrow> (procmon_error + unit) option \<times> listener" where
  "procmon_run p N l =
     (if p \<noteq> Linux then (None, l)
      else case subscribe N of
             Inl e \<Rightarrow> (Some (Inl e), l)
           | Inr _ \<Rightarrow> listen (nl_recv N) l)"

section \<open>Nothing is lost silently\<close>

fun worthy :: "recv_msg \<Rightarrow> bool" where
  "worthy (Msg_Event e) = is_trigger_kind (kind_of e)"
| "worthy _ = False"

text \<open>What the kernel reported: the events to act on before a parse error, and the overflows.\<close>

fun reported :: "recv_result \<Rightarrow> nat" where
  "reported (Recv_Messages ms) = length (filter worthy (takeWhile (\<lambda>m. m \<noteq> Msg_Malformed) ms))"
| "reported (Recv_Error e) = (if is_enobufs e then 1 else 0)"

lemma try_send_cases:
  "try_send t l = (r, l') \<Longrightarrow> \<not> ln_closed l \<Longrightarrow>
     (r = Sent \<and> length (ln_queue l) < ln_depth l \<and> l' = l\<lparr> ln_queue := ln_queue l @ [t] \<rparr>)
     \<or> (r = Full \<and> ln_depth l \<le> length (ln_queue l) \<and> l' = l)"
  by (auto simp: try_send_def split: if_splits)

lemma handle_messages_count:
  assumes "\<not> ln_closed l"
  shows "\<exists>k d. handle_messages ms l
      = (False, l\<lparr> ln_queue := ln_queue l @ replicate k ProcEvent, ln_dropped := ln_dropped l + d \<rparr>)
    \<and> k + d = length (filter worthy (takeWhile (\<lambda>m. m \<noteq> Msg_Malformed) ms))
    \<and> (0 < k \<longrightarrow> length (ln_queue l) + k \<le> ln_depth l)
    \<and> (0 < d \<longrightarrow> ln_depth l \<le> length (ln_queue l) + k)"
  using assms
proof (induction ms arbitrary: l)
  case Nil
  show ?case by (intro exI [of _ 0]) simp
next
  case (Cons m ms)
  show ?case
  proof (cases m)
    case Msg_Malformed
    then show ?thesis by (intro exI [of _ 0]) simp
  next
    case Msg_Control
    then show ?thesis using Cons.IH [OF Cons.prems] by simp
  next
    case (Msg_Event e)
    show ?thesis
    proof (cases "is_trigger_kind (kind_of e)")
      case False
      then show ?thesis using Cons.IH [OF Cons.prems] by (simp add: Msg_Event)
    next
      case w: True
      show ?thesis
      proof (cases "length (ln_queue l) < ln_depth l")
        case True
        let ?l = "l\<lparr> ln_queue := ln_queue l @ [ProcEvent] \<rparr>"
        have s: "try_send ProcEvent l = (Sent, ?l)" using True Cons.prems by (simp add: try_send_def)
        obtain k d where "handle_messages ms ?l
            = (False, ?l\<lparr> ln_queue := ln_queue ?l @ replicate k ProcEvent, ln_dropped := ln_dropped ?l + d \<rparr>)"
          "k + d = length (filter worthy (takeWhile (\<lambda>m. m \<noteq> Msg_Malformed) ms))"
          "0 < k \<longrightarrow> length (ln_queue ?l) + k \<le> ln_depth ?l"
          "0 < d \<longrightarrow> ln_depth ?l \<le> length (ln_queue ?l) + k"
          using Cons.IH [of ?l] Cons.prems by auto
        then show ?thesis
          using w s True
          by (intro exI [of _ "Suc k"] exI [of _ d]) (auto simp: Msg_Event)
      next
        case False
        let ?l = "count_drop l"
        have s: "try_send ProcEvent l = (Full, l)" using False Cons.prems by (simp add: try_send_def)
        have c: "\<not> ln_closed ?l" using Cons.prems by (simp add: count_drop_def)
        obtain k d where "handle_messages ms ?l
            = (False, ?l\<lparr> ln_queue := ln_queue ?l @ replicate k ProcEvent, ln_dropped := ln_dropped ?l + d \<rparr>)"
          "k + d = length (filter worthy (takeWhile (\<lambda>m. m \<noteq> Msg_Malformed) ms))"
          "0 < k \<longrightarrow> length (ln_queue ?l) + k \<le> ln_depth ?l"
          using Cons.IH [OF c] by auto
        then show ?thesis
          using w s False
          by (intro exI [of _ k] exI [of _ "Suc d"]) (auto simp: Msg_Event count_drop_def)
      qed
    qed
  qed
qed

text \<open>A receive error that ends the listener, and what an open listener makes of a run of receives.\<close>

fun fatal :: "recv_result \<Rightarrow> bool" where
  "fatal (Recv_Error e) = (\<not> is_enobufs e)"
| "fatal (Recv_Messages _) = False"

definition received :: "recv_result list \<Rightarrow> recv_result list" where
  "received rs = takeWhile (\<lambda>r. \<not> fatal r) rs"

definition recorded :: "recv_result list \<Rightarrow> listener \<Rightarrow> listener \<Rightarrow> bool" where
  "recorded rs l l' \<longleftrightarrow>
     ln_dropped l' + length (ln_queue l') = ln_dropped l + length (ln_queue l) + sum_list (map reported rs)
     \<and> length (ln_queue l') \<le> max (length (ln_queue l)) (ln_depth l)"

lemma listen_open:
  assumes "\<not> ln_closed l"
  shows "recorded (received rs) l (snd (listen rs l))
    \<and> fst (listen rs l) \<noteq> Some (Inr ()) \<and> (fst (listen rs l) = None \<longleftrightarrow> \<not> list_ex fatal rs)"
  using assms
proof (induction rs arbitrary: l)
  case Nil
  then show ?case by (simp add: recorded_def received_def)
next
  case (Cons r rs)
  show ?case
  proof (cases r)
    case (Recv_Messages ms)
    obtain k d where h: "handle_messages ms l
        = (False, l\<lparr> ln_queue := ln_queue l @ replicate k ProcEvent, ln_dropped := ln_dropped l + d \<rparr>)"
      and kd: "k + d = length (filter worthy (takeWhile (\<lambda>m. m \<noteq> Msg_Malformed) ms))"
      and k: "0 < k \<longrightarrow> length (ln_queue l) + k \<le> ln_depth l"
      using handle_messages_count [OF Cons.prems] by blast
    show ?thesis
      using Cons.IH [of "l\<lparr> ln_queue := ln_queue l @ replicate k ProcEvent,
          ln_dropped := ln_dropped l + d \<rparr>"] Cons.prems h kd k
      by (cases "k = 0") (auto simp: Recv_Messages recorded_def received_def)
  next
    case (Recv_Error e)
    then show ?thesis
      using Cons.IH [of "count_drop l"] Cons.prems
      by (cases "is_enobufs e") (simp_all add: count_drop_def recorded_def received_def)
  qed
qed

end
