(* ===== verification/Sample_Host.thy ===== *)
theory Sample_Host
  imports Host
begin

text \<open>
  A small concrete host: a service manager with a set of running units, some of which ignore a
  polite stop, and a file tree with \<open>/proc\<close>. It instantiates the external calls for the concrete
  runs that accompany the theorems.
\<close>

record sample_world =
  sw_running :: "string list"
  sw_stuck :: "string list"
  sw_dirs :: "(string \<times> string list) list"
  sw_files :: "(string \<times> string) list"

definition not_found :: io_error where
  "not_found = IoError IO_NotFound ''No such file or directory''"

definition sample_exit :: "bool \<Rightarrow> cmd_result" where
  "sample_exit ok = Exited (Some (if ok then 0 else 3)) [] []"

fun sample_run :: "string list \<Rightarrow> sample_world \<Rightarrow> cmd_result \<times> sample_world" where
  "sample_run [p, verb, u] w =
     (if p \<noteq> ''systemctl'' then (SpawnFailed not_found, w)
      else if verb = ''is-active'' then (sample_exit (u \<in> set (sw_running w)), w)
      else if verb = ''start'' then (sample_exit True, w\<lparr> sw_running := u # sw_running w \<rparr>)
      else if verb = ''stop'' then
        (sample_exit True,
         if u \<in> set (sw_stuck w) then w else w\<lparr> sw_running := removeAll u (sw_running w) \<rparr>)
      else (sample_exit False, w))"
| "sample_run [p, verb, s, sig, u] w =
     (if p = ''systemctl'' \<and> verb = ''kill''
      then (sample_exit True, w\<lparr> sw_running := removeAll u (sw_running w) \<rparr>)
      else (SpawnFailed not_found, w))"
| "sample_run [prog] w =
     (if prog = ''always'' then (sample_exit True, w)
      else (SpawnFailed not_found, w))"
| "sample_run _ w = (SpawnFailed not_found, w)"

definition sample_os :: "platform \<Rightarrow> sample_world os" where
  "sample_os p =
     \<lparr> os_platform = p,
        os_run = (\<lambda>_ cmd w. case sample_run cmd w of (r, w') \<Rightarrow> (r, 1000000, w')),
        os_read_dir = (\<lambda>d w. (case map_of (sw_dirs w) d of Some ns \<Rightarrow> Inr ns | None \<Rightarrow> Inl not_found, 1000, w)),
        os_read_file = (\<lambda>f w. (case map_of (sw_files w) f of Some s \<Rightarrow> Inr s | None \<Rightarrow> Inl not_found, 1000, w)),
        os_read_link = (\<lambda>_ w. (None, 1000, w)),
        os_on_path = (\<lambda>_ _. False),
        os_oversleep = (\<lambda>_ w. (0, w)),
        os_wall = (\<lambda>_. 1700000000000000000),
        os_http_get = (\<lambda>_ _ w. (Fetch_Error ''connection refused'', 1000, w)),
        os_parse_ps = (\<lambda>_. Inl ''expected value''),
        os_processes = (\<lambda>w. ([], 1000, w)) \<rparr>"

definition sample_host :: "sample_world \<Rightarrow> sample_world host" where
  "sample_host w = \<lparr> hclock = 0, hlog = [], hook_counts = [], hworld = w \<rparr>"

text \<open>Worlds: no game and a game, with the managed unit down, up, or up and ignoring stops.\<close>

definition idle_world :: "string list \<Rightarrow> string list \<Rightarrow> sample_world" where
  "idle_world up stuck =
     \<lparr> sw_running = up, sw_stuck = stuck, sw_dirs = [(''/proc'', [''self'', ''7''])],
        sw_files = [(''/proc/7/cmdline'', ''sh'')] \<rparr>"

definition game_world :: "string list \<Rightarrow> string list \<Rightarrow> sample_world" where
  "game_world up stuck =
     \<lparr> sw_running = up, sw_stuck = stuck, sw_dirs = [(''/proc'', [''self'', ''9''])],
        sw_files = [(''/proc/9/cmdline'', ''reaper'' @ [CHR 0x00] @ ''SteamLaunch AppId=440'')] \<rparr>"

end
