(* ===== verification/Detection_Properties.thy ===== *)
theory Detection_Properties
  imports Reconcile_Core Procmon Sample_Host "HOL-Library.Code_Target_Nat" "HOL-Library.Code_Target_Int"
begin

text \<open>
  Properties of the parts that observe the machine: configuration, classification of processes,
  the claim set, cgroup and GPU parsing, VRAM attribution and the process-event listener.
\<close>

section \<open>Classification\<close>

lemma find_split:
  "find P xs = Some p \<longleftrightarrow> (\<exists>ps qs. xs = ps @ p # qs \<and> P p \<and> \<not> list_ex P ps)"
proof
  show "find P xs = Some p \<Longrightarrow> \<exists>ps qs. xs = ps @ p # qs \<and> P p \<and> \<not> list_ex P ps"
  proof (induction xs)
    case (Cons x xs)
    show ?case
    proof (cases "P x")
      case True
      with Cons.prems show ?thesis by (intro exI [of _ "[]"] exI [of _ xs]) auto
    next
      case False
      with Cons obtain ps qs where "xs = ps @ p # qs" "P p" "\<not> list_ex P ps" by auto
      with False show ?thesis by (intro exI [of _ "x # ps"] exI [of _ qs]) auto
    qed
  qed simp
next
  assume "\<exists>ps qs. xs = ps @ p # qs \<and> P p \<and> \<not> list_ex P ps"
  then obtain ps qs where xs: "xs = ps @ p # qs" and "P p" "\<not> list_ex P ps" by blast
  then show "find P xs = Some p"
    unfolding xs by (induction ps) auto
qed

text \<open>
  C38: A process is a Steam claim \<open>i\<close> exactly when Steam detection is on and the digits \<open>i\<close>,
  at least one and as many as there are, follow the first occurrence of the Steam marker in its
  command line.
\<close>

theorem classify_steam_iff:
  "classify cl cfg = Some (Steam i) \<longleftrightarrow>
     detect_steam cfg \<and> i \<noteq> [] \<and> list_all is_digit i \<and>
     (\<exists>pre post. cl = pre @ STEAM_MARKER @ i @ post \<and> takeWhile is_digit post = []
        \<and> (\<forall>a b. cl = a @ STEAM_MARKER @ b \<longrightarrow> length pre \<le> length a))"
  (is "?L \<longleftrightarrow> ?R")
proof
  assume ?L
  then have d: "detect_steam cfg" and "steam_appid cl = Some i"
    by (auto simp: classify_def split: if_splits option.splits)
  then obtain a rest where s: "split_once cl STEAM_MARKER = Some (a, rest)"
      and i: "i = takeWhile is_digit rest" "i \<noteq> []"
    by (auto simp: steam_appid_def Let_def split: option.splits if_splits)
  have "cl = a @ STEAM_MARKER @ i @ dropWhile is_digit rest"
    using split_once_Some [OF s] i by simp
  moreover have "takeWhile is_digit (dropWhile is_digit rest) = []"
    by (induction rest) auto
  moreover have "\<forall>a' b. cl = a' @ STEAM_MARKER @ b \<longrightarrow> length a \<le> length a'"
    using split_once_first [OF s] by blast
  moreover have "list_all is_digit i"
    unfolding i(1) by (auto simp: list_all_iff dest: set_takeWhileD)
  ultimately show ?R using d i(2) by blast
next
  assume R: ?R
  then obtain pre post where cl: "cl = pre @ STEAM_MARKER @ i @ post"
      and p: "takeWhile is_digit post = []"
      and first: "\<forall>a b. cl = a @ STEAM_MARKER @ b \<longrightarrow> length pre \<le> length a" by blast
  obtain a b where s: "split_once cl STEAM_MARKER = Some (a, b)"
    using cl split_once_contains str_contains_append by metis
  have "length a \<le> length pre" using split_once_first [OF s cl] .
  moreover have "length pre \<le> length a" using first split_once_Some [OF s] by blast
  ultimately have "b = i @ post"
    using split_once_Some [OF s] cl by simp
  moreover have "takeWhile is_digit (i @ post) = i"
    using R p by (simp add: list_all_iff takeWhile_append2)
  ultimately show ?L
    using R s by (auto simp: classify_def steam_appid_def)
qed

theorem classify_steam_iff_witness:
  "detect_steam (default_config Linux) \<and> list_all is_digit ''440''
     \<and> (\<exists>pre post. ''reaper SteamLaunch AppId=440 -- hl2'' = pre @ STEAM_MARKER @ ''440'' @ post
          \<and> takeWhile is_digit post = [])"
proof -
  have "classify ''reaper SteamLaunch AppId=440 -- hl2'' (default_config Linux) = Some (Steam ''440'')"
    by code_simp
  then show ?thesis using classify_steam_iff by blast
qed

definition pattern_hits :: "string \<Rightarrow> game_pattern \<Rightarrow> bool" where
  "pattern_hits cl p \<longleftrightarrow> str_contains cl (match_substr p) \<and> \<not> list_ex (str_contains cl) (exclude p)"

text \<open>
  A process is a pattern claim exactly when no Steam claim precedes it and the claim names the
  first configured pattern that hits: its substring occurs and none of its own vetoes does. A
  veto of one pattern never suppresses another one.
\<close>

theorem classify_pattern_iff:
  "classify cl cfg = Some (Pattern n) \<longleftrightarrow>
     (if detect_steam cfg then steam_appid cl else None) = None \<and>
     (\<exists>ps p qs. game_patterns cfg = ps @ p # qs \<and> pattern_name p = n \<and> pattern_hits cl p
        \<and> \<not> list_ex (pattern_hits cl) ps)"
proof -
  have "match_pattern cl (game_patterns cfg) = find (pattern_hits cl) (game_patterns cfg)"
    by (simp add: match_pattern_def pattern_hits_def [abs_def])
  then show ?thesis
    by (auto simp: classify_def find_split split: option.splits)
qed

text \<open>
  The claims of a snapshot are exactly the claims of its processes, sorted and without
  duplicates.
\<close>

lemma claim_set_exact:
  "claim_set snap cfg = sorted_list_of_set {c. \<exists>p\<in>set (procs snap). classify (cmdline p) cfg = Some c}"
proof -
  have "sorted_list_of_set (set (claim_set snap cfg)) = claim_set snap cfg"
    using sorted_claim_set [of snap cfg] by (simp add: sorted_list_of_set.idem_if_sorted_distinct)
  then show ?thesis by (simp add: set_claim_set)
qed

section \<open>A scan of the machine\<close>

text \<open>A command line as the kernel stores it: every argument ended by a NUL.\<close>

definition argv_bytes :: "string list \<Rightarrow> string" where
  "argv_bytes args = concat (map (\<lambda>a. a @ [CHR 0x00]) args)"

text \<open>
  \<open>/proc\<close> shows the processes \<open>ps\<close>: its numeric entries are their ids, among whatever other entries,
  and the command line of each reads as its arguments, or cannot be read (\<open>None\<close>): the process has
  gone, or may not be looked at.
\<close>

definition reads_as :: "'w os \<Rightarrow> int \<Rightarrow> string list option \<Rightarrow> bool" where
  "reads_as E i al \<longleftrightarrow>
     (case al of
        None \<Rightarrow> (\<forall>w. \<exists>e. fst (os_read_file E (''/proc/'' @ show_int i @ ''/cmdline'') w) = Inl e)
      | Some args \<Rightarrow> list_all (\<lambda>a. CHR 0x00 \<notin> set a) args \<and> utf8_valid (argv_bytes args)
          \<and> (\<forall>w. fst (os_read_file E (''/proc/'' @ show_int i @ ''/cmdline'') w) = Inr (argv_bytes args)))"

definition entry_pid :: "string \<Rightarrow> int option" where
  "entry_pid name = (if utf8_valid name then parse_i32 name else None)"

definition shows_procs :: "'w os \<Rightarrow> (int \<times> string list option) list \<Rightarrow> bool" where
  "shows_procs E ps \<longleftrightarrow>
     (\<forall>w. \<exists>names. fst (os_read_dir E ''/proc'' w) = Inr names \<and> List.map_filter entry_pid names = map fst ps)
     \<and> list_all (\<lambda>(i, al). reads_as E i al) ps"

text \<open>The command line the classifier gets to see.\<close>

definition visible_line :: "string list option \<Rightarrow> string option" where
  "visible_line al =
     (case al of
        None \<Rightarrow> None
      | Some args \<Rightarrow> (let said = filter (\<lambda>a. a \<noteq> []) args in if said = [] then None else Some (str_join '' '' said)))"

lemma utf8_lossy_valid: "utf8_error i s = None \<Longrightarrow> utf8_lossy s = s"
proof (induction i s rule: utf8_error.induct)
  case (2 i a s)
  obtain n ok where st: "utf8_step a s = (n, ok)" by fastforce
  with 2 show ?case by (auto split: if_splits)
qed simp

lemma flatten_argv:
  assumes "utf8_valid (argv_bytes args)" and "list_all (\<lambda>a. CHR 0x00 \<notin> set a) args"
  shows "flatten_cmdline (argv_bytes args) = str_join '' '' (filter (\<lambda>a. a \<noteq> []) args)"
proof -
  have "split_on (CHR 0x00) (argv_bytes args) = args @ [[]]"
    using assms(2)
  proof (induction args)
    case Nil
    then show ?case by (simp add: argv_bytes_def split_on_no)
  next
    case (Cons a args)
    then show ?case
      using split_on_append [of "CHR 0x00" a "argv_bytes args"] by (simp add: argv_bytes_def)
  qed
  then show ?thesis
    using utf8_lossy_valid assms(1) by (simp add: flatten_cmdline_def utf8_valid_def)
qed

lemma str_join_Nil: "list_all (\<lambda>a. a \<noteq> []) xs \<Longrightarrow> str_join '' '' xs = [] \<longleftrightarrow> xs = []"
  by (cases "('' '', xs)" rule: str_join.cases) auto

text \<open>The entries of the snapshot, and the scan as a whole.\<close>

definition seen_procs :: "(int \<times> string list option) list \<Rightarrow> proc_info list" where
  "seen_procs ps = List.map_filter
     (\<lambda>(i, al). map_option (\<lambda>l. \<lparr> pi_pid = i, cmdline = l \<rparr>) (visible_line al)) ps"

lemma seen_procs_Cons:
  "seen_procs ((i, al) # ps) = (case visible_line al of None \<Rightarrow> seen_procs ps
     | Some l \<Rightarrow> \<lparr> pi_pid = i, cmdline = l \<rparr> # seen_procs ps)"
  by (simp add: seen_procs_def map_filter_simps split: option.split)

lemma entry_seen:
  assumes "reads_as E i al"
  shows "wp (host_call (os_read_file E (''/proc/'' @ show_int i @ ''/cmdline''))) (\<lambda>raw _. \<forall>out.
      (case raw of Inl _ \<Rightarrow> out | Inr bytes \<Rightarrow> if flatten_cmdline bytes = [] then out
         else \<lparr> pi_pid = i, cmdline = flatten_cmdline bytes \<rparr> # out)
      = (case visible_line al of None \<Rightarrow> out | Some l \<Rightarrow> \<lparr> pi_pid = i, cmdline = l \<rparr> # out)) h"
proof (cases al)
  case None
  then obtain e where "fst (os_read_file E (''/proc/'' @ show_int i @ ''/cmdline'') (hworld h)) = Inl e"
    using assms unfolding reads_as_def by auto
  then show ?thesis
    using None by (auto simp: wp_host_call visible_line_def split: prod.splits)
next
  case (Some args)
  then have "fst (os_read_file E (''/proc/'' @ show_int i @ ''/cmdline'') (hworld h)) = Inr (argv_bytes args)"
      "flatten_cmdline (argv_bytes args) = str_join '' '' (filter (\<lambda>a. a \<noteq> []) args)"
    using assms flatten_argv by (auto simp: reads_as_def)
  then show ?thesis
    using Some str_join_Nil [of "filter (\<lambda>a. a \<noteq> []) args"]
    by (auto simp: wp_host_call visible_line_def Let_def list_all_iff split: prod.splits)
qed

lemma entries_seen:
  assumes "List.map_filter entry_pid names = map fst ps" and "list_all (\<lambda>(i, al). reads_as E i al) ps"
  shows "wp (scan_entries E names) (\<lambda>out _. out = seen_procs ps) h"
  using assms
proof (induction names arbitrary: ps h)
  case Nil
  then show ?case by (simp add: wp_simps seen_procs_def map_filter_simps)
next
  case (Cons name names)
  show ?case
  proof (cases "entry_pid name")
    case None
    then have "scan_entries E (name # names) = scan_entries E names"
      by (simp add: entry_pid_def)
    with Cons None show ?thesis by (simp add: map_filter_simps)
  next
    case (Some i)
    with Cons.prems obtain al qs where ps: "ps = (i, al) # qs" "List.map_filter entry_pid names = map fst qs"
      by (cases ps) (auto simp: map_filter_simps)
    with Cons.prems have r: "reads_as E i al" "list_all (\<lambda>(i, al). reads_as E i al) qs" by simp_all
    have pid: "(if utf8_valid name then parse_i32 name else None) = Some i"
      using Some by (simp only: entry_pid_def)
    show ?thesis
      unfolding scan_entries.simps pid option.case wp_bind ps(1) seen_procs_Cons
      by (rule wp_mono [OF entry_seen [OF r(1)]], rule wp_mono [OF Cons.IH [OF ps(2) r(2)]])
        (simp only: wp_return)
  qed
qed

lemma scan_claims_shown:
  assumes "os_platform E = Linux" and "shows_procs E ps"
  shows "fst (run_state (scan_claims E cfg) h) = Inr (sorted_list_of_set
    {c. \<exists>(i, al)\<in>set ps. \<exists>l. visible_line al = Some l \<and> classify l cfg = Some c})"
proof -
  have claims: "claim_set \<lparr> procs = seen_procs ps \<rparr> cfg = sorted_list_of_set
      {c. \<exists>(i, al)\<in>set ps. \<exists>l. visible_line al = Some l \<and> classify l cfg = Some c}"
    unfolding claim_set_exact
    by (rule arg_cong [where f = sorted_list_of_set])
      (force simp: seen_procs_def map_filter_def split_def)
  obtain names where names: "fst (os_read_dir E ''/proc'' (hworld h)) = Inr names"
      "List.map_filter entry_pid names = map fst ps"
    using assms(2) unfolding shows_procs_def by blast
  have "wp (scan_entries E names) (\<lambda>out _. out = seen_procs ps) s" for s
    using entries_seen [OF names(2), of E s] assms(2) by (simp add: shows_procs_def)
  then have "wp (scan_entries E names) (\<lambda>out. wp (State_Monad.return (Inr out :: reconcile_error + _))
      (\<lambda>r _. r = Inr (seen_procs ps))) s" for s
    by (rule wp_mono) (simp add: wp_return)
  then have "wp (scan_proc E) (\<lambda>r _. r = Inr (seen_procs ps)) h"
    using names(1) by (auto simp: scan_proc_def wp_simps split: prod.splits)
  then have "wp (scan_claims E cfg) (\<lambda>r _. r = Inr (claim_set \<lparr> procs = seen_procs ps \<rparr> cfg)) h"
    using assms(1) by (auto simp: scan_claims_def observe_def wp_simps Let_def elim!: wp_mono)
  then show ?thesis
    unfolding claims by (auto simp: wp_def split: prod.splits)
qed

text \<open>
  C37: On Linux a scan finds every game and nothing else. Whatever else is in \<open>/proc\<close>, the claims are the
  sorted claims, each once, of the processes whose command line can be read, classified on their
  arguments joined by single spaces, the empty ones left out; and processes that are gone or have no
  command line cost nothing but themselves.
\<close>

theorem scan_finds_every_game:
  assumes "os_platform E = Linux" and "shows_procs E ps"
  shows "fst (run_state (scan_claims E cfg) h) = Inr (sorted_list_of_set
    {c. \<exists>(i, al)\<in>set ps. \<exists>l. visible_line al = Some l \<and> classify l cfg = Some c})"
  by (rule scan_claims_shown [OF assms])

text \<open>A machine with a game, a process that has just gone and a kernel thread.\<close>

definition sample_procs_shown :: "(int \<times> string list option) list" where
  "sample_procs_shown = [(9, Some [''reaper'', [], ''SteamLaunch AppId=440'']), (12, None), (2, Some [])]"

definition proc_os :: "sample_world os" where
  "proc_os = (sample_os Linux)
     \<lparr> os_read_dir := (\<lambda>_ w. (Inr [''self'', ''9'', ''12'', ''2'', ''uptime''], 1000, w)),
       os_read_file := (\<lambda>f w. (if f = ''/proc/9/cmdline'' then Inr (argv_bytes [''reaper'', [], ''SteamLaunch AppId=440''])
          else if f = ''/proc/2/cmdline'' then Inr [] else Inl not_found, 1000, w)) \<rparr>"

lemma sample_shown: "shows_procs proc_os sample_procs_shown"
proof -
  have "List.map_filter entry_pid [''self'', ''9'', ''12'', ''2'', ''uptime''] = map fst sample_procs_shown"
    by code_simp
  moreover have "show_int 9 = ''9''" "show_int 12 = ''12''" "show_int 2 = ''2''" by code_simp+
  moreover have "utf8_valid (argv_bytes [''reaper'', [], ''SteamLaunch AppId=440''])" "utf8_valid (argv_bytes [])"
    by code_simp+
  ultimately show ?thesis
    by (simp add: shows_procs_def reads_as_def proc_os_def sample_procs_shown_def) (simp add: argv_bytes_def)
qed

theorem scan_finds_every_game_witness:
  "fst (run_state (scan_claims proc_os (default_config Linux)) (sample_host (idle_world [] []))) = Inr [Steam ''440'']"
proof -
  have linux: "os_platform proc_os = Linux" by (simp add: proc_os_def sample_os_def)
  have "visible_line (Some [''reaper'', [], ''SteamLaunch AppId=440'']) = Some ''reaper SteamLaunch AppId=440''"
      "visible_line None = None" "visible_line (Some []) = None"
      "classify ''reaper SteamLaunch AppId=440'' (default_config Linux) = Some (Steam ''440'')"
    by code_simp+
  then have "{c. \<exists>(i, al)\<in>set sample_procs_shown. \<exists>l. visible_line al = Some l
      \<and> classify l (default_config Linux) = Some c} = {Steam ''440''}"
    by (auto simp: sample_procs_shown_def)
  then show ?thesis
    using scan_finds_every_game [OF linux sample_shown, of "default_config Linux" "sample_host (idle_world [] [])"] by simp
qed

text \<open>
  The two scanners do not flatten alike: Linux drops empty arguments and Windows keeps them, as a
  doubled space, so a pattern that spans arguments can match on one platform only. Neither trims the
  white space at the ends.
\<close>

theorem flattening_differs:
  "flatten_cmdline (argv_bytes ['' game'', [], ''x'']) = '' game x''
   \<and> map_option cmdline (process_entry (7, ['' game'', [], ''x''], None)) = Some '' game  x''"
  by code_simp

section \<open>Cgroups\<close>

text \<open>A path segment as systemd writes it: no separator of the file format occurs in it.\<close>

definition plain_segment :: "string \<Rightarrow> bool" where
  "plain_segment s \<longleftrightarrow> s \<noteq> [] \<and> CHR ''/'' \<notin> set s \<and> CHR '':'' \<notin> set s
     \<and> newline \<notin> set s \<and> CHR 0x0D \<notin> set s"

lemma cgroup_line_segments:
  assumes "list_all plain_segment segs"
  shows "unit_from_cgroup_line (cgroup_line segs)
    = (case dropWhile (\<lambda>s. s \<noteq> ''system.slice'') segs of [] \<Rightarrow> None | _ # below \<Rightarrow> find unit_suffix (rev below))"
proof -
  have "list_all (\<lambda>s. CHR '':'' \<notin> set s) segs" "list_all (\<lambda>s. CHR ''/'' \<notin> set s \<and> s \<noteq> []) segs"
    using assms by (auto simp: plain_segment_def list_all_iff)
  then show ?thesis
    by (simp add: unit_from_cgroup_line_def cgroup_line_path segments_path)
qed

lemma cgroup_line_one_line:
  assumes "list_all plain_segment segs" and "segs \<noteq> []"
  shows "str_lines (cgroup_line segs @ [newline]) = [cgroup_line segs]"
proof -
  have nl: "newline \<notin> set (cgroup_line segs)"
    using assms(1) by (auto simp: cgroup_line_def plain_segment_def list_all_iff newline_def)
  have cr: "CHR 0x0D \<notin> set (cgroup_line segs)"
    using assms(1) by (auto simp: cgroup_line_def plain_segment_def list_all_iff)
  have "strip_cr (cgroup_line segs) = cgroup_line segs"
    using cr by (auto simp: strip_cr_def dest: last_in_set)
  then show ?thesis
    using split_on_append [OF nl, of "[]"] by (simp add: str_lines_def)
qed

text \<open>
  Parsing the cgroup file of a process below \<open>system.slice\<close> gives back the unit systemd put
  it in: the deepest \<open>.service\<close> or \<open>.scope\<close> segment, whatever slices lie above it and whatever
  other segments lie below it.
\<close>

lemma unit_from_cgroup_deepest:
  assumes "list_all plain_segment (outer @ ''system.slice'' # slices @ u # below)"
    and "''system.slice'' \<notin> set outer" and "unit_suffix u" and "\<not> list_ex unit_suffix below"
  shows "unit_from_cgroup (cgroup_line (outer @ ''system.slice'' # slices @ u # below) @ [newline])
    = Some u"
proof -
  let ?segs = "outer @ ''system.slice'' # slices @ u # below"
  have "dropWhile (\<lambda>s. s \<noteq> ''system.slice'') ?segs = ''system.slice'' # slices @ u # below"
    using assms(2) by (auto simp: dropWhile_append3 dropWhile_append2)
  moreover have "find unit_suffix (rev (slices @ u # below)) = Some u"
    using assms(3,4) unfolding find_split
    by (intro exI [of _ "rev below"] exI [of _ "rev slices"]) (simp add: list_ex_iff)
  ultimately have "unit_from_cgroup_line (cgroup_line ?segs) = Some u"
    using cgroup_line_segments [OF assms(1)] by simp
  then show ?thesis
    using cgroup_line_one_line [OF assms(1)] by (simp add: unit_from_cgroup_def map_filter_def)
qed

section \<open>GPU queries\<close>

lemma str_trim_id: "ws_len s = 0 \<Longrightarrow> ws_len_rev (rev s) = 0 \<Longrightarrow> str_trim s = s"
  by (simp add: str_trim_def trim_end_def trim_start.simps [of s] trim_start_rev.simps [of "rev s"])

lemma ws_len_ascii: "33 \<le> byte c \<Longrightarrow> byte c < 128 \<Longrightarrow> ws_len (c # s) = 0"
  by (cases s rule: list.exhaust; cases "tl s") (auto simp: ws1_def ws2_def ws3_def)

lemma ws_len_rev_ascii: "33 \<le> byte c \<Longrightarrow> byte c < 128 \<Longrightarrow> ws_len_rev (c # s) = 0"
  by (cases s rule: list.exhaust; cases "tl s") (auto simp: ws1_def ws2_def ws3_def)

definition inked :: "string \<Rightarrow> bool" where
  "inked s \<longleftrightarrow> s \<noteq> [] \<and> 33 \<le> byte (hd s) \<and> byte (hd s) < 128 \<and> 33 \<le> byte (last s) \<and> byte (last s) < 128"

lemma str_trim_inked: "inked s \<Longrightarrow> str_trim s = s"
proof (rule str_trim_id)
  assume s: "inked s"
  then show "ws_len s = 0"
    by (cases s) (simp_all add: inked_def ws_len_ascii)
  from s show "ws_len_rev (rev s) = 0"
    by (cases s rule: rev_cases) (simp_all add: inked_def ws_len_rev_ascii)
qed

lemma str_trim_space: "str_trim (CHR '' '' # s) = str_trim s"
proof -
  have "ws_len (CHR '' '' # s) = 1"
    by (cases s rule: list.exhaust; cases "tl s") (auto simp: ws1_def byte_def)
  then show ?thesis by (simp add: str_trim_def trim_start.simps [of "CHR '' '' # s"])
qed

lemma inked_show_nat: "inked (show_nat n)"
proof -
  have "is_digit (hd (show_nat n))" "is_digit (last (show_nat n))"
    using show_nat_digits [of n] by (simp_all add: list_all_iff)
  then show ?thesis by (auto simp: inked_def is_digit_def)
qed

lemma inked_append: "inked a \<Longrightarrow> inked b \<Longrightarrow> inked (a @ s @ b)"
  by (simp add: inked_def)

lemma parse_u64_unat: "parse_u64 (show_nat (unat a)) = Some a"
proof -
  have "unat a < 2 ^ LENGTH(64)" by (rule unsigned_less)
  then show ?thesis by (simp add: parse_u64_show_nat)
qed

lemma digits_free: "list_all is_digit s \<Longrightarrow> \<not> is_digit c \<Longrightarrow> c \<notin> set s"
  by (auto simp: list_all_iff)

lemma str_lines_cons:
  assumes "newline \<notin> set l" and "CHR 0x0D \<notin> set l"
  shows "str_lines (l @ newline # s) = l # str_lines s"
proof -
  have "strip_cr l = l" using assms(2) by (auto simp: strip_cr_def dest: last_in_set)
  then show ?thesis
    using split_on_append [OF assms(1), of s] by (simp add: str_lines_def Let_def)
qed

text \<open>
  The memory line of \<open>nvidia-smi\<close> parses back to the two sizes it prints, for all 64-bit
  values.
\<close>

theorem parse_memory_csv_roundtrip:
  "parse_memory_csv (show_nat (unat a) @ '', '' @ show_nat (unat b) @ [newline])
     = Inr \<lparr> used_mb = a, total_mb = b \<rparr>"
proof -
  let ?a = "show_nat (unat a)" and ?b = "show_nat (unat b)"
  let ?line = "?a @ '', '' @ ?b"
  have nd: "c \<notin> set ?a" "c \<notin> set ?b" if "\<not> is_digit c" for c
    using digits_free [OF show_nat_digits that] by blast+
  have nl: "newline \<notin> set ?line" and cr: "CHR 0x0D \<notin> set ?line"
    using nd [of newline] nd [of "CHR 0x0D"] by (auto simp: newline_def is_digit_def byte_def)
  have "str_lines (?line @ [newline]) = [?line]"
    using str_lines_cons [OF nl cr, of "[]"] by (simp add: str_lines_def)
  moreover have "str_trim ?line = ?line"
    by (intro str_trim_inked inked_append inked_show_nat)
  moreover have "csv_cols ?line = [?a, ?b]"
  proof -
    have "CHR '','' \<notin> set ?a" "CHR '','' \<notin> set ('' '' @ ?b)"
      using nd [of "CHR '',''"] by (auto simp: is_digit_def byte_def)
    then have "split_on (CHR '','') ?line = [?a, '' '' @ ?b]"
      using split_on_append [of "CHR '',''" ?a "'' '' @ ?b"] by (simp add: split_on_no)
    then show ?thesis
      by (simp add: str_trim_inked inked_show_nat str_trim_space)
  qed
  ultimately show ?thesis
    by (simp add: parse_memory_csv_def parse_u64_unat)
qed

text \<open>One row of the compute-process table as \<open>nvidia-smi\<close> prints it.\<close>

definition proc_row :: "gpu_compute_proc \<Rightarrow> string" where
  "proc_row p = show_nat (nat (pid p)) @ '', '' @ proc_name p @ '', '' @ show_nat (unat (vram_mb p))"

definition printable_proc :: "gpu_compute_proc \<Rightarrow> bool" where
  "printable_proc p \<longleftrightarrow> 0 \<le> pid p \<and> pid p < 2 ^ 31 \<and> inked (proc_name p) \<and> owning_unit p = None
     \<and> CHR '','' \<notin> set (proc_name p) \<and> newline \<notin> set (proc_name p) \<and> CHR 0x0D \<notin> set (proc_name p)"

lemma starts_with_digits: "list_all is_digit s \<Longrightarrow> \<not> starts_with s ''-''"
  by (cases s) (auto simp: starts_with_def is_digit_def byte_def)

lemma parse_proc_row:
  assumes "printable_proc p"
  shows "parse_proc_line (proc_row p) = Some p"
proof -
  let ?i = "show_nat (nat (pid p))" and ?v = "show_nat (unat (vram_mb p))"
  have line: "str_trim (proc_row p) = proc_row p"
    unfolding proc_row_def
    using inked_append [OF inked_show_nat inked_show_nat, of "nat (pid p)" "'', '' @ proc_name p @ '', ''"]
    by (simp add: str_trim_inked)
  have nd: "CHR '','' \<notin> set ?i" "CHR '','' \<notin> set ('' '' @ ?v)"
    using digits_free [OF show_nat_digits, of "CHR '',''"] by (auto simp: is_digit_def byte_def)
  have nm: "CHR '','' \<notin> set ('' '' @ proc_name p)"
    using assms by (simp add: printable_proc_def)
  have "split_on (CHR '','') (proc_row p) = [?i, '' '' @ proc_name p, '' '' @ ?v]"
    using split_on_append [OF nd(1), of "'' '' @ proc_name p @ '','' @ '' '' @ ?v"]
      split_on_append [OF nm, of "'' '' @ ?v"] split_on_no [OF nd(2)]
    by (simp add: proc_row_def)
  then have cols: "csv_cols (proc_row p) = [?i, proc_name p, ?v]"
    using assms by (simp add: str_trim_inked inked_show_nat str_trim_space printable_proc_def)
  have "parse_i32 ?i = Some (pid p)"
    using assms starts_with_digits [OF show_nat_digits]
    by (simp add: parse_i32_def strip_plus_digits show_nat_digits parse_digits_show_nat printable_proc_def
        nat_less_iff)
  moreover have "proc_row p \<noteq> []" by (simp add: proc_row_def)
  moreover have "p = \<lparr> pid = pid p, proc_name = proc_name p, vram_mb = vram_mb p, owning_unit = None \<rparr>"
    using assms by (cases p) (simp add: printable_proc_def)
  ultimately show ?thesis
    by (simp add: parse_proc_line_def line cols parse_u64_unat
        del: csv_cols.simps)
qed

text \<open>
  The compute-process table of \<open>nvidia-smi\<close> parses back to the rows it prints, in order, for
  process ids and sizes in range and any names without a separator.
\<close>

theorem parse_compute_procs_roundtrip:
  assumes "list_all printable_proc ps"
  shows "parse_compute_procs_csv (concat (map (\<lambda>p. proc_row p @ [newline]) ps)) = ps"
  using assms
proof (induction ps)
  case Nil
  then show ?case by (simp add: parse_compute_procs_csv_def str_lines_def map_filter_def)
next
  case (Cons p ps)
  have nd: "c \<notin> set (show_nat n)" if "c = newline \<or> c = CHR 0x0D" for c n
    using that digits_free [OF show_nat_digits, of c n] by (auto simp: newline_def is_digit_def byte_def)
  have "c \<notin> set (proc_row p)" if c: "c = newline \<or> c = CHR 0x0D" for c
  proof -
    have "c \<notin> set (proc_name p)" using Cons.prems c by (auto simp: printable_proc_def)
    moreover have "c \<notin> set '', ''" using c by (auto simp: newline_def)
    ultimately show ?thesis unfolding proc_row_def set_append using nd [OF c] by blast
  qed
  then have "newline \<notin> set (proc_row p)" "CHR 0x0D \<notin> set (proc_row p)" by blast+
  then show ?case
    using Cons parse_proc_row [of p]
    by (simp add: parse_compute_procs_csv_def str_lines_cons map_filter_simps)
qed

theorem parse_compute_procs_roundtrip_witness:
  "parse_compute_procs_csv (concat (map (\<lambda>p. proc_row p @ [newline])
     [\<lparr> pid = 77, proc_name = ''/usr/bin/ollama'', vram_mb = 6144, owning_unit = None \<rparr>]))
   = [\<lparr> pid = 77, proc_name = ''/usr/bin/ollama'', vram_mb = 6144, owning_unit = None \<rparr>]"
proof (rule parse_compute_procs_roundtrip)
  have "printable_proc \<lparr> pid = 77, proc_name = ''/usr/bin/ollama'', vram_mb = 6144, owning_unit = None \<rparr>"
    by (simp add: printable_proc_def inked_def byte_def newline_def)
  then show "list_all printable_proc
     [\<lparr> pid = 77, proc_name = ''/usr/bin/ollama'', vram_mb = 6144, owning_unit = None \<rparr>]" by simp
qed

text \<open>
  The VRAM attributed to a systemd unit is the sum of its processes' sizes, modulo \<open>2 ^ 64\<close>:
  the processes whose cgroup names the unit, no others, and 0 when there is none.
\<close>

theorem attribute_unit_vram_systemd:
  "map_option unat (attribute_unit_vram (Some ps) True u needle)
     = Some (sum_list (map (\<lambda>p. if owning_unit p = Some u then unat (vram_mb p) else 0) ps) mod 2 ^ 64)"
proof -
  have "unat (vram_total (filter (\<lambda>p. owning_unit p = Some u) ps))
      = sum_list (map (\<lambda>p. if owning_unit p = Some u then unat (vram_mb p) else 0) ps) mod 2 ^ 64"
    by (induction ps) (auto simp: vram_total_def unat_word_ariths mod_add_right_eq)
  then show ?thesis by (simp add: attribute_unit_vram_def unit_vram_sum_def)
qed

section \<open>Process events\<close>




section \<open>Configuration\<close>

text \<open>
  Loading accepts exactly the decoded files whose game-exit grace is at most an hour, and an
  absent file, which gives the defaults; every other read error and every decoding error is
  reported.
\<close>

theorem load_accepts:
  "load p toml read path = Inr cfg \<longleftrightarrow>
     (case read path of
        Inr s \<Rightarrow> toml s = Inr cfg \<and> game_exit_grace_s cfg \<le> 3600
      | Inl (IoError k m) \<Rightarrow> k = IO_NotFound \<and> cfg = default_config p)"
  by (auto simp: load_def from_toml_Inr MAX_GAME_EXIT_GRACE_S_def split: sum.split io_error.split)

text \<open>
  A configuration is reported as free of deprecated keys exactly when neither it nor any of
  its units sets one, and every reported key names a set one.
\<close>

theorem deprecated_keys_exact:
  "set (deprecated_keys cfg) =
     (if yield_timeout_s cfg = None then {} else {''yield_timeout_s''})
     \<union> {unit_name u @ ''.yield_cmd'' |u. u \<in> set (managed_units cfg) \<and> yield_cmd u \<noteq> None}
     \<union> {unit_name u @ ''.yield_timeout_s'' |u. u \<in> set (managed_units cfg) \<and> unit_yield_timeout_s u \<noteq> None}"
  by (auto simp: deprecated_keys_def deprecated_unit_keys_def resolved_units_def split: if_splits)

end
