(* ===== verification/Eviction_Properties.thy ===== *)
theory Eviction_Properties
  imports Eviction Sample_Host "HOL-Library.Code_Target_Nat" "HOL-Library.Code_Target_Int"
begin

text \<open>
  Properties of one eviction and of the hooks: what the daemon did to the unit, in which order,
  when it reports that the unit gave the GPU up, and how long it can take.
\<close>

section \<open>Verdicts\<close>

lemma emits_evict:
  "emits (evict E cfg b u) (\<lambda>r es. evict_trace u r es \<and> length es \<le> 4 * eviction_timeout_s cfg + 14)"
  unfolding evict_def
  by (rule emits_bind [OF emits_evict_timed]) (auto intro!: emits_return split: prod.split)

lemma evict_run:
  assumes "run_state (evict E cfg b u) h = (r, h')"
  obtains es where "hlog h' = es @ hlog h" and "evict_trace u r es"
    and "length es \<le> 4 * eviction_timeout_s cfg + 14"
  using emitsE [OF emits_evict assms] by auto

text \<open>The unit the concrete runs below evict, and the hosts they run on.\<close>

definition sample_unit :: managed_unit where
  "sample_unit = hd default_managed_units"

definition sample_evict :: "platform \<Rightarrow> sample_world \<Rightarrow> (unit_error + eviction_outcome) \<times> sample_world host" where
  "sample_evict p w =
     run_state (evict (sample_os p) (default_config p) Nvidia sample_unit) (sample_host w)"

fun controls_match :: "managed_unit \<Rightarrow> eviction_outcome \<Rightarrow> event list \<Rightarrow> bool" where
  "controls_match u AlreadyClear es = (map ev_action es = [''is-active''])"
| "controls_match u Freed es =
     (list_ex (stop_ok (unit_name u)) es \<and> ''kill'' \<notin> set (map ev_action es))"
| "controls_match u Escalated es =
     (list_ex (stop_ok (unit_name u)) es
      \<and> (kill_argv (resolve_supervisor u) = [] \<or> ''kill'' \<in> set (map ev_action es)))"

text \<open>
  C19: A reported success is real. An eviction that reports one, by whichever outcome, has seen the unit
  stopped: the last control it issued is a run-state probe of that unit that answered not active; low
  VRAM alone is never enough. And the controls match the outcome: a graceful eviction stopped the
  unit with exit status 0 and never killed it; an escalated one also killed it (unless the configured
  kill command is empty) after a successful stop; a unit found clear was only probed, once.
\<close>

theorem evict_controls_match_outcome:
  assumes "run_state (evict E cfg b u) h = (Inr out, h')"
  shows "\<exists>es. hlog h' = es @ hlog h \<and> es \<noteq> [] \<and> answers (unit_name u) (hd es) = Some False
    \<and> controls_match u out es"
proof -
  obtain es where es: "hlog h' = es @ hlog h" "evict_trace u (Inr out) es"
    using evict_run [OF assms] .
  have act: "ev_action e \<in> set A" if "acts A v e" for A v e
    using that by (cases e) auto
  have "controls_match u out es"
  proof (cases out)
    case Freed
    with es(2) have "list_all (acts [''is-active'', ''stop''] (unit_name u)) es" by simp
    then have "''kill'' \<notin> set (map ev_action es)"
      by (fastforce simp: list_all_iff dest: act)
    with Freed es(2) show ?thesis by simp
  next
    case Escalated
    with es(2) obtain post pre where "es = post @ pre"
      "kill_argv (resolve_supervisor u) = [] \<or> pre \<noteq> [] \<and> acts [''kill''] (unit_name u) (hd pre)"
      by (auto simp: escalated_trace_def)
    then have "kill_argv (resolve_supervisor u) = [] \<or> ''kill'' \<in> set (map ev_action es)"
      by (cases pre) (auto dest: act)
    with Escalated es(2) show ?thesis by simp
  next
    case AlreadyClear
    with es(2) obtain e where "es = [e]" "acts [''is-active''] (unit_name u) e"
      by (auto simp: probes_only_def length_Suc_conv)
    with AlreadyClear show ?thesis by (auto dest: act)
  qed
  with es(1) evict_trace_Inr [OF es(2)] show ?thesis by blast
qed

theorem evict_controls_match_outcome_witness:
  "\<exists>es. hlog (snd (sample_evict Linux (idle_world [''ollama.service''] [''ollama.service'']))) = es @ []
     \<and> es \<noteq> [] \<and> answers (unit_name sample_unit) (hd es) = Some False \<and> controls_match sample_unit Escalated es"
proof -
  have r: "fst (sample_evict Linux (idle_world [''ollama.service''] [''ollama.service''])) = Inr Escalated"
    by code_simp
  then show ?thesis
    using evict_controls_match_outcome [of "sample_os Linux" "default_config Linux" Nvidia sample_unit
      "sample_host (idle_world [''ollama.service''] [''ollama.service''])" Escalated
      "snd (sample_evict Linux (idle_world [''ollama.service''] [''ollama.service'']))"]
    by (simp add: sample_evict_def prod_eq_iff) (simp add: sample_host_def)
qed

text \<open>
  C20: Every eviction returns, after at most \<open>4 * T + 14\<close> controls for a timeout of \<open>T\<close> seconds,
  whatever the outside world answers, and every control it issues is a probe, a stop or a kill of
  the unit it evicts.
\<close>

theorem evict_bounded:
  "\<exists>es. hlog (snd (run_state (evict E cfg b u) h)) = es @ hlog h
     \<and> length es \<le> 4 * eviction_timeout_s cfg + 14
     \<and> list_all (acts [''is-active'', ''stop'', ''kill''] (unit_name u)) es"
proof -
  obtain r h' where run: "run_state (evict E cfg b u) h = (r, h')" by fastforce
  obtain es where "hlog h' = es @ hlog h" "evict_trace u r es"
      "length es \<le> 4 * eviction_timeout_s cfg + 14"
    using evict_run [OF run] .
  then show ?thesis
    unfolding run snd_conv by (intro exI [of _ es]) (simp add: evict_trace_acts)
qed

section \<open>The timeout\<close>

lemma poll_once_escalates:
  assumes "run_state (poll_once E cfg b u t0 seen) h = ((st, seen'), h')" and "t0 \<le> hclock h"
  shows "t0 \<le> hclock h' \<and> (st = Step_Escalate \<longrightarrow> t0 + from_secs (eviction_timeout_s cfg) \<le> hclock h')"
proof -
  let ?T = "from_secs (eviction_timeout_s cfg)"
  have esc: "?T \<le> e" if "eviction_step r e cfg = Step_Escalate" for r e
    using that by (auto simp: eviction_step_def Let_def split: if_splits)
  have pst: "st = Step_Escalate \<or> t" if "poll_step st vo rn t = Step_Escalate" for st vo rn t
    using that by (auto simp: poll_step_def split: if_splits)
  have late: "t0 + ?T \<le> c2" if "?T \<le> c1 - t0" "t0 \<le> c1" "c1 \<le> c2" for c1 c2
    using that by linarith
  have "wp (poll_once E cfg b u t0 seen) (\<lambda>(st, _) h'. t0 \<le> hclock h' \<and>
      (st = Step_Escalate \<longrightarrow> t0 + ?T \<le> hclock h')) h"
    unfolding poll_once_def Let_def wp_simps
  proof (rule wp_mono [OF wp_timed [OF timed_unit_vram_reading]], goal_cases)
    case (1 reading h1)
    then have t1: "t0 \<le> hclock h1" using assms(2) by simp
    show ?case
    proof (cases "eviction_step reading (hclock h1 - t0) cfg = Step_Freed \<or> reading = Unavailable")
      case True
      show ?thesis
        unfolding if_P [OF True] wp_simps
        by (rule wp_mono [OF wp_timed [OF timed_is_running]])
          (use t1 in \<open>auto dest!: pst esc intro: late\<close>)
    next
      case False
      then show ?thesis
        using t1 by (auto simp: wp_simps dest!: pst esc intro: late)
    qed
  qed
  from wp_run [OF this assms(1)] show ?thesis by simp
qed

text \<open>
  C21: The kill never comes early: the polling after a successful stop gives up only once the
  configured timeout has passed since it began.
\<close>

theorem drain_escalates_after_timeout:
  assumes "run_state (drain E cfg b u) h = (Step_Escalate, h')"
  shows "hclock h + from_secs (eviction_timeout_s cfg) \<le> hclock h'"
proof -
  let ?t0 = "hclock h"
  let ?I = "\<lambda>x. ?t0 \<le> hclock (snd x)"
  let ?Q = "\<lambda>st x. st = Step_Escalate \<longrightarrow> ?t0 + from_secs (eviction_timeout_s cfg) \<le> hclock (snd x)"
  have round: "?t0 \<le> hclock (snd x1) \<and> (r = Some Step_Escalate \<longrightarrow>
      ?t0 + from_secs (eviction_timeout_s cfg) \<le> hclock (snd x1))"
    if i: "?I x" and r: "evict_round E cfg b u ?t0 x = (r, x1)" for x r x1
  proof -
    obtain v s2 h2 where p: "run_state (poll_once E cfg b u ?t0 (fst x)) (snd x) = ((v, s2), h2)"
      by (metis prod.collapse)
    from poll_once_escalates [OF p i] r p show ?thesis
      by (auto simp: evict_round_def split: if_splits)
  qed
  have 0: "?I (False, h)" by simp
  have 1: "?I (fst x1, poll_pause E (snd x1))"
    if "?I x" and "evict_round E cfg b u ?t0 x = (None, x1)" for x x1
    using round [OF that] poll_pause_clock [of "snd x1" E] by simp
  have 2: "?Q v x1" if "?I x" and "evict_round E cfg b u ?t0 x = (Some v, x1)" for x v x1
    using round [OF that] by simp
  show ?thesis
    using draining.loop_invariant [of ?I "(False, h)" E cfg b u ?t0 ?Q Step_Escalate "(False, h')", OF 0 1 2]
      assms by (simp add: drain_def now_def)
qed

theorem drain_escalates_after_timeout_witness:
  "(0::nat) + from_secs 5 \<le> hclock (snd (run_state (drain (sample_os Linux) (default_config Linux) Nvidia sample_unit)
     (sample_host (idle_world [''ollama.service''] [''ollama.service'']))))"
proof -
  have r: "fst (run_state (drain (sample_os Linux) (default_config Linux) Nvidia sample_unit)
     (sample_host (idle_world [''ollama.service''] [''ollama.service'']))) = Step_Escalate"
    by code_simp
  show ?thesis
    using drain_escalates_after_timeout [of "sample_os Linux" "default_config Linux" Nvidia sample_unit
      "sample_host (idle_world [''ollama.service''] [''ollama.service''])"
      "snd (run_state (drain (sample_os Linux) (default_config Linux) Nvidia sample_unit)
       (sample_host (idle_world [''ollama.service''] [''ollama.service''])))"] r
    by (simp add: prod_eq_iff) (simp add: sample_host_def default_config_def)
qed

section \<open>A failed stop\<close>

text \<open>
  When the stop command fails, the unit is not left holding the GPU in silence: the eviction
  is an error, and unless a probe then says the unit is stopped, the kill is issued (if its
  configured command is not empty).
\<close>

theorem stop_failed_kills:
  "\<exists>es. hlog (snd (run_state (stop_failed E u t e) h)) = es @ hlog h
     \<and> fst (fst (run_state (stop_failed E u t e) h)) = Inl e
     \<and> (list_ex (\<lambda>x. answers (unit_name u) x = Some False) es
        \<or> kill_argv (resolve_supervisor u) = []
        \<or> list_ex (acts [''kill''] (unit_name u)) es)"
proof -
  let ?k = "kill_argv (resolve_supervisor u) = []"
  let ?P = "\<lambda>x es. fst x = Inl e \<and> (list_ex (\<lambda>x. answers (unit_name u) x = Some False) es \<or> ?k
        \<or> list_ex (acts [''kill''] (unit_name u)) es)"
  have fin: "emits (elapsed_since t \<bind> (\<lambda>secs. State_Monad.return (Inl e, Some secs)))
      (\<lambda>x fs. ?P x (fs @ es))"
    if "list_ex (\<lambda>x. answers (unit_name u) x = Some False) es \<or> ?k
        \<or> list_ex (acts [''kill''] (unit_name u)) es" for es
    using that by (intro emits_bind_quiet quiet_elapsed_since emits_return) simp
  have kill: "emits (if c then kill_unit E (resolve_supervisor u) (unit_name u)
        \<bind> (\<lambda>k. State_Monad.return ()) else State_Monad.return ())
      (\<lambda>_ es. c \<longrightarrow> ?k \<or> list_ex (acts [''kill''] (unit_name u)) es)" for c
  proof (cases c)
    case True
    have "?k \<or> list_ex (acts [''kill''] (unit_name u)) es"
      if "list_all (acts [''kill''] (unit_name u)) es" "?k \<or> es \<noteq> []" for es
      using that by (cases es) auto
    note K = this
    show ?thesis
      unfolding if_P [OF True]
    proof (rule emits_bind [OF emits_kill], rule emits_return, goal_cases)
      case (1 k es)
      then show ?case using K [of es] by auto
    qed
  qed (simp add: emits_return)
  have "emits (stop_failed E u t e) ?P"
    unfolding stop_failed_def
  proof (rule emits_bind [OF emits_is_running], rule emits_bind [OF kill], goal_cases)
    case (1 r es x fs)
    have "list_ex (\<lambda>x. answers (unit_name u) x = Some False) es \<or> unwrap_or r True"
    proof (cases r)
      case (Inr up)
      with 1(1) show ?thesis by (cases up) auto
    qed simp
    then have "list_ex (\<lambda>x. answers (unit_name u) x = Some False) (fs @ es) \<or> ?k
        \<or> list_ex (acts [''kill''] (unit_name u)) (fs @ es)"
      using 1(2) by auto
    from fin [OF this] show ?case by simp
  qed
  from emitsE [OF this, of h] show ?thesis
    by (metis (no_types, lifting) prod.collapse)
qed

section \<open>Trust in a VRAM reading\<close>

text \<open>
  A VRAM reading is attributed to the unit only on a platform and back end that can attribute
  it, and an attributed zero counts only once this eviction has seen the unit hold VRAM: before
  that, zero means that attribution is blind to the unit.
\<close>

theorem attributed_reading_is_trusted:
  assumes "run_state (unit_vram_reading E u b is_systemd capable seen_nonzero) h = (Attributed mb, h')"
  shows "os_platform E \<noteq> Windows \<and> b = Nvidia \<and> capable \<and> (mb = 0 \<longrightarrow> seen_nonzero)"
proof -
  have trust: "\<exists>v. a = Some v \<and> (v = 0 \<longrightarrow> n)" if "attribution_is_trustworthy a n" for a n
    using that trustworthy_zero [of n] by (auto simp: attribution_is_trustworthy_def split: option.splits)
  have none: "\<not> attribution_is_trustworthy None n" for n
    by (simp add: attribution_is_trustworthy_def)
  have "wp (unit_vram_reading E u b is_systemd capable seen_nonzero) (\<lambda>r _. case r of
      Attributed mb \<Rightarrow> os_platform E \<noteq> Windows \<and> b = Nvidia \<and> capable \<and> (mb = 0 \<longrightarrow> seen_nonzero)
    | _ \<Rightarrow> True) h"
  proof (cases "os_platform E = Windows")
    case False
    have fb: "wp (query_memory E b \<bind> (\<lambda>m. State_Monad.return (Fallback (ok_of m))))
        (\<lambda>r _. case r of Attributed mb \<Rightarrow> P mb | _ \<Rightarrow> True) s" for s P
      unfolding wp_simps by (rule wp_mono [OF wp_True]) simp
    show ?thesis
    proof (cases "capable \<and> attribution_capable b")
      case True
      have fin: "wp (if attribution_is_trustworthy a seen_nonzero
           then State_Monad.return (Attributed (case a of None \<Rightarrow> 0 | Some mb \<Rightarrow> mb))
           else query_memory E b \<bind> (\<lambda>m. State_Monad.return (Fallback (ok_of m))))
         (\<lambda>r _. case r of
            Attributed mb \<Rightarrow> os_platform E \<noteq> Windows \<and> b = Nvidia \<and> capable \<and> (mb = 0 \<longrightarrow> seen_nonzero)
          | _ \<Rightarrow> True) s" for a s
        using True False fb trust [of a seen_nonzero]
        by (auto simp: wp_simps attribution_capable_def)
      show ?thesis
        unfolding unit_vram_reading_def if_not_P [OF False] if_P [OF True] wp_bind
        by (rule wp_mono [OF wp_True], unfold wp_return, rule fin)
    next
      case F: False
      show ?thesis
        unfolding unit_vram_reading_def if_not_P [OF False] if_not_P [OF F] wp_bind wp_return
          if_not_P [OF none]
        by (rule wp_mono [OF wp_True]) simp
    qed
  qed (simp add: unit_vram_reading_def wp_simps)
  from wp_run [OF this assms] show ?thesis by simp
qed

definition reporting_os :: "sample_world os" where
  "reporting_os = (sample_os MacOS)\<lparr> os_run := (\<lambda>_ _ w. (Exited (Some 0) ''7, ollama, 500'' [], 1, w)) \<rparr>"

theorem attributed_reading_is_trusted_witness:
  "fst (run_state (unit_vram_reading reporting_os sample_unit Nvidia False True False)
     (sample_host (idle_world [] []))) = Attributed 500 \<and> os_platform reporting_os \<noteq> Windows"
proof -
  let ?m = "unit_vram_reading reporting_os sample_unit Nvidia False True False"
  have r: "fst (run_state ?m (sample_host (idle_world [] []))) = Attributed 500" by code_simp
  then have "run_state ?m (sample_host (idle_world [] []))
      = (Attributed 500, snd (run_state ?m (sample_host (idle_world [] []))))"
    by (simp add: prod_eq_iff)
  from attributed_reading_is_trusted [OF this] r show ?thesis by simp
qed

section \<open>Durations\<close>

lemma timed_State_loops [host_intros]:
  "timed (State (evict_loop E cfg b u t0 seen))" "timed (wait_until_stopped E u budget)"
proof -
  show "timed (State (evict_loop E cfg b u t0 seen))"
    unfolding timed_def
  proof
    fix h
    show "hclock h \<le> hclock (snd (run_state (State (evict_loop E cfg b u t0 seen)) h))"
      using draining.loop_clk [of E cfg b u t0 "(seen, h)"]
      by (cases "evict_loop E cfg b u t0 seen h") simp
  qed
  show "timed (wait_until_stopped E u budget)"
    unfolding timed_def
  proof
    fix h
    show "hclock h \<le> hclock (snd (run_state (wait_until_stopped E u budget) h))"
      using settling.loop_clk [of E u budget "hclock h" h]
      by (cases "wait_until_stopped_from E u budget (hclock h) h") (simp add: wait_until_stopped_def)
  qed
qed

lemma timed_drain [host_intros]: "timed (drain E cfg b u)"
  by (auto simp: drain_def intro!: host_intros)

text \<open>\<open>clocked t0 m\<close>: the stop duration \<open>m\<close> returns, if any, is the time since \<open>t0\<close>.\<close>

definition clocked :: "time \<Rightarrow> ('w host, 'r \<times> rat option) state \<Rightarrow> bool" where
  "clocked t0 m \<longleftrightarrow> (\<forall>h. wp m (\<lambda>(_, st) h'. hclock h \<le> hclock h' \<and>
     st = Some (secs_of (hclock h' - t0))) h)"

lemma clocked_bind: "timed m \<Longrightarrow> (\<And>a. clocked t0 (f a)) \<Longrightarrow> clocked t0 (m \<bind> f)"
  unfolding clocked_def wp_bind
  apply (intro allI)
  apply (rule wp_mono [OF wp_timed], assumption)
  apply (drule meta_spec, drule spec)
  apply (erule wp_mono)
  apply auto
  done

lemma clocked_elapsed: "clocked t0 (elapsed_since t0 \<bind> (\<lambda>secs. State_Monad.return (r secs, Some secs)))"
  by (simp add: clocked_def elapsed_since_def wp_simps)

lemma clocked_elapsed_if:
  "clocked t0 (elapsed_since t0 \<bind> (\<lambda>secs. State_Monad.return
     (if c then (r secs, Some secs) else (r' secs, Some secs))))"
  by (cases c) (simp_all add: clocked_elapsed)

lemma clocked_stop_failed: "clocked t0 (stop_failed E u t0 e)"
  unfolding stop_failed_def
  by (intro clocked_bind clocked_elapsed) (auto intro!: host_intros)

lemma clocked_if: "clocked t0 m \<Longrightarrow> clocked t0 m' \<Longrightarrow> clocked t0 (if c then m else m')"
  by simp

lemma clocked_escalate: "clocked t0 (escalate E u t0)"
  unfolding escalate_def
  by (intro clocked_bind [OF timed_is_running] clocked_if clocked_elapsed
      clocked_bind [OF timed_kill_unit] clocked_bind [OF timed_State_loops(2)] clocked_elapsed_if)

lemma clocked_case: "(\<And>e. clocked t0 (f e)) \<Longrightarrow> (\<And>a. clocked t0 (g a)) \<Longrightarrow>
  clocked t0 (case r of Inl e \<Rightarrow> f e | Inr a \<Rightarrow> g a)"
  by (cases r) simp_all

lemma clocked_stopping:
  "clocked t0 (stop_unit E sv n \<bind> (\<lambda>stop. case stop of
       Inl e \<Rightarrow> stop_failed E u t0 e
     | Inr (code, sout, serr) \<Rightarrow>
         if code \<noteq> Some 0 then stop_failed E u t0 (g code sout serr)
         else drain E cfg b u \<bind> (\<lambda>step. if step = Step_Freed
           then elapsed_since t0 \<bind> (\<lambda>secs. State_Monad.return (Inr Freed, Some secs))
           else escalate E u t0)))"
proof -
  have "clocked t0 (case x of (code, sout, serr) \<Rightarrow>
         if code \<noteq> Some 0 then stop_failed E u t0 (g code sout serr)
         else drain E cfg b u \<bind> (\<lambda>step. if step = Step_Freed
           then elapsed_since t0 \<bind> (\<lambda>secs. State_Monad.return (Inr Freed, Some secs))
           else escalate E u t0))" for x
    by (cases x, simp only: prod.case)
      (intro clocked_if clocked_stop_failed clocked_bind [OF timed_drain] clocked_elapsed clocked_escalate)
  then show ?thesis
    by (intro clocked_bind [OF timed_stop_unit] clocked_case clocked_stop_failed)
qed

lemma secs_of_mono: "a \<le> b \<Longrightarrow> secs_of a \<le> secs_of b"
  by (simp add: secs_of_def divide_right_mono)

text \<open>\<open>fits t0 m\<close>: the stop duration of a result \<open>x\<close>, if any, lies within the time since \<open>t0\<close>.\<close>

definition fits :: "time \<Rightarrow> ('r \<times> rat option) \<Rightarrow> 'w host \<Rightarrow> bool" where
  "fits t0 x h \<longleftrightarrow> t0 \<le> hclock h \<and> pred_option (\<lambda>s. 0 \<le> s \<and> s \<le> secs_of (hclock h - t0)) (snd x)"

lemma clocked_fits:
  assumes "clocked t1 m" and "t0 \<le> t1" and "t1 \<le> hclock h"
  shows "wp m (fits t0) h"
proof -
  have "wp m (\<lambda>(_, st) h'. hclock h \<le> hclock h' \<and> st = Some (secs_of (hclock h' - t1))) h"
    using assms(1) by (simp add: clocked_def)
  moreover have "0 \<le> secs_of d" for d by (simp add: secs_of_def)
  ultimately show ?thesis
    using assms(2,3) by (auto simp: fits_def secs_of_mono elim!: wp_mono)
qed

lemma evict_inner_fits: "wp (evict_inner E cfg b u) (fits (hclock h)) h"
  unfolding evict_inner_def wp_bind
proof (rule wp_mono [OF wp_timed [OF timed_is_running]], goal_cases)
  case (1 r h1)
  then have none: "fits (hclock h) (x, None) h1" for x :: "unit_error + eviction_outcome"
    by (simp add: fits_def)
  show ?case
  proof (cases r)
    case (Inl e)
    then show ?thesis using none by (simp add: wp_simps)
  next
    case (Inr up)
    show ?thesis
    proof (cases up)
      case False
      then show ?thesis using none Inr by (simp add: wp_simps)
    next
      case True
      then have up: "\<not> \<not> up" by simp
      show ?thesis
        unfolding Inr sum.case if_not_P [OF up] wp_bind [of now] wp_now
        by (rule clocked_fits [OF clocked_stopping 1 order_refl])
    qed
  qed
qed

text \<open>
  The durations the metrics record are consistent: the total is the time the eviction took,
  and the stop-to-stopped time, when there is one, lies between zero and the total.
\<close>

theorem evict_durations:
  assumes "run_state (evict_timed E cfg b u) h = ((r, tm), h')"
  shows "hclock h \<le> hclock h' \<and> total_secs tm = secs_of (hclock h' - hclock h)
    \<and> pred_option (\<lambda>s. 0 \<le> s \<and> s \<le> total_secs tm) (stop_secs tm)"
proof -
  obtain x h1 where 1: "run_state (evict_inner E cfg b u) h = (x, h1)" by fastforce
  have w: "fits (hclock h) x h1" using wp_run [OF evict_inner_fits 1] .
  have "tm = \<lparr> stop_secs = snd x, total_secs = secs_of (hclock h1 - hclock h) \<rparr> \<and> h' = h1"
    using assms 1 by (auto simp: evict_timed_def elapsed_since_def now_def split: prod.splits)
  with w show ?thesis by (simp add: fits_def)
qed

theorem evict_durations_witness:
  "pred_option (\<lambda>s. 0 \<le> s \<and> s \<le> total_secs (snd (fst
       (run_state (evict_timed (sample_os Windows) (default_config Windows) Nvidia sample_unit)
         (sample_host (idle_world [''ollama.service''] []))))))
     (stop_secs (snd (fst
       (run_state (evict_timed (sample_os Windows) (default_config Windows) Nvidia sample_unit)
         (sample_host (idle_world [''ollama.service''] []))))))"
  (is "pred_option _ (stop_secs (snd (fst ?x)))")
proof -
  have "?x = ((fst (fst ?x), snd (fst ?x)), snd ?x)" by simp
  from evict_durations [OF this] show ?thesis by blast
qed

end
