(* ===== verification/Gpu_Properties.thy ===== *)
theory Gpu_Properties
  imports Detection_Properties Eviction_Properties
begin

text \<open>
  From the machine's files to the reading an eviction judges by: the process table of \<open>nvidia-smi\<close>
  (\<open>src/gpu.rs\<close>), the cgroup file of each process (\<open>src/cgroup.rs\<close>) and the attribution to a unit
  (\<open>src/units.rs\<close>), composed.
\<close>

section \<open>What the tools report\<close>

text \<open>
  Where systemd puts a process: in a service or scope below \<open>system.slice\<close>, whose deepest unit
  segment names it, or outside of it (a user session, where games run).
\<close>

fun placed :: "string list \<Rightarrow> string option \<Rightarrow> bool" where
  "placed segs (Some u) \<longleftrightarrow> list_all plain_segment segs \<and> unit_suffix u \<and>
     (\<exists>outer slices below. segs = outer @ ''system.slice'' # slices @ u # below
        \<and> ''system.slice'' \<notin> set outer \<and> \<not> list_ex unit_suffix below)"
| "placed segs None \<longleftrightarrow> list_all plain_segment segs \<and> segs \<noteq> [] \<and> ''system.slice'' \<notin> set segs"

lemma placedI:
  assumes "list_all plain_segment (outer @ ''system.slice'' # slices @ u # below)" and "unit_suffix u"
    and "''system.slice'' \<notin> set outer" and "\<not> list_ex unit_suffix below"
  shows "placed (outer @ ''system.slice'' # slices @ u # below) (Some u)"
  unfolding placed.simps using assms by blast

text \<open>The table \<open>nvidia-smi\<close> prints for the processes \<open>ps\<close>.\<close>

definition smi_table :: "gpu_compute_proc list \<Rightarrow> string" where
  "smi_table ps = concat (map (\<lambda>p. proc_row p @ [newline]) ps)"

text \<open>
  The tools answer for the processes \<open>ps\<close>, process \<open>i\<close> being in the cgroup \<open>path i\<close>, whenever they
  are asked: the table, and one line per cgroup file, all of it UTF-8.
\<close>

definition tools_report :: "'w os \<Rightarrow> gpu_compute_proc list \<Rightarrow> (int \<Rightarrow> string list) \<Rightarrow> bool" where
  "tools_report E ps path \<longleftrightarrow>
     utf8_valid (smi_table ps) \<and> list_all printable_proc ps \<and>
     (\<forall>w. \<exists>err. fst (os_run E NVIDIA_SMI_TIMEOUT
        [''nvidia-smi'', ''--query-compute-apps=pid,process_name,used_memory'', ''--format=csv,noheader,nounits''] w)
        = Exited (Some 0) (smi_table ps) err) \<and>
     (\<forall>i\<in>pid ` set ps. utf8_valid (cgroup_line (path i) @ [newline]) \<and>
        (\<forall>w. fst (os_read_file E (''/proc/'' @ show_int i @ ''/cgroup'') w) = Inr (cgroup_line (path i) @ [newline])))"

section \<open>The steps\<close>

lemma placed_parses: "placed segs own \<Longrightarrow> unit_from_cgroup (cgroup_line segs @ [newline]) = own"
proof (cases own)
  case None
  assume "placed segs own"
  with None have segs: "list_all plain_segment segs" "segs \<noteq> []" "''system.slice'' \<notin> set segs" by auto
  then have "dropWhile (\<lambda>s. s \<noteq> ''system.slice'') segs = []" by (auto simp: dropWhile_eq_Nil_conv)
  note outside = this
  show ?thesis
    using None outside cgroup_line_segments [OF segs(1)] cgroup_line_one_line [OF segs(1,2)]
    by (simp only: unit_from_cgroup_def map_filter_simps list.case option.case)
qed (auto simp: unit_from_cgroup_deepest)

lemma read_cgroup:
  assumes "fst (os_read_file E f (hworld h)) = Inr s" and "utf8_valid s"
  shows "fst (run_state (read_to_string E f) h) = Inr s"
  using assms by (simp add: read_to_string_def host_call_def split_def)

lemma resolved_owners:
  assumes "\<And>i h. i \<in> set is \<Longrightarrow> \<exists>s. fst (run_state (read_to_string E (''/proc/'' @ show_int i @ ''/cgroup'')) h) = Inr s
      \<and> unit_from_cgroup s = owner i"
  shows "wp (resolve_pid_units E is) (\<lambda>m _. m = (\<lambda>i. if i \<in> set is then owner i else None)) h"
  using assms
proof (induction "is" arbitrary: h)
  case (Cons i js h)
  obtain s h1 where s: "run_state (read_to_string E (''/proc/'' @ show_int i @ ''/cgroup'')) h = (Inr s, h1)"
      "unit_from_cgroup s = owner i"
    using Cons.prems [of i h] by (metis list.set_intros(1) prod.collapse)
  obtain m h2 where m: "run_state (resolve_pid_units E js) h1 = (m, h2)" by fastforce
  have own: "m = (\<lambda>i. if i \<in> set js then owner i else None)"
    using wp_run [OF Cons.IH [OF Cons.prems] m] by simp
  have "run_state (resolve_pid_units E (i # js)) h = (\<lambda>j. if j \<in> set (i # js) then owner j else None, h2)"
    unfolding resolve_pid_units.simps run_state_bind s(1) prod.case m
    using s(2) own by (auto simp: fun_eq_iff split: option.splits)
  then show ?case by (simp add: wp_def)
qed (simp add: wp_simps)

lemma table_parses: "tools_report E ps path \<Longrightarrow> parse_compute_procs_csv (smi_table ps) = ps"
  by (simp add: tools_report_def smi_table_def parse_compute_procs_roundtrip)

lemma reported_procs:
  assumes "tools_report E ps path"
  shows "wp (query_compute_procs E Nvidia) (\<lambda>r _. r = Inr ps) h"
proof -
  obtain err where "fst (os_run E NVIDIA_SMI_TIMEOUT [''nvidia-smi'',
      ''--query-compute-apps=pid,process_name,used_memory'', ''--format=csv,noheader,nounits''] (hworld h))
      = Exited (Some 0) (smi_table ps) err"
    using assms unfolding tools_report_def by blast
  moreover have "utf8_error 0 (smi_table ps) = None"
    using assms by (simp add: tools_report_def utf8_valid_def)
  ultimately show ?thesis
    using table_parses [OF assms]
    by (auto simp: query_compute_procs_def nvidia_query_compute_procs_def run_nvidia_smi_def wp_simps
        split: prod.splits)
qed

lemma reported_owners:
  assumes "tools_report E ps path" and "\<forall>i\<in>pid ` set ps. placed (path i) (owner i)" and "os_platform E = Linux"
  shows "wp (attribute_units E ps) (\<lambda>qs _. qs = map (\<lambda>p. p\<lparr> owning_unit := owner (pid p) \<rparr>) ps) h"
proof -
  have "wp (resolve_pid_units E (map pid ps)) (\<lambda>m _. m = (\<lambda>i. if i \<in> set (map pid ps) then owner i else None)) h"
  proof (rule resolved_owners)
    fix i h
    assume i: "i \<in> set (map pid ps)"
    then have i': "i \<in> pid ` set ps" by simp
    have "fst (run_state (read_to_string E (''/proc/'' @ show_int i @ ''/cgroup'')) h)
        = Inr (cgroup_line (path i) @ [newline])"
      by (rule read_cgroup) (use assms(1) i' in \<open>auto simp: tools_report_def\<close>)
    with placed_parses [of "path i" "owner i"] assms(2) i'
    show "\<exists>s. fst (run_state (read_to_string E (''/proc/'' @ show_int i @ ''/cgroup'')) h) = Inr s
        \<and> unit_from_cgroup s = owner i" by blast
  qed
  then show ?thesis
    unfolding attribute_units_def if_P [OF assms(3)] wp_bind wp_return
    by (rule wp_mono) auto
qed

text \<open>The megabytes the processes of the unit hold, as the tools report them.\<close>

definition held_mb :: "gpu_compute_proc list \<Rightarrow> (int \<Rightarrow> string option) \<Rightarrow> string \<Rightarrow> nat" where
  "held_mb ps owner u = sum_list (map (\<lambda>p. if owner (pid p) = Some u then unat (vram_mb p) else 0) ps)"

lemma attributed_held_mb:
  "attribute_unit_vram (Some (map (\<lambda>p. p\<lparr> owning_unit := owner (pid p) \<rparr>) ps)) True u needle
     = Some (word_of_nat (held_mb ps owner u))"
  by (induction ps)
    (auto simp: attribute_unit_vram_def unit_vram_sum_def vram_total_def held_mb_def)

lemma reading_from_tools:
  assumes tools: "os_platform E = Linux" "tools_report E ps path" "\<forall>i\<in>pid ` set ps. placed (path i) (owner i)"
    and x: "x = word_of_nat (held_mb ps owner (unit_name u))"
    and ends: "\<And>s. wp (if attribution_is_trustworthy (Some x) seen then State_Monad.return (Attributed x)
        else query_memory E Nvidia \<bind> (\<lambda>m. State_Monad.return (Fallback (ok_of m)))) (\<lambda>r _. P r) s"
  shows "wp (unit_vram_reading E u Nvidia True True seen) (\<lambda>r _. P r) h"
proof -
  have att: "wp (attribute_units E ps) (\<lambda>qs _. attribute_unit_vram (Some qs) True (unit_name u) (vram_match u) = Some x) s" for s
    by (rule wp_mono [OF reported_owners [OF tools(2,3,1)]]) (simp add: attributed_held_mb x)
  show ?thesis
    unfolding unit_vram_reading_def using tools(1)
    apply (simp add: attribution_capable_def wp_bind del: wp_if)
    apply (rule wp_mono [OF reported_procs [OF tools(2)]])
    apply (simp add: wp_bind del: wp_if)
    apply (rule wp_mono [OF att])
    subgoal for _ _ _ s using ends [of s] by (simp add: wp_return split: if_splits)
    done
qed

text \<open>
  C39: The VRAM an eviction attributes to a systemd unit is what the machine reports. When \<open>nvidia-smi\<close>
  prints its process table and every process's cgroup file says where systemd put it, the reading is
  the sum, in 64 bits, of the sizes of exactly the processes in the unit's cgroup; a sum of zero is
  believed only once this eviction has seen the unit hold VRAM, and otherwise the whole card's usage
  is read instead.
\<close>

theorem attributed_vram_is_reported:
  assumes "os_platform E = Linux" and "tools_report E ps path" and "\<forall>i\<in>pid ` set ps. placed (path i) (owner i)"
    and "run_state (unit_vram_reading E u Nvidia True True seen) h = (r, h')"
  shows "if held_mb ps owner (unit_name u) mod 2 ^ 64 = 0 \<and> \<not> seen then \<exists>m. r = Fallback m
    else r = Attributed (word_of_nat (held_mb ps owner (unit_name u)))"
proof -
  let ?n = "held_mb ps owner (unit_name u)"
  let ?P = "\<lambda>r. if ?n mod 2 ^ 64 = 0 \<and> \<not> seen then \<exists>m. r = Fallback m else r = Attributed (word_of_nat ?n)"
  have zero: "(0 :: u64) < word_of_nat ?n \<longleftrightarrow> ?n mod 2 ^ 64 \<noteq> 0"
    by (simp add: word_greater_zero_iff word_of_nat_eq_0_iff dvd_eq_mod_eq_0)
  have ends: "wp (if attribution_is_trustworthy (Some (word_of_nat ?n)) seen
      then State_Monad.return (Attributed (word_of_nat ?n))
      else query_memory E Nvidia \<bind> (\<lambda>m. State_Monad.return (Fallback (ok_of m)))) (\<lambda>r _. ?P r) s" for s
  proof (cases "?n mod 2 ^ 64 = 0 \<and> \<not> seen")
    case True
    then have "\<not> attribution_is_trustworthy (Some (word_of_nat ?n)) seen"
      using zero by (simp add: attribution_is_trustworthy_def)
    then show ?thesis
      unfolding if_P [OF True] by (simp add: wp_simps) (rule wp_mono [OF wp_True], simp add: wp_simps)
  next
    case False
    then have "attribution_is_trustworthy (Some (word_of_nat ?n)) seen"
      using zero by (auto simp: attribution_is_trustworthy_def)
    then show ?thesis
      unfolding if_not_P [OF False] by (simp add: wp_simps)
  qed
  have "wp (unit_vram_reading E u Nvidia True True seen) (\<lambda>r _. ?P r) h"
    by (rule reading_from_tools [OF assms(1-3) refl ends])
  from wp_run [OF this assms(4)] show ?thesis .
qed

text \<open>
  A machine with the model server in its service, 6144 MiB on the card, a game in the user's session,
  and a helper of the server in a nested cgroup.
\<close>

definition sample_procs :: "gpu_compute_proc list" where
  "sample_procs =
     [\<lparr> pid = 77, proc_name = ''/usr/bin/ollama'', vram_mb = 6000, owning_unit = None \<rparr>,
      \<lparr> pid = 78, proc_name = ''runner'', vram_mb = 144, owning_unit = None \<rparr>,
      \<lparr> pid = 90, proc_name = ''game.exe'', vram_mb = 2048, owning_unit = None \<rparr>]"

definition sample_path :: "int \<Rightarrow> string list" where
  "sample_path i =
     (if i = 90 then [''user.slice'', ''session.scope'']
      else [''system.slice'', ''ollama.service''] @ (if i = 78 then [''worker''] else []))"

definition sample_owner :: "int \<Rightarrow> string option" where
  "sample_owner i = (if i = 90 then None else Some ''ollama.service'')"

definition reported_os :: "sample_world os" where
  "reported_os = (sample_os Linux)
     \<lparr> os_run := (\<lambda>_ _ w. (Exited (Some 0) (smi_table sample_procs) [], 1, w)),
       os_read_file := (\<lambda>f w. (case find (\<lambda>i. f = ''/proc/'' @ show_int i @ ''/cgroup'') [77, 78, 90] of
          None \<Rightarrow> Inl not_found | Some i \<Rightarrow> Inr (cgroup_line (sample_path i) @ [newline]), 1, w)) \<rparr>"

lemma sample_reported: "tools_report reported_os sample_procs sample_path"
proof -
  have "utf8_valid (smi_table sample_procs)" by code_simp
  moreover have "list_all printable_proc sample_procs"
    by (simp add: sample_procs_def printable_proc_def inked_def byte_def newline_def)
  moreover have "list_all (\<lambda>i. utf8_valid (cgroup_line (sample_path i) @ [newline])) (map pid sample_procs)"
    by code_simp
  moreover have "show_int 77 = ''77''" "show_int 78 = ''78''" "show_int 90 = ''90''" by code_simp+
  then have "list_all (\<lambda>i. \<forall>w. fst (os_read_file reported_os (''/proc/'' @ show_int i @ ''/cgroup'') w)
      = Inr (cgroup_line (sample_path i) @ [newline])) (map pid sample_procs)"
    by (simp add: reported_os_def sample_procs_def)
  moreover have "fst (os_run reported_os d v w) = Exited (Some 0) (smi_table sample_procs) []" for d v w
    by (simp add: reported_os_def)
  ultimately show ?thesis
    unfolding tools_report_def by (simp add: list_all_iff)
qed

theorem attributed_vram_is_reported_witness:
  "fst (run_state (unit_vram_reading reported_os sample_unit Nvidia True True False)
     (sample_host (idle_world [] []))) = Attributed 6144"
proof -
  have "list_all plain_segment (sample_path i)" if "i \<in> {77, 78, 90}" for i
    using that by (auto simp: sample_path_def plain_segment_def newline_def)
  note plain = this [of 77] this [of 78] this [of 90]
  have suf: "unit_suffix ''ollama.service''" "\<not> unit_suffix ''worker''" by code_simp+
  have "placed (sample_path 90) None" using plain by (simp add: sample_path_def)
  moreover have "placed (sample_path 77) (Some ''ollama.service'')"
    using placedI [of "[]" "[]" "''ollama.service''" "[]"] plain suf by (simp add: sample_path_def)
  moreover have "placed (sample_path 78) (Some ''ollama.service'')"
    using placedI [of "[]" "[]" "''ollama.service''" "[''worker'']"] plain suf by (simp add: sample_path_def)
  ultimately have placed: "placed (sample_path 90) None" "placed (sample_path 77) (Some ''ollama.service'')"
      "placed (sample_path 78) (Some ''ollama.service'')"
    by blast+
  then have owners: "\<forall>i\<in>pid ` set sample_procs. placed (sample_path i) (sample_owner i)"
    by (simp add: sample_procs_def sample_owner_def)
  have linux: "os_platform reported_os = Linux" by (simp add: reported_os_def sample_os_def)
  have "held_mb sample_procs sample_owner (unit_name sample_unit) = 6144" by code_simp
  moreover obtain r h' where run: "run_state (unit_vram_reading reported_os sample_unit Nvidia True True False)
     (sample_host (idle_world [] [])) = (r, h')" by fastforce
  ultimately show ?thesis
    using attributed_vram_is_reported [OF linux sample_reported owners run] by simp
qed

end
