(* ===== verification/Decision_Properties.thy ===== *)
theory Decision_Properties
  imports Reconcile_Core Sample_Host "HOL-Library.Code_Target_Nat" "HOL-Library.Code_Target_Int"
begin

text \<open>
  Properties of the pure decisions of a pass: the game-exit debounce over whole histories, the
  priority ladder and the backoff of the gaming invariant.
\<close>

section \<open>Leaving a game\<close>

text \<open>
  C15: The debounce is exact. After any history, a pass that saw a game and then passes at the
  instants \<open>ts\<close> that saw none leave the state \<open>Available\<close> exactly when one of them comes at least
  the configured grace after the first of them: a claim restarts the wait, and an empty claim set
  never ends a game early.
\<close>

theorem game_exit_debounce:
  "fst (fold (settle grace) (history @ (Gaming, t0) # map (Pair Available) ts) start_state) = Available
     \<longleftrightarrow> list_ex (\<lambda>t. grace \<le> t - hd ts) ts"
  by (simp add: settle_claim fold_settle_gaming)

section \<open>The priority ladder\<close>

text \<open>The priorities that demand the GPU: the game's, if there is a claim, and the busy tenants'.\<close>

definition demands :: "claim list \<Rightarrow> config \<Rightarrow> managed_unit list \<Rightarrow> u8 set" where
  "demands cs cfg busy = (if cs = [] then {} else {game_priority cfg}) \<union> priority ` set busy"

lemma finite_demands [simp]: "finite (demands cs cfg busy)"
  by (simp add: demands_def)

lemma demands_empty: "demands cs cfg busy = {} \<longleftrightarrow> cs = [] \<and> busy = []"
  by (simp add: demands_def)

text \<open>
  The effective demand is the greatest of the priorities that demand the GPU, and absent
  exactly when nothing does.
\<close>

theorem effective_demand_is_max:
  "effective_demand cs cfg busy
     = (if demands cs cfg busy = {} then None else Some (Max (demands cs cfg busy)))"
proof (cases "effective_demand cs cfg busy")
  case None
  then show ?thesis by (simp add: effective_demand_None demands_empty)
next
  case (Some d)
  then have "d \<in> demands cs cfg busy"
    using effective_demand_in [OF Some] by (auto simp: demands_def)
  moreover have "x \<le> d" if "x \<in> demands cs cfg busy" for x
    using that effective_demand_ge [OF Some] by (auto simp: demands_def split: if_splits)
  ultimately show ?thesis
    using Some Max_eqI [of "demands cs cfg busy" d] by auto
qed

text \<open>
  The preempted units are exactly the managed units whose priority lies strictly below one
  that demands the GPU. Equal tiers coexist and a busy unit never preempts itself.
\<close>

theorem preempted_exactly:
  "set (preempted_units cfg (effective_demand cs cfg busy))
     = {u \<in> set (managed_units cfg). \<exists>d\<in>demands cs cfg busy. priority u < d}"
proof (cases "effective_demand cs cfg busy")
  case None
  then have "demands cs cfg busy = {}"
    by (simp add: effective_demand_None demands_empty)
  with None show ?thesis by (simp add: preempted_units_def)
next
  case (Some d)
  have d: "d \<in> demands cs cfg busy"
    using effective_demand_in [OF Some] by (auto simp: demands_def)
  have "x \<le> d" if "x \<in> demands cs cfg busy" for x
    using that effective_demand_ge [OF Some] by (auto simp: demands_def split: if_splits)
  with d have "(\<exists>x\<in>demands cs cfg busy. p < x) \<longleftrightarrow> p < d" for p
    by (meson less_le_trans)
  then show ?thesis by (simp add: Some set_preempted_units resolved_units_def)
qed

section \<open>The backoff of the gaming invariant\<close>

text \<open>The notes of a sequence of evictions of one unit: the instant and the outcome of each.\<close>

definition note_all ::
  "managed_unit \<Rightarrow> (time \<times> eviction_outcome option) list \<Rightarrow> arbiter \<Rightarrow> arbiter" where
  "note_all u = fold (\<lambda>(t, r). note_invariant_backoff [u] [r] t)"

definition unclean :: "eviction_outcome option \<Rightarrow> bool" where
  "unclean r \<longleftrightarrow> r = None \<or> r = Some Escalated"

lemma note_invariant_backoff_one: "note_invariant_backoff [u] [r] t = note_one t (u, r)"
  by (simp add: note_invariant_backoff_def)

lemma unclean_iff: "unclean r \<longleftrightarrow> \<not> (r = Some Freed \<or> r = Some AlreadyClear)"
proof (cases r)
  case (Some x)
  then show ?thesis by (cases x) (simp_all add: unclean_def)
qed (simp add: unclean_def)

lemma backoff_after_0: "next_invariant_backoff None = backoff_after 0"
  by (simp add: backoff_after_def)

lemma backoff_after_Suc: "next_invariant_backoff (Some (backoff_after n)) = backoff_after (Suc n)"
  by (simp add: backoff_after_def)

text \<open>
  C16: After \<open>n + 1\<close> evictions in a row of a unit that needed the kill or failed, the gaming
  invariant leaves the unit alone until \<open>min 120 (15 * 2 ^ n)\<close> seconds after the last of them; one
  clean stop forgets the backoff.
\<close>

theorem backoff_doubles_to_cap:
  assumes "inv_backoff a (unit_name u) = None" and "list_all (unclean \<circ> snd) es" and "es \<noteq> []"
  shows "inv_backoff (note_all u es a) (unit_name u)
      = Some \<lparr> bo_until = fst (last es) + from_secs (min 120 (15 * 2 ^ (length es - 1))),
               bo_step = from_secs (min 120 (15 * 2 ^ (length es - 1))) \<rparr>
    \<and> inv_backoff (note_all u (es @ [(t, Some Freed)]) a) (unit_name u) = None"
proof -
  have "inv_backoff (note_all u es a) (unit_name u)
      = Some \<lparr> bo_until = fst (last es) + backoff_after (length es - 1),
               bo_step = backoff_after (length es - 1) \<rparr>"
    using assms(2,3)
  proof (induction es rule: rev_induct)
    case (snoc e es)
    obtain t r where e: "e = (t, r)" by fastforce
    have r: "\<not> (r = Some Freed \<or> r = Some AlreadyClear)"
      using snoc.prems(1) by (simp add: e unclean_iff)
    show ?case
    proof (cases es rule: rev_cases)
      case Nil
      then show ?thesis
        using assms(1) r by (simp add: e note_all_def note_invariant_backoff_one note_one_def Let_def backoff_after_0)
    next
      case (snoc es' e')
      have n: "length es = Suc (length es - 1)" using snoc by simp
      have "inv_backoff (note_all u es a) (unit_name u)
          = Some \<lparr> bo_until = fst (last es) + backoff_after (length es - 1),
                   bo_step = backoff_after (length es - 1) \<rparr>"
        using snoc.IH snoc.prems snoc by simp
      moreover have "note_all u (es @ [e]) a = note_one t (u, r) (note_all u es a)"
        by (simp add: note_all_def e note_invariant_backoff_one)
      ultimately show ?thesis
        using r n by (simp add: e note_one_def Let_def backoff_after_Suc)
    qed
  qed simp
  moreover have "inv_backoff (note_all u (es @ [(t, Some Freed)]) a) (unit_name u) = None"
    by (simp add: note_all_def note_invariant_backoff_one note_one_def)
  ultimately show ?thesis by (simp only: backoff_after_closed)
qed

theorem backoff_doubles_to_cap_witness:
  "inv_backoff (note_all (hd default_managed_units) [(0, None), (7, Some Escalated)] (default_arbiter 0))
       (unit_name (hd default_managed_units))
     = Some \<lparr> bo_until = 7 + from_secs 30, bo_step = from_secs 30 \<rparr>"
  using backoff_doubles_to_cap [of "default_arbiter 0" "hd default_managed_units" "[(0, None), (7, Some Escalated)]"]
  by (simp add: default_arbiter_def unclean_def)

end
