(* ===== verification/Presence.thy ===== *)
theory Presence
  imports Rust_Text Arbiter_State
begin

text \<open>
  \<open>src/presence.rs\<close>: is somebody at the desk. The monitor's three atomics, the pure filters that
  keep streamed (virtual) and non-human input devices out, the enumeration of \<open>/dev/input\<close> and the
  watcher loop. What the kernel and the evdev library answer (directory listing, sysfs links,
  capabilities, whether a stream opens, whether inotify works) is the parameter \<open>input_view\<close>. Paths
  are written by the node name below \<open>/dev/input\<close>.
\<close>

section \<open>The monitor\<close>

text \<open>\<open>last_input\<close> is an \<open>i64\<close> of Unix seconds.\<close>

record presence_monitor =
  pm_last_input :: int
  pm_healthy :: bool
  pm_device_count :: u32

definition presence_new :: "int \<Rightarrow> presence_monitor" where
  "presence_new start_unix = \<lparr> pm_last_input = start_unix, pm_healthy = False, pm_device_count = 0 \<rparr>"

definition record_input :: "int \<Rightarrow> presence_monitor \<Rightarrow> presence_monitor" where
  "record_input now_unix m = m\<lparr> pm_last_input := max (pm_last_input m) now_unix \<rparr>"

definition set_healthy :: "bool \<Rightarrow> presence_monitor \<Rightarrow> presence_monitor" where
  "set_healthy up m = m\<lparr> pm_healthy := up \<rparr>"

text \<open>The count saturates at \<open>u32::MAX\<close>.\<close>

definition set_device_count :: "nat \<Rightarrow> presence_monitor \<Rightarrow> presence_monitor" where
  "set_device_count n m = m\<lparr> pm_device_count := (if n < 2 ^ 32 then of_nat n else - 1) \<rparr>"

text \<open>Whole Unix seconds of the wall clock, as an \<open>i64\<close>; the epoch for a clock before it.\<close>

definition now_unix :: "system_time \<Rightarrow> int" where
  "now_unix t = int (unix_secs t)"

section \<open>The filters\<close>

definition is_physical_syspath :: "string \<Rightarrow> bool" where
  "is_physical_syspath path \<longleftrightarrow> \<not> starts_with path ''/sys/devices/virtual/''"

record input_caps =
  has_keys :: bool
  has_rel :: bool
  has_abs :: bool

definition is_human_input :: "input_caps \<Rightarrow> bool" where
  "is_human_input caps \<longleftrightarrow> has_keys caps \<or> has_rel caps \<or> has_abs caps"

definition sat_i64 :: "int \<Rightarrow> int" where
  "sat_i64 x = max (- (2 ^ 63)) (min (2 ^ 63 - 1) x)"

definition is_local_present :: "int \<Rightarrow> int \<Rightarrow> int \<Rightarrow> bool \<Rightarrow> bool" where
  "is_local_present last_unix now_s threshold_s healthy \<longleftrightarrow>
     healthy \<and> sat_i64 (now_s - last_unix) < threshold_s"

section \<open>Enumeration\<close>

text \<open>
  What the evdev library reports of an opened device: its event types and, if it reports key codes
  at all, the supported ones.
\<close>

record evdev_device =
  ev_has_key :: bool
  ev_has_rel :: bool
  ev_has_abs :: bool
  ev_keys :: "nat list option"

record input_view =
  iv_entries :: "io_error + string list"
  iv_syspath :: "string \<Rightarrow> string option"
  iv_open :: "string \<Rightarrow> evdev_device option"
  iv_stream :: "string \<Rightarrow> bool"
  iv_inotify_init :: bool
  iv_inotify_watch :: bool
  iv_inotify_stream :: bool

definition caps_of :: "evdev_device \<Rightarrow> input_caps" where
  "caps_of d =
     \<lparr> has_keys = ev_has_key d \<and> (case ev_keys d of None \<Rightarrow> False | Some ks \<Rightarrow> ks \<noteq> []),
        has_rel = ev_has_rel d, has_abs = ev_has_abs d \<rparr>"

definition canonical_syspath :: "input_view \<Rightarrow> string \<Rightarrow> string option" where
  "canonical_syspath V name = (if starts_with name ''event'' then iv_syspath V name else None)"

definition classify_node :: "input_view \<Rightarrow> string \<Rightarrow> evdev_device option" where
  "classify_node V name =
     (case canonical_syspath V name of
        None \<Rightarrow> None
      | Some syspath \<Rightarrow>
          if \<not> is_physical_syspath syspath then None
          else (case iv_open V name of
                  None \<Rightarrow> None
                | Some d \<Rightarrow> if is_human_input (caps_of d) then Some d else None))"

text \<open>The watched devices, each with whether its event pump has finished.\<close>

type_synonym watched = "(string \<times> bool) list"

definition prune :: "string list \<Rightarrow> watched \<Rightarrow> watched" where
  "prune present w = filter (\<lambda>(name, finished). name \<in> set present \<and> \<not> finished) w"

fun watch_new :: "input_view \<Rightarrow> string list \<Rightarrow> watched \<Rightarrow> watched" where
  "watch_new V [] w = w"
| "watch_new V (name # names) w =
     (if name \<in> fst ` set w then watch_new V names w
      else if classify_node V name = None \<or> \<not> iv_stream V name then watch_new V names w
      else watch_new V names ((name, False) # w))"

definition event_nodes :: "string list \<Rightarrow> string list" where
  "event_nodes names = filter (\<lambda>n. starts_with n ''event'') names"

definition reenumerate :: "input_view \<Rightarrow> watched \<Rightarrow> (io_error + nat) \<times> watched" where
  "reenumerate V w =
     (case iv_entries V of
        Inl e \<Rightarrow> (Inl e, w)
      | Inr names \<Rightarrow>
          let present = event_nodes names;
              w' = watch_new V present (prune present w)
          in (Inr (length w'), w'))"

section \<open>The watcher\<close>

text \<open>One enumeration of \<open>run\<close>, with its effect on the monitor.\<close>

definition enumerate_once :: "input_view \<Rightarrow> presence_monitor \<times> watched \<Rightarrow> presence_monitor \<times> watched" where
  "enumerate_once V s =
     (case s of (m, w) \<Rightarrow>
        (case reenumerate V w of
           (Inr n, w') \<Rightarrow> (set_healthy True (set_device_count n m), w')
         | (Inl e, w') \<Rightarrow> (set_healthy False m, w')))"

text \<open>The hotplug signal is there if every step of its set-up worked; the timer always is.\<close>

definition try_inotify_stream :: "input_view \<Rightarrow> bool" where
  "try_inotify_stream V \<longleftrightarrow> iv_inotify_init V \<and> iv_inotify_watch V \<and> iv_inotify_stream V"

datatype wake = Wake_Timer | Wake_Hotplug

definition wakes :: "bool \<Rightarrow> wake \<Rightarrow> bool" where
  "wakes hotplug k \<longleftrightarrow> k = Wake_Timer \<or> hotplug"

text \<open>
  The watcher and its pumps: an event on a watched device whose pump runs stamps the monitor, a
  pump ends, and a hotplug signal or the timer enumerates again against the devices of the moment.
\<close>

inductive presence_step ::
  "bool \<Rightarrow> presence_monitor \<times> watched \<Rightarrow> presence_monitor \<times> watched \<Rightarrow> bool" for hotplug where
  Input: "(name, False) \<in> set w \<Longrightarrow> presence_step hotplug (m, w) (record_input (now_unix t) m, w)"
| Pump_Ends: "w = a @ (name, False) # b \<Longrightarrow> presence_step hotplug (m, w) (m, a @ (name, True) # b)"
| Enumerate: "wakes hotplug k \<Longrightarrow> presence_step hotplug s (enumerate_once V s)"

text \<open>
  The monitor of a daemon: on Linux the watcher enumerates, then tries for the hotplug signal, then
  steps; elsewhere it never does anything.
\<close>

inductive presence_reach :: "platform \<Rightarrow> int \<Rightarrow> bool \<Rightarrow> presence_monitor \<times> watched \<Rightarrow> bool"
  for p start_unix where
  Start: "p = Linux \<Longrightarrow>
     presence_reach p start_unix (try_inotify_stream V') (enumerate_once V (presence_new start_unix, []))"
| Step: "presence_reach p start_unix hotplug s \<Longrightarrow> p = Linux \<Longrightarrow> presence_step hotplug s s' \<Longrightarrow>
     presence_reach p start_unix hotplug s'"
| Stub: "p \<noteq> Linux \<Longrightarrow> presence_reach p start_unix False (presence_new start_unix, [])"

section \<open>Lemmas\<close>

lemma record_input_fold:
  "pm_last_input (fold record_input ts m) = Max (insert (pm_last_input m) (set ts))"
proof (induction ts arbitrary: m)
  case (Cons t ts)
  have "Max (insert (max (pm_last_input m) t) (set ts)) = Max (insert (pm_last_input m) (insert t (set ts)))"
    by (cases "ts = []") (simp_all add: max.assoc)
  with Cons show ?case by (simp add: record_input_def)
qed simp

lemma watch_new_names:
  "fst ` set (watch_new V names w)
     = fst ` set w \<union> {n \<in> set names. classify_node V n \<noteq> None \<and> iv_stream V n}"
  by (induction names arbitrary: w) auto

lemma watch_new_distinct: "distinct (map fst w) \<Longrightarrow> distinct (map fst (watch_new V names w))"
  by (induction names arbitrary: w) auto

lemma prune_names: "distinct (map fst w) \<Longrightarrow>
  fst ` set (prune present w) = {n \<in> set present. (n, False) \<in> set w}"
  by (force simp: prune_def)

lemma prune_distinct: "distinct (map fst w) \<Longrightarrow> distinct (map fst (prune present w))"
  by (induction w) (auto simp: prune_def)

lemma classify_node_Some:
  "classify_node V n \<noteq> None \<longleftrightarrow> (\<exists>p d. starts_with n ''event'' \<and> iv_syspath V n = Some p
     \<and> is_physical_syspath p \<and> iv_open V n = Some d \<and> is_human_input (caps_of d))"
  by (auto simp: classify_node_def canonical_syspath_def split: option.splits)

lemma classify_node_event: "classify_node V n \<noteq> None \<Longrightarrow> starts_with n ''event''"
  using classify_node_Some [of V n] by blast

end
