(* ===== verification/Http_Metrics.thy ===== *)
theory Http_Metrics
  imports Host Presence "HOL-Library.Product_Lexorder"
begin

text \<open>
  The \<open>/metrics\<close> renderer of \<open>src/http.rs\<close>, line by line. The failure counters of the tenant hooks
  and of the process listener are arguments, as are the clocks; the decimal rendering of an \<open>f64\<close> by
  the standard library is the parameter \<open>show_f64\<close>, a function of the exact rational.
\<close>

section \<open>Lines\<close>

definition replace_char :: "char \<Rightarrow> string \<Rightarrow> string \<Rightarrow> string" where
  "replace_char c r s = concat (map (\<lambda>x. if x = c then r else [x]) s)"

definition backslash :: char where
  "backslash = CHR 0x5C"

definition dquote :: char where
  "dquote = CHR 0x22"

definition esc :: "string \<Rightarrow> string" where
  "esc s =
     (if list_ex (\<lambda>b. b = backslash \<or> b = dquote \<or> b = newline) s
      then replace_char newline [backslash, CHR ''n'']
             (replace_char dquote [backslash, dquote] (replace_char backslash [backslash, backslash] s))
      else s)"

definition metric_header :: "string \<Rightarrow> string \<Rightarrow> string \<Rightarrow> string" where
  "metric_header ty name help =
     ''# HELP '' @ name @ '' '' @ help @ [newline] @ ''# TYPE '' @ name @ '' '' @ ty @ [newline]"

definition label_text :: "string \<times> string \<Rightarrow> string" where
  "label_text kv = fst kv @ ''='' @ [dquote] @ esc (snd kv) @ [dquote]"

definition sample :: "string \<Rightarrow> (string \<times> string) list \<Rightarrow> string \<Rightarrow> string" where
  "sample name labels value =
     (if labels = [] then name @ '' '' @ value @ [newline]
      else name @ ''{'' @ str_join '','' (map label_text labels) @ ''} '' @ value @ [newline])"

definition gauge :: "string \<Rightarrow> string \<Rightarrow> (string \<times> string) list \<Rightarrow> string \<Rightarrow> string" where
  "gauge name help labels value = metric_header ''gauge'' name help @ sample name labels value"

definition counter :: "string \<Rightarrow> string \<Rightarrow> (string \<times> string) list \<Rightarrow> string \<Rightarrow> string" where
  "counter name help labels value = metric_header ''counter'' name help @ sample name labels value"

fun state_label :: "arb_state \<Rightarrow> string" where
  "state_label Gaming = ''gaming''"
| "state_label Available = ''available''"
| "state_label Evicting = ''evicting''"

definition show_bool :: "bool \<Rightarrow> string" where
  "show_bool b = (if b then ''1'' else ''0'')"

definition show_u64 :: "u64 \<Rightarrow> string" where
  "show_u64 w = show_nat (unat w)"

section \<open>The keys in order\<close>

text \<open>The derived order of \<open>EvictionStage\<close>.\<close>

instantiation eviction_stage :: linorder
begin

definition less_eq_eviction_stage :: "eviction_stage \<Rightarrow> eviction_stage \<Rightarrow> bool" where
  "less_eq_eviction_stage a b \<longleftrightarrow> a = Stage_Stop \<or> b = Stage_Total"

definition less_eviction_stage :: "eviction_stage \<Rightarrow> eviction_stage \<Rightarrow> bool" where
  "less_eviction_stage a b \<longleftrightarrow> a = Stage_Stop \<and> b = Stage_Total"

instance
proof
  fix x y z :: eviction_stage
  show "x < y \<longleftrightarrow> x \<le> y \<and> \<not> y \<le> x"
    by (cases x; cases y) (simp_all add: less_eq_eviction_stage_def less_eviction_stage_def)
  show "x \<le> x" by (cases x) (simp_all add: less_eq_eviction_stage_def)
  show "x \<le> y \<Longrightarrow> y \<le> z \<Longrightarrow> x \<le> z"
    by (cases x; cases y; cases z) (simp_all add: less_eq_eviction_stage_def)
  show "x \<le> y \<Longrightarrow> y \<le> x \<Longrightarrow> x = y" by (cases x; cases y) (simp_all add: less_eq_eviction_stage_def)
  show "x \<le> y \<or> y \<le> x" by (cases x; cases y) (simp_all add: less_eq_eviction_stage_def)
qed

end

text \<open>The value of a key of a map; the keys below are taken from the map itself.\<close>

definition lookup :: "('k \<times> 'v) list \<Rightarrow> 'v \<Rightarrow> 'k \<Rightarrow> 'v" where
  "lookup m d k = (case map_of m k of None \<Rightarrow> d | Some v \<Rightarrow> v)"

section \<open>The families with several samples\<close>

definition state_samples :: "arb_state \<Rightarrow> string" where
  "state_samples st =
     concat (map (\<lambda>s. sample ''gpu_arbiter_state'' [(''state'', s)] (show_bool (s = state_label st)))
       [''gaming'', ''available'', ''evicting''])"

definition claim_sample :: "string \<Rightarrow> string" where
  "claim_sample token =
     (let (k, i) = (case split_once token '':'' of None \<Rightarrow> (token, []) | Some p \<Rightarrow> p)
      in sample ''gpu_arbiter_claim'' [(''token'', token), (''kind'', k), (''id'', i)] ''1'')"

definition unit_running_sample :: "unit_status \<Rightarrow> string" where
  "unit_running_sample u =
     sample ''gpu_arbiter_unit_running'' [(''unit'', us_unit u)] (show_bool (us_running u = Some True))"

definition unit_held_sample :: "unit_status \<Rightarrow> string" where
  "unit_held_sample u =
     sample ''gpu_arbiter_unit_held'' [(''unit'', us_unit u)] (show_bool (us_held u))"

definition unit_vram_sample :: "unit_status \<Rightarrow> string" where
  "unit_vram_sample u =
     (case us_vram_mb u of
        None \<Rightarrow> []
      | Some v \<Rightarrow> sample ''gpu_arbiter_unit_vram_mib'' [(''unit'', us_unit u)] (show_u64 v))"

definition eviction_samples :: "metrics \<Rightarrow> string \<Rightarrow> string" where
  "eviction_samples m u =
     (let c = lookup (evictions m) zero_counts u
      in concat (map (\<lambda>(out, n). sample ''gpu_arbiter_evictions_total''
             [(''unit'', u), (''outcome'', out)] (show_nat n))
           [(''graceful'', graceful c), (''sigkill'', sigkill c), (''yielded'', yielded c),
            (''error'', evict_error c)]))"

definition hook_sample :: "hook_failure_key \<times> nat \<Rightarrow> string" where
  "hook_sample kn =
     (case kn of ((u, hk, out), n) \<Rightarrow>
        sample ''gpu_arbiter_hook_failures_total''
          [(''unit'', u), (''hook'', hook_label hk), (''outcome'', hook_failure_label out)] (show_nat n))"

definition bucket_samples ::
  "(rat \<Rightarrow> string) \<Rightarrow> string \<Rightarrow> eviction_stage \<Rightarrow> duration_histogram \<Rightarrow> string" where
  "bucket_samples show_f64 u st h =
     concat (map (\<lambda>i. sample ''gpu_arbiter_eviction_duration_seconds_bucket''
           [(''unit'', u), (''stage'', stage_label st), (''le'', show_f64 (EVICTION_DURATION_BUCKETS ! i))]
           (show_nat (if i < length (buckets h) then buckets h ! i else 0)))
       [0..<length EVICTION_DURATION_BUCKETS])"

definition duration_samples :: "(rat \<Rightarrow> string) \<Rightarrow> metrics \<Rightarrow> string \<times> eviction_stage \<Rightarrow> string" where
  "duration_samples show_f64 m k =
     (let (u, st) = k; h = lookup (eviction_durations m) empty_histogram k
      in bucket_samples show_f64 u st h
         @ sample ''gpu_arbiter_eviction_duration_seconds_bucket''
             [(''unit'', u), (''stage'', stage_label st), (''le'', ''+Inf'')] (show_nat (hist_count h))
         @ sample ''gpu_arbiter_eviction_duration_seconds_count''
             [(''unit'', u), (''stage'', stage_label st)] (show_nat (hist_count h))
         @ sample ''gpu_arbiter_eviction_duration_seconds_sum''
             [(''unit'', u), (''stage'', stage_label st)] (show_f64 (hist_sum h)))"

definition restart_sample :: "metrics \<Rightarrow> string \<Rightarrow> string" where
  "restart_sample m u =
     sample ''gpu_arbiter_unit_restarts_total'' [(''unit'', u)] (show_nat (lookup (unit_restarts m) 0 u))"

definition pass_samples :: "reconcile_pass_counts \<Rightarrow> string" where
  "pass_samples c =
     concat (map (\<lambda>(trig, n). sample ''gpu_arbiter_reconcile_passes_total'' [(''trigger'', trig)] (show_nat n))
       [(''proc_event'', rp_proc_event c), (''timer'', rp_timer c), (''manual'', rp_manual c),
        (''startup'', rp_startup c)])"

section \<open>The page\<close>

definition em_dash :: string where
  "em_dash = [CHR 0xE2, CHR 0x80, CHR 0x94]"

definition MONOTONIC_NOTE :: string where
  "MONOTONIC_NOTE =
     (''Monotonic for the process lifetime; a daemon restart resets this to 0 '' @ em_dash @ '' use rate()/increase(), never compare raw values across a restart.'')"

definition render_state :: "status_snapshot \<Rightarrow> int \<Rightarrow> string" where
  "render_state snap since_unix =
     gauge ''gpu_arbiter_up'' ''1 if the gpu-arbiter daemon is serving.'' [] ''1''
     @ gauge ''gpu_arbiter_build_info'' ''Build metadata; constant 1, version in the label.''
         [(''version'', ss_version snap)] ''1''
     @ metric_header ''gauge'' ''gpu_arbiter_state'' ''Current arbiter state (1 for the active state).''
     @ state_samples (ss_state snap)
     @ gauge ''gpu_arbiter_gaming'' ''1 while a game holds the GPU.'' []
         (show_bool (state_label (ss_state snap) = ''gaming''))
     @ gauge ''gpu_arbiter_degraded''
         (''1 while the most recent eviction pass had at least one managed unit fail to evict (gaming still wins the GPU unconditionally '' @ em_dash @ '' this is visibility only).'')
         [] (show_bool (ss_degraded snap))
     @ gauge ''gpu_arbiter_state_since_seconds'' ''Unix time the current state was entered.'' []
         (show_int since_unix)
     @ gauge ''gpu_arbiter_claims'' ''Number of active gaming claims.'' []
         (show_nat (length (ss_claims snap)))
     @ metric_header ''gauge'' ''gpu_arbiter_claim'' ''Active gaming claim; presence over time = launch/close.''
     @ concat (map claim_sample (ss_claims snap))"

definition render_units :: "status_snapshot \<Rightarrow> string" where
  "render_units snap =
     gauge ''gpu_arbiter_vram_used_mib'' ''Total GPU VRAM in use (MiB), all tenants.'' []
       (show_u64 (ss_gpu_vram_used_mb snap))
     @ gauge ''gpu_arbiter_vram_total_mib'' ''Total GPU VRAM capacity (MiB).'' []
         (show_u64 (ss_gpu_vram_total_mb snap))
     @ metric_header ''gauge'' ''gpu_arbiter_unit_running'' ''1 if a managed unit is active.''
     @ concat (map unit_running_sample (ss_units snap))
     @ metric_header ''gauge'' ''gpu_arbiter_unit_held''
         (''1 if an operator has manually stopped (held) this unit '' @ em_dash @ '' the ensure-running post-step will not restart it until a manual start or a daemon restart.'')
     @ concat (map unit_held_sample (ss_units snap))
     @ metric_header ''gauge'' ''gpu_arbiter_unit_vram_mib'' ''VRAM attributed to a managed unit (MiB).''
     @ concat (map unit_vram_sample (ss_units snap))"

definition render_presence :: "status_snapshot \<Rightarrow> int \<Rightarrow> int \<Rightarrow> string" where
  "render_presence snap now_s presence_threshold_s =
     gauge ''gpu_arbiter_local_input_last_seconds'' ''Unix time of the most recent physical human input.'' []
       (show_int (ss_local_input_last_unix snap))
     @ gauge ''gpu_arbiter_local_present''
         ''1 if a human is locally present (recent physical input, monitor up).'' []
         (show_bool (is_local_present (ss_local_input_last_unix snap) now_s presence_threshold_s
            (ss_input_monitor_up snap)))
     @ gauge ''gpu_arbiter_physical_input_devices'' ''Count of watched physical human-input devices.'' []
         (show_nat (unat (ss_physical_input_devices snap)))
     @ gauge ''gpu_arbiter_input_monitor_up''
         ''1 if presence detection is healthy (else presence is unknown).'' []
         (show_bool (ss_input_monitor_up snap))"

definition render_counters ::
  "(rat \<Rightarrow> string) \<Rightarrow> metrics \<Rightarrow> (hook_failure_key \<times> nat) list \<Rightarrow> u64 \<Rightarrow> string" where
  "render_counters show_f64 m hooks proc_events_dropped =
     metric_header ''counter'' ''gpu_arbiter_evictions_total''
       (''Cumulative eviction attempts by outcome (graceful|sigkill|error). A no-op (nothing to evict) is not counted. '' @ MONOTONIC_NOTE)
     @ concat (map (eviction_samples m) (sort (map fst (evictions m))))
     @ metric_header ''counter'' ''gpu_arbiter_hook_failures_total''
         (''Cumulative tenant-hook failures by hook (busy|resume) and outcome ''
          @ ''(nonzero = ran and exited non-zero, or for busy was killed by a signal; ''
          @ ''unrunnable = could not be spawned or timed out). '' @ MONOTONIC_NOTE)
     @ concat (map hook_sample hooks)
     @ metric_header ''histogram'' ''gpu_arbiter_eviction_duration_seconds''
         (''Eviction wall-clock by stage (stop|total). No-op evictions (nothing was running) are excluded. '' @ MONOTONIC_NOTE)
     @ concat (map (duration_samples show_f64 m) (sort (map fst (eviction_durations m))))
     @ metric_header ''counter'' ''gpu_arbiter_unit_restarts_total''
         (''Cumulative successful managed-unit starts driven by the daemon (eager restore or manual start). '' @ MONOTONIC_NOTE)
     @ concat (map (restart_sample m) (sort (map fst (unit_restarts m))))
     @ counter ''gpu_arbiter_proc_events_dropped_total''
         (''Cumulative cn_proc drop occurrences (kernel ENOBUFS overflow + full-channel try_send drops); the backstop timer covers the resulting gap. '' @ MONOTONIC_NOTE)
         [] (show_u64 proc_events_dropped)
     @ metric_header ''counter'' ''gpu_arbiter_reconcile_passes_total''
         (''Cumulative reconcile passes by trigger. '' @ MONOTONIC_NOTE)
     @ pass_samples (reconcile_passes m)"

definition render_metrics ::
  "(rat \<Rightarrow> string) \<Rightarrow> status_snapshot \<Rightarrow> metrics \<Rightarrow> (hook_failure_key \<times> nat) list \<Rightarrow>
   int \<Rightarrow> int \<Rightarrow> int \<Rightarrow> u64 \<Rightarrow> string" where
  "render_metrics show_f64 snap m hooks since_unix now_s presence_threshold_s proc_events_dropped =
     render_state snap since_unix @ render_units snap
     @ render_presence snap now_s presence_threshold_s
     @ render_counters show_f64 m hooks proc_events_dropped"

text \<open>The \<open>/metrics\<close> handler: the counters and the clocks are read at the edge.\<close>

definition metrics_page ::
  "(rat \<Rightarrow> string) \<Rightarrow> string \<Rightarrow> config \<Rightarrow> arbiter \<Rightarrow> (hook_failure_key \<times> nat) list \<Rightarrow> system_time \<Rightarrow>
   u64 \<Rightarrow> string" where
  "metrics_page show_f64 version cfg a hooks wall proc_events_dropped =
     render_metrics show_f64 (snapshot version a) (arb_metrics a) hooks
       (int (unix_secs (since a))) (int (unix_secs wall)) (sint (presence_idle_threshold_s cfg))
       proc_events_dropped"

end
