(* ===== verification/Reconcile.thy ===== *)
theory Reconcile
  imports Reconcile_Core
begin

text \<open>
  The reconcile pass of \<open>src/reconcile.rs\<close>, block by block in the order of \<open>reconcile_with\<close>:
  the manual start and stop, the scan, the decision, the three arms of the transition, the gaming
  invariant, tenant preemption, the eager starts, the owed resumes and the refresh of the status.

  The state of a pass is the host together with the shared \<open>ArbiterState\<close> and the replies sent to
  manual triggers (newest first). \<open>on_host\<close> is code that runs with the lock released; \<open>upd_arb\<close> is
  one short critical section. The reconcile task is the only writer of the fields used here, so a
  read followed by a write is the sequential composition of the two.
\<close>

section \<open>The state of a pass\<close>

record 'w sys =
  sys_host :: "'w host"
  sys_arb :: arbiter
  sys_replies :: "(nat \<times> manual_reply) list"

definition on_host :: "('w host, 'a) state \<Rightarrow> ('w sys, 'a) state" where
  "on_host m = State (\<lambda>s. case run_state m (sys_host s) of (a, h) \<Rightarrow> (a, s\<lparr> sys_host := h \<rparr>))"

definition upd_arb :: "(arbiter \<Rightarrow> arbiter) \<Rightarrow> ('w sys, unit) state" where
  "upd_arb f = State_Monad.update (\<lambda>s. s\<lparr> sys_arb := f (sys_arb s) \<rparr>)"

definition get_arb :: "('w sys, arbiter) state" where
  "get_arb = State (\<lambda>s. (sys_arb s, s))"

definition send_reply :: "nat \<Rightarrow> manual_reply \<Rightarrow> ('w sys, unit) state" where
  "send_reply r x = State_Monad.update (\<lambda>s. s\<lparr> sys_replies := (r, x) # sys_replies s \<rparr>)"

definition set_state_now :: "'w os \<Rightarrow> arb_state \<Rightarrow> ('w sys, unit) state" where
  "set_state_now E x = do {
     t \<leftarrow> on_host (wall_clock E);
     upd_arb (set_state x t)
   }"

section \<open>Shared pieces\<close>

definition claim_appeared :: "'w os \<Rightarrow> config \<Rightarrow> ('w sys, reconcile_error + bool) state" where
  "claim_appeared E cfg = do {
     r \<leftarrow> on_host (scan_claims E cfg);
     State_Monad.return (case r of
         Inl e \<Rightarrow> Inl e
       | Inr fresh \<Rightarrow> Inr (\<not> ensure_running_toctou_clear fresh))
   }"

definition vram_used_mb :: "'w os \<Rightarrow> gpu_backend \<Rightarrow> ('w host, u64 option) state" where
  "vram_used_mb E backend = do {
     m \<leftarrow> query_memory E backend;
     State_Monad.return (map_option used_mb (ok_of m))
   }"

text \<open>The bookkeeping of one eviction, a single critical section.\<close>

definition record_evicted ::
  "managed_unit \<Rightarrow> string \<Rightarrow> unit_error + eviction_outcome \<Rightarrow> eviction_timings \<Rightarrow> system_time \<Rightarrow>
   arbiter \<Rightarrow> arbiter" where
  "record_evicted u reason result tm wall a =
     (let n = unit_name u;
          a1 = a\<lparr> needs_resume := insert n (needs_resume a) \<rparr>;
          a2 = (case eviction_metric_outcome result of
                  None \<Rightarrow> a1
                | Some out \<Rightarrow>
                    a1\<lparr> arb_metrics := record_eviction n out (arb_metrics a1),
                        last_evictions := (last_evictions a1)(n \<mapsto>
                          \<lparr> le_reason = reason, le_outcome = outcome_label out,
                             le_at = format_rfc3339 wall \<rparr>) \<rparr>);
          a3 = (if result = Inr AlreadyClear then a2
                else
                  let a2' = (case stop_secs tm of
                               None \<Rightarrow> a2
                             | Some s \<Rightarrow> a2\<lparr> arb_metrics :=
                                 record_eviction_duration n Stage_Stop s (arb_metrics a2) \<rparr>)
                  in a2'\<lparr> arb_metrics :=
                       record_eviction_duration n Stage_Total (total_secs tm) (arb_metrics a2') \<rparr>)
      in a3)"

definition evict_one ::
  "'w os \<Rightarrow> config \<Rightarrow> gpu_backend \<Rightarrow> managed_unit \<Rightarrow> string \<Rightarrow> u64 option \<Rightarrow>
   ('w sys, (unit_error + eviction_outcome) \<times> u64 option) state" where
  "evict_one E cfg backend u reason vram_before = do {
     (result, tm) \<leftarrow> on_host (evict_timed E cfg backend u);
     vram_after \<leftarrow>
       (if result = Inr AlreadyClear then State_Monad.return vram_before
        else on_host (vram_used_mb E backend));
     wall \<leftarrow> on_host (wall_clock E);
     upd_arb (record_evicted u reason result tm wall);
     State_Monad.return (result, vram_after)
   }"

fun evict_each ::
  "'w os \<Rightarrow> config \<Rightarrow> gpu_backend \<Rightarrow> string \<Rightarrow> managed_unit list \<Rightarrow> u64 option \<Rightarrow>
   ('w sys, eviction_outcome option list) state" where
  "evict_each E cfg backend reason [] vram = State_Monad.return []"
| "evict_each E cfg backend reason (u # us) vram = do {
     (result, vram_after) \<leftarrow> evict_one E cfg backend u reason vram;
     rest \<leftarrow> evict_each E cfg backend reason us vram_after;
     State_Monad.return (ok_of result # rest)
   }"

definition evict_units ::
  "'w os \<Rightarrow> config \<Rightarrow> gpu_backend \<Rightarrow> managed_unit list \<Rightarrow> string \<Rightarrow>
   ('w sys, eviction_outcome option list) state" where
  "evict_units E cfg backend targets reason = do {
     vram \<leftarrow> on_host (vram_used_mb E backend);
     evict_each E cfg backend reason targets vram
   }"

fun probe_each ::
  "'w os \<Rightarrow> string set \<Rightarrow> managed_unit list \<Rightarrow>
   ('w host, managed_unit list \<times> (string \<rightharpoonup> bool option)) state" where
  "probe_each E hs [] = State_Monad.return ([], Map.empty)"
| "probe_each E hs (u # us) =
     (if busy_cmd u = None \<or> unit_name u \<in> hs then probe_each E hs us
      else do {
        r \<leftarrow> is_running E u;
        b \<leftarrow> (if ok_of r = Some False then State_Monad.return False else is_busy E u);
        (busy, running_now) \<leftarrow> probe_each E hs us;
        State_Monad.return
          (if b then u # busy else busy,
           case running_now (unit_name u) of
             None \<Rightarrow> running_now(unit_name u \<mapsto> ok_of r)
           | Some _ \<Rightarrow> running_now)
      })"

definition probe_busy ::
  "'w os \<Rightarrow> config \<Rightarrow> string set \<Rightarrow>
   ('w host, managed_unit list \<times> (string \<rightharpoonup> bool option)) state" where
  "probe_busy E cfg hs = probe_each E hs (resolved_units cfg)"

text \<open>\<open>max_by_key\<close>: the last of the elements with the greatest key.\<close>

definition max_by_priority :: "managed_unit list \<Rightarrow> managed_unit option" where
  "max_by_priority us =
     fold (\<lambda>u m. case m of
         None \<Rightarrow> Some u
       | Some v \<Rightarrow> if priority v \<le> priority u then Some u else Some v) us None"

definition preempting_tenant :: "'w os \<Rightarrow> config \<Rightarrow> string \<Rightarrow> ('w sys, string option) state" where
  "preempting_tenant E cfg unit =
     (case find (\<lambda>u. unit_name u = unit) (resolved_units cfg) of
        None \<Rightarrow> State_Monad.return None
      | Some target \<Rightarrow> do {
          a \<leftarrow> get_arb;
          (busy, _) \<leftarrow> on_host (probe_busy E cfg (held a));
          State_Monad.return (map_option unit_name
            (max_by_priority (filter (\<lambda>b. priority target < priority b) busy)))
        })"

definition manual_start :: "'w os \<Rightarrow> config \<Rightarrow> string \<Rightarrow> ('w host, unit_error + bool) state" where
  "manual_start E cfg unit =
     (case resolve_unit cfg unit of
        Inl e \<Rightarrow> State_Monad.return (Inl e)
      | Inr u \<Rightarrow> do {
          r \<leftarrow> is_running E u;
          (if unwrap_or r False then State_Monad.return (Inr False)
           else do {
             st \<leftarrow> start E u;
             (case st of
                Inr _ \<Rightarrow> State_Monad.return (Inr True)
              | Inl e \<Rightarrow> do {
                  again \<leftarrow> is_running E u;
                  State_Monad.return (if again = Inr True then Inr False else Inl e)
                })
           })
        })"

section \<open>Manual triggers\<close>

datatype manual_start_gate = Gate_Proceed nat | Gate_Refused | Gate_Failed

definition manual_start_check ::
  "'w os \<Rightarrow> config \<Rightarrow> string \<Rightarrow> nat \<Rightarrow> ('w sys, manual_start_gate) state" where
  "manual_start_check E cfg unit reply = do {
     a \<leftarrow> get_arb;
     (if cur_state a = Gaming \<or> cur_state a = Evicting then do {
        send_reply reply (Inl GpuHeldByGame);
        State_Monad.return Gate_Refused
      } else do {
        by \<leftarrow> preempting_tenant E cfg unit;
        (if by \<noteq> None then do {
           send_reply reply (Inl PreemptedByTenant);
           State_Monad.return Gate_Refused
         } else do {
           c \<leftarrow> claim_appeared E cfg;
           (case c of
              Inr False \<Rightarrow> State_Monad.return (Gate_Proceed reply)
            | Inr True \<Rightarrow> do {
                send_reply reply (Inl GpuHeldByGame);
                State_Monad.return Gate_Refused
              }
            | Inl e \<Rightarrow> do {
                send_reply reply (Inl Failed);
                State_Monad.return Gate_Failed
              })
         })
      })
   }"

definition manual_started :: "string \<Rightarrow> bool \<Rightarrow> arbiter \<Rightarrow> arbiter" where
  "manual_started unit started a =
     (let a1 = a\<lparr> held := held a - {unit} \<rparr>
      in if started then a1\<lparr> arb_metrics := record_unit_restart unit (arb_metrics a1) \<rparr> else a1)"

definition handle_manual_start ::
  "'w os \<Rightarrow> config \<Rightarrow> string \<Rightarrow> nat \<Rightarrow> ('w sys, unit) state" where
  "handle_manual_start E cfg unit reply = do {
     gate \<leftarrow> manual_start_check E cfg unit reply;
     (case gate of
        Gate_Proceed reply' \<Rightarrow> do {
          r \<leftarrow> on_host (manual_start E cfg unit);
          (case r of
             Inr started \<Rightarrow> do {
               upd_arb (manual_started unit started);
               send_reply reply' (Inr ())
             }
           | Inl e \<Rightarrow> send_reply reply' (Inl Failed))
        }
      | Gate_Refused \<Rightarrow> State_Monad.return ()
      | Gate_Failed \<Rightarrow> State_Monad.return ())
   }"

definition hold_unit :: "string \<Rightarrow> arbiter \<Rightarrow> arbiter" where
  "hold_unit unit a =
     a\<lparr> held := insert unit (held a), needs_resume := insert unit (needs_resume a) \<rparr>"

definition handle_manual_stop ::
  "'w os \<Rightarrow> config \<Rightarrow> gpu_backend \<Rightarrow> string \<Rightarrow> nat \<Rightarrow> ('w sys, unit) state" where
  "handle_manual_stop E cfg backend unit reply = do {
     upd_arb (hold_unit unit);
     result \<leftarrow> (case resolve_unit cfg unit of
         Inr u \<Rightarrow> do {
           vram_before \<leftarrow> on_host (vram_used_mb E backend);
           (r, _) \<leftarrow> evict_one E cfg backend u ''manual stop'' vram_before;
           State_Monad.return r
         }
       | Inl e \<Rightarrow> State_Monad.return (Inl e));
     send_reply reply (case result of Inr _ \<Rightarrow> Inr () | Inl _ \<Rightarrow> Inl Failed)
   }"

definition handle_trigger ::
  "'w os \<Rightarrow> config \<Rightarrow> gpu_backend \<Rightarrow> trigger \<Rightarrow> ('w sys, unit) state" where
  "handle_trigger E cfg backend trig =
     (case trig of
        ManualStart unit reply \<Rightarrow> handle_manual_start E cfg unit reply
      | ManualStop unit reply \<Rightarrow> handle_manual_stop E cfg backend unit reply
      | ProcEvent \<Rightarrow> State_Monad.return ()
      | Timer \<Rightarrow> State_Monad.return ()
      | Startup \<Rightarrow> State_Monad.return ())"

section \<open>The decision and the transition\<close>

text \<open>The critical section after the scan: returns the current and desired states and the holds.\<close>

definition decide ::
  "config \<Rightarrow> claim list \<Rightarrow> ('w sys, arb_state \<times> arb_state \<times> string set) state" where
  "decide cfg cs = do {
     t \<leftarrow> on_host now;
     a \<leftarrow> get_arb;
     let (desired, pending) = debounce_game_exit (cur_state a) (resolve_state cs)
           (game_exit_pending_since a) (from_secs (game_exit_grace_s cfg)) t;
     upd_arb (\<lambda>a. a\<lparr> game_exit_pending_since := pending, claims := cs \<rparr>);
     State_Monad.return (cur_state a, desired, held a)
   }"

text \<open>The demand of the pass: inside the exit grace the game keeps demanding.\<close>

definition pass_demand :: "claim list \<Rightarrow> config \<Rightarrow> managed_unit list \<Rightarrow> arb_state \<Rightarrow> u8 option" where
  "pass_demand cs cfg busy desired =
     (let d = effective_demand cs cfg busy
      in if desired = Gaming then opt_max d (Some (game_priority cfg)) else d)"

definition evict_arm ::
  "'w os \<Rightarrow> config \<Rightarrow> gpu_backend \<Rightarrow> managed_unit list \<Rightarrow> ('w sys, unit) state" where
  "evict_arm E cfg backend preempted = do {
     set_state_now E Evicting;
     results \<leftarrow> evict_units E cfg backend preempted ''game'';
     t \<leftarrow> on_host now;
     upd_arb (note_invariant_backoff preempted results t);
     upd_arb (\<lambda>a. a\<lparr> degraded := list_ex (\<lambda>r. r = None) results \<rparr>);
     set_state_now E Gaming
   }"

definition clear_gaming :: "arbiter \<Rightarrow> arbiter" where
  "clear_gaming a =
     a\<lparr> degraded := False, inv_backoff := Map.empty, invariant_warned := Map.empty \<rparr>"

definition restart_arm :: "'w os \<Rightarrow> ('w sys, unit) state" where
  "restart_arm E = do {
     upd_arb (\<lambda>a. a\<lparr> degraded := False \<rparr>);
     set_state_now E Available;
     upd_arb clear_gaming
   }"

text \<open>The run state of a unit: this pass's earlier probe, or a fresh one.\<close>

definition known_running ::
  "'w os \<Rightarrow> (string \<rightharpoonup> bool option) \<Rightarrow> managed_unit \<Rightarrow> ('w sys, bool option) state" where
  "known_running E running_now u =
     (case running_now (unit_name u) of
        Some r \<Rightarrow> State_Monad.return r
      | None \<Rightarrow> do { r \<leftarrow> on_host (is_running E u); State_Monad.return (ok_of r) })"

definition backed_off :: "(string \<rightharpoonup> invariant_backoff) \<Rightarrow> time \<Rightarrow> managed_unit \<Rightarrow> bool" where
  "backed_off bo t u = (case bo (unit_name u) of None \<Rightarrow> False | Some b \<Rightarrow> t < bo_until b)"

definition warn_one :: "time \<Rightarrow> managed_unit \<Rightarrow> arbiter \<Rightarrow> arbiter" where
  "warn_one t u a =
     (if (case invariant_warned a (unit_name u) of
            None \<Rightarrow> True | Some w \<Rightarrow> INVARIANT_WARN_EVERY \<le> t - w)
      then a\<lparr> invariant_warned := (invariant_warned a)(unit_name u \<mapsto> t) \<rparr>
      else a)"

definition gaming_invariant ::
  "'w os \<Rightarrow> config \<Rightarrow> gpu_backend \<Rightarrow> managed_unit list \<Rightarrow> (string \<rightharpoonup> bool option) \<Rightarrow>
   ('w sys, unit) state" where
  "gaming_invariant E cfg backend preempted running_now = do {
     t \<leftarrow> on_host now;
     a \<leftarrow> get_arb;
     came_back \<leftarrow> filter_m (\<lambda>u.
         if backed_off (inv_backoff a) t u then State_Monad.return False
         else do { r \<leftarrow> known_running E running_now u; State_Monad.return (r \<noteq> Some False) })
       preempted;
     (if came_back = [] then State_Monad.return ()
      else do {
        upd_arb (fold (warn_one t) came_back);
        results \<leftarrow> evict_units E cfg backend came_back ''gaming invariant'';
        upd_arb (note_invariant_backoff came_back results t);
        (if list_ex (\<lambda>r. r = None) results then upd_arb (\<lambda>a. a\<lparr> degraded := True \<rparr>)
         else State_Monad.return ())
      })
   }"

definition none_arm ::
  "'w os \<Rightarrow> config \<Rightarrow> gpu_backend \<Rightarrow> arb_state \<Rightarrow> arb_state \<Rightarrow> managed_unit list \<Rightarrow>
   (string \<rightharpoonup> bool option) \<Rightarrow> ('w sys, unit) state" where
  "none_arm E cfg backend current desired preempted running_now = do {
     (if desired = Available then upd_arb clear_gaming else State_Monad.return ());
     set_state_now E desired;
     (if current = Gaming \<and> desired = Gaming
      then gaming_invariant E cfg backend preempted running_now
      else State_Monad.return ())
   }"

definition preempt_tenants ::
  "'w os \<Rightarrow> config \<Rightarrow> gpu_backend \<Rightarrow> managed_unit list \<Rightarrow> (string \<rightharpoonup> bool option) \<Rightarrow>
   ('w sys, unit) state" where
  "preempt_tenants E cfg backend preempted running_now = do {
     still_up \<leftarrow> filter_m (\<lambda>u. do {
         r \<leftarrow> known_running E running_now u;
         State_Monad.return (r \<noteq> Some False) }) preempted;
     (if still_up = [] then State_Monad.return ()
      else do {
        results \<leftarrow> evict_units E cfg backend still_up ''tenant preemption'';
        State_Monad.return ()
      })
   }"

section \<open>Eager starts and owed resumes\<close>

text \<open>
  The eligible units that are not confirmed running; an inconclusive probe counts as stopped.
\<close>

definition start_candidates ::
  "'w os \<Rightarrow> managed_unit list \<Rightarrow> ('w sys, managed_unit list) state" where
  "start_candidates E targets =
     filter_m (\<lambda>u. do {
       r \<leftarrow> on_host (is_running E u);
       State_Monad.return (\<not> unwrap_or r False) }) targets"

text \<open>
  The eager-start loop: a scan before each start. The result is the list of started units and
  whether a claim stopped the loop, or the error of a failed scan, which ends the pass.
\<close>

fun start_loop ::
  "'w os \<Rightarrow> config \<Rightarrow> managed_unit list \<Rightarrow> ('w sys, reconcile_error + string list \<times> bool) state" where
  "start_loop E cfg [] = State_Monad.return (Inr ([], False))"
| "start_loop E cfg (u # us) = do {
     c \<leftarrow> claim_appeared E cfg;
     (case c of
        Inl e \<Rightarrow> State_Monad.return (Inl e)
      | Inr appeared \<Rightarrow>
          if appeared then State_Monad.return (Inr ([], True))
          else do {
            r \<leftarrow> on_host (start E u);
            (case r of
               Inl _ \<Rightarrow> start_loop E cfg us
             | Inr _ \<Rightarrow> do {
                 upd_arb (\<lambda>a. a\<lparr> arb_metrics := record_unit_restart (unit_name u) (arb_metrics a) \<rparr>);
                 rest \<leftarrow> start_loop E cfg us;
                 State_Monad.return (case rest of
                     Inl e \<Rightarrow> Inl e
                   | Inr (names, stopped) \<Rightarrow> Inr (unit_name u # names, stopped))
               })
          })
   }"

fun resume_loop ::
  "'w os \<Rightarrow> config \<Rightarrow> string list \<Rightarrow> managed_unit list \<Rightarrow> ('w sys, unit) state" where
  "resume_loop E cfg started [] = State_Monad.return ()"
| "resume_loop E cfg started (u # us) = do {
     up \<leftarrow> (if unit_name u \<in> set started then State_Monad.return True
           else do { r \<leftarrow> on_host (is_running E u); State_Monad.return (r = Inr True) });
     (if \<not> up then resume_loop E cfg started us
      else do {
        c \<leftarrow> claim_appeared E cfg;
        (if unwrap_or c True then State_Monad.return ()
         else do {
           ok \<leftarrow> on_host (resume E u);
           (if ok then upd_arb (\<lambda>a. a\<lparr> needs_resume := needs_resume a - {unit_name u} \<rparr>)
            else State_Monad.return ());
           resume_loop E cfg started us
         })
      })
   }"

section \<open>The status refresh\<close>

text \<open>
  One unit's substate. The source polls the units' futures concurrently; the calls below are the
  same ones, unit after unit. Nothing they do changes the unit or the shared state.
\<close>

definition unit_substate ::
  "'w os \<Rightarrow> gpu_compute_proc list option \<Rightarrow> string set \<Rightarrow> (string \<rightharpoonup> last_eviction) \<Rightarrow>
   managed_unit \<Rightarrow> ('w host, unit_status) state" where
  "unit_substate E compute hs evs u = do {
     r \<leftarrow> is_running E u;
     let running = ok_of r;
     (models, err) \<leftarrow>
       (if running = Some True then do {
          m \<leftarrow> loaded_models E u;
          State_Monad.return (case m of
              Inr ms \<Rightarrow> (ms, None)
            | Inl e \<Rightarrow> ([], Some (introspect_error_text e)))
        } else State_Monad.return ([], None));
     State_Monad.return
       \<lparr> us_unit = unit_name u, us_running = running, us_models = models, us_models_error = err,
          us_vram_mb =
            (case compute of
               None \<Rightarrow> None
             | Some ps \<Rightarrow>
                 if running \<noteq> Some True then None
                 else (case vram_mb_by_cgroup ps (unit_name u) of
                         Some v \<Rightarrow> Some v
                       | None \<Rightarrow>
                           (case vram_match u of
                              None \<Rightarrow> None
                            | Some needle \<Rightarrow> vram_mb_matching ps needle))),
          us_held = unit_name u \<in> hs, us_last_eviction = evs (unit_name u) \<rparr>
   }"

definition refreshed ::
  "unit_status list \<Rightarrow> presence_view \<Rightarrow> gpu_memory option \<Rightarrow> arbiter \<Rightarrow> arbiter" where
  "refreshed sts pv mem a =
     (let a1 = a\<lparr> units := sts, presence := pv \<rparr>
      in case mem of
           None \<Rightarrow> a1
         | Some m \<Rightarrow> a1\<lparr> gpu_vram_used_mb := used_mb m, gpu_vram_total_mb := total_mb m \<rparr>)"

definition refresh_substate ::
  "'w os \<Rightarrow> config \<Rightarrow> presence_view \<Rightarrow> gpu_backend \<Rightarrow> ('w sys, unit) state" where
  "refresh_substate E cfg pv backend = do {
     r \<leftarrow> on_host (query_compute_procs E backend);
     compute \<leftarrow> (case r of
         Inl _ \<Rightarrow> State_Monad.return None
       | Inr ps \<Rightarrow> do { ps' \<leftarrow> on_host (attribute_units E ps); State_Monad.return (Some ps') });
     a \<leftarrow> get_arb;
     sts \<leftarrow> on_host (State_Monad.traverse_list
       (unit_substate E compute (held a) (last_evictions a)) (resolved_units cfg));
     m \<leftarrow> on_host (query_memory E backend);
     upd_arb (refreshed sts pv (ok_of m))
   }"

section \<open>The pass\<close>

text \<open>
  The rest of the pass after a successful scan with claims \<open>cs\<close>: the transition, then the
  ensure-running step. \<open>pv\<close> is what the presence monitor holds when the refresh reads it.
\<close>

definition transition ::
  "'w os \<Rightarrow> config \<Rightarrow> gpu_backend \<Rightarrow> arb_state \<Rightarrow> arb_state \<Rightarrow> managed_unit list \<Rightarrow>
   (string \<rightharpoonup> bool option) \<Rightarrow> ('w sys, unit) state" where
  "transition E cfg backend current desired preempted running_now = do {
     (case unit_action current desired of
        UA_Evict \<Rightarrow> evict_arm E cfg backend preempted
      | UA_Restart \<Rightarrow> restart_arm E
      | UA_None \<Rightarrow> none_arm E cfg backend current desired preempted running_now);
     (if desired = Available \<and> preempted \<noteq> []
      then preempt_tenants E cfg backend preempted running_now
      else State_Monad.return ())
   }"

definition ensure_running ::
  "'w os \<Rightarrow> config \<Rightarrow> arb_state \<Rightarrow> managed_unit list \<Rightarrow> ('w sys, reconcile_error + unit) state" where
  "ensure_running E cfg desired preempted = do {
     a \<leftarrow> get_arb;
     to_start \<leftarrow> start_candidates E (ensure_running_targets desired cfg (held a) preempted);
     let owed = filter (\<lambda>u. unit_name u \<in> needs_resume a)
           (resume_targets desired cfg (held a) preempted);
     r \<leftarrow> start_loop E cfg to_start;
     (case r of
        Inl e \<Rightarrow> State_Monad.return (Inl e)
      | Inr (started, stopped) \<Rightarrow> do {
          (if stopped then State_Monad.return () else resume_loop E cfg started owed);
          State_Monad.return (Inr ())
        })
   }"

definition after_decision ::
  "'w os \<Rightarrow> config \<Rightarrow> gpu_backend \<Rightarrow> presence_view \<Rightarrow> claim list \<Rightarrow> arb_state \<Rightarrow> arb_state \<Rightarrow>
   string set \<Rightarrow> ('w sys, reconcile_error + unit) state" where
  "after_decision E cfg backend pv cs current desired hs = do {
     (busy, running_now) \<leftarrow> on_host (probe_busy E cfg hs);
     let preempted = preempted_units cfg (pass_demand cs cfg busy desired);
     transition E cfg backend current desired preempted running_now;
     r \<leftarrow> ensure_running E cfg desired preempted;
     (case r of
        Inl e \<Rightarrow> State_Monad.return (Inl e)
      | Inr _ \<Rightarrow> do {
          refresh_substate E cfg pv backend;
          State_Monad.return (Inr ())
        })
   }"

definition after_scan ::
  "'w os \<Rightarrow> config \<Rightarrow> gpu_backend \<Rightarrow> presence_view \<Rightarrow> claim list \<Rightarrow>
   ('w sys, reconcile_error + unit) state" where
  "after_scan E cfg backend pv cs = do {
     (current, desired, hs) \<leftarrow> decide cfg cs;
     after_decision E cfg backend pv cs current desired hs
   }"

definition reconcile_with ::
  "'w os \<Rightarrow> config \<Rightarrow> gpu_backend \<Rightarrow> presence_view \<Rightarrow> trigger \<Rightarrow>
   ('w sys, reconcile_error + unit) state" where
  "reconcile_with E cfg backend pv trig = do {
     upd_arb (\<lambda>a. a\<lparr> arb_metrics := record_reconcile_pass (pass_trigger_of trig) (arb_metrics a) \<rparr>);
     handle_trigger E cfg backend trig;
     r \<leftarrow> on_host (scan_claims E cfg);
     (case r of
        Inl e \<Rightarrow> State_Monad.return (Inl e)
      | Inr cs \<Rightarrow> after_scan E cfg backend pv cs)
   }"

end
