(* ===== verification/Http.thy ===== *)
theory Http
  imports Http_Metrics Reconcile
begin

text \<open>
  The request side of \<open>src/http.rs\<close>: which routes each listener carries on each platform, the gates
  of the write path, and the exchange with the reconcile task. The axum library decodes a request
  to a method and the decoded segments of its path; the trigger channel and the reply channel are
  the argument \<open>chan\<close>: what becomes of a trigger sent, \<open>None\<close> when the channel is closed.
\<close>

section \<open>Routes\<close>

datatype http_method = GET | POST | Other_Method

datatype endpoint = Ep_Status | Ep_Metrics | Ep_Healthz | Ep_Start string | Ep_Stop string

definition write_routes :: "http_method \<Rightarrow> string list \<Rightarrow> endpoint option" where
  "write_routes meth path =
     (case (meth, path) of
        (POST, [a, u, v]) \<Rightarrow>
          if a = ''units'' \<and> v = ''start'' then Some (Ep_Start u)
          else if a = ''units'' \<and> v = ''stop'' then Some (Ep_Stop u)
          else None
      | _ \<Rightarrow> None)"

definition read_routes :: "http_method \<Rightarrow> string list \<Rightarrow> endpoint option" where
  "read_routes meth path =
     (if meth \<noteq> GET then None
      else if path = [''status''] then Some Ep_Status
      else if path = [''metrics''] then Some Ep_Metrics
      else if path = [''healthz''] then Some Ep_Healthz
      else None)"

text \<open>\<open>router\<close>, the TCP listener: reads everywhere, writes on Windows only.\<close>

definition tcp_router :: "platform \<Rightarrow> http_method \<Rightarrow> string list \<Rightarrow> endpoint option" where
  "tcp_router p meth path =
     (case read_routes meth path of
        Some e \<Rightarrow> Some e
      | None \<Rightarrow> if p = Windows then write_routes meth path else None)"

text \<open>\<open>write_router\<close>, the unix socket.\<close>

definition uds_router :: "http_method \<Rightarrow> string list \<Rightarrow> endpoint option" where
  "uds_router meth path = write_routes meth path"

section \<open>The write path\<close>

type_synonym response = "nat \<times> string"

definition guard_unit :: "config \<Rightarrow> string \<Rightarrow> response + managed_unit" where
  "guard_unit cfg unit =
     (case find (\<lambda>u. unit_name u = unit) (resolved_units cfg) of
        Some u \<Rightarrow> Inr u
      | None \<Rightarrow> Inl (404, [CHR 0x27] @ unit @ [CHR 0x27] @ '' is not a managed unit''))"

definition is_managed :: "config \<Rightarrow> string \<Rightarrow> bool" where
  "is_managed cfg unit \<longleftrightarrow> list_ex (\<lambda>u. unit_name u = unit) (resolved_units cfg)"

fun is_localhost :: "ip_addr \<Rightarrow> bool" where
  "is_localhost (IpV4 a b c d) = (a = 127)"
| "is_localhost (IpV6 segs) = (segs = [0, 0, 0, 0, 0, 0, 0, 1])"

definition guard_loopback :: "ip_addr \<Rightarrow> response option" where
  "guard_loopback peer =
     (if is_localhost peer then None else Some (403, ''unit controls are localhost-only''))"

text \<open>What comes back for a trigger that was accepted; the reply channel may be dropped.\<close>

datatype reply_outcome = Replied manual_reply | Reply_Dropped

text \<open>The response, and the triggers handed to the reconcile task.\<close>

definition enqueue_and_await ::
  "(trigger \<Rightarrow> reply_outcome option) \<Rightarrow> string \<Rightarrow> trigger \<Rightarrow> string \<Rightarrow> response \<times> trigger list" where
  "enqueue_and_await chan unit trig verb =
     (let failed = (500, unit @ '' '' @ verb @ '' failed (see daemon logs)'')
      in case chan trig of
           None \<Rightarrow> (failed, [])
         | Some out \<Rightarrow>
             ((case out of
                 Replied (Inr _) \<Rightarrow> (200, unit @ '' '' @ verb @ '' requested'')
               | Replied (Inl GpuHeldByGame) \<Rightarrow>
                   (409, unit @ '' '' @ verb @ '' rejected: a game currently holds the GPU ''
                      @ ''(state gaming/evicting); retry once the GPU is available'')
               | Replied (Inl PreemptedByTenant) \<Rightarrow>
                   (409, unit @ '' '' @ verb @ '' rejected: a busy higher-priority tenant currently ''
                      @ ''preempts this unit; retry once that tenant is idle'')
               | Replied (Inl Failed) \<Rightarrow> failed
               | Reply_Dropped \<Rightarrow> failed), [trig]))"

definition start_validated ::
  "(trigger \<Rightarrow> reply_outcome option) \<Rightarrow> nat \<Rightarrow> string \<Rightarrow> response \<times> trigger list" where
  "start_validated chan reply unit = enqueue_and_await chan unit (ManualStart unit reply) ''start''"

definition stop_validated ::
  "(trigger \<Rightarrow> reply_outcome option) \<Rightarrow> nat \<Rightarrow> string \<Rightarrow> response \<times> trigger list" where
  "stop_validated chan reply unit = enqueue_and_await chan unit (ManualStop unit reply) ''stop''"

definition do_start_uds ::
  "config \<Rightarrow> (trigger \<Rightarrow> reply_outcome option) \<Rightarrow> nat \<Rightarrow> string \<Rightarrow> response \<times> trigger list" where
  "do_start_uds cfg chan reply unit =
     (case guard_unit cfg unit of
        Inl deny \<Rightarrow> (deny, [])
      | Inr u \<Rightarrow> start_validated chan reply (unit_name u))"

definition do_stop_uds ::
  "config \<Rightarrow> (trigger \<Rightarrow> reply_outcome option) \<Rightarrow> nat \<Rightarrow> string \<Rightarrow> response \<times> trigger list" where
  "do_stop_uds cfg chan reply unit =
     (case guard_unit cfg unit of
        Inl deny \<Rightarrow> (deny, [])
      | Inr u \<Rightarrow> stop_validated chan reply (unit_name u))"

definition do_start ::
  "config \<Rightarrow> (trigger \<Rightarrow> reply_outcome option) \<Rightarrow> nat \<Rightarrow> ip_addr \<Rightarrow> string \<Rightarrow> response \<times> trigger list" where
  "do_start cfg chan reply peer unit =
     (case guard_loopback peer of
        Some deny \<Rightarrow> (deny, [])
      | None \<Rightarrow> do_start_uds cfg chan reply unit)"

definition do_stop ::
  "config \<Rightarrow> (trigger \<Rightarrow> reply_outcome option) \<Rightarrow> nat \<Rightarrow> ip_addr \<Rightarrow> string \<Rightarrow> response \<times> trigger list" where
  "do_stop cfg chan reply peer unit =
     (case guard_loopback peer of
        Some deny \<Rightarrow> (deny, [])
      | None \<Rightarrow> do_stop_uds cfg chan reply unit)"

section \<open>One request\<close>

text \<open>What the read handlers serve: the snapshot, the metrics page and the liveness body.\<close>

record pages =
  page_status :: string
  page_metrics :: string

text \<open>
  A request on the TCP listener. An unknown route or method is the library's answer, \<open>None\<close>. A unit
  endpoint is only ever reached on Windows, where the handlers check the peer.
\<close>

definition tcp_request ::
  "platform \<Rightarrow> config \<Rightarrow> pages \<Rightarrow> (trigger \<Rightarrow> reply_outcome option) \<Rightarrow> nat \<Rightarrow> ip_addr \<Rightarrow> http_method \<Rightarrow>
   string list \<Rightarrow> response option \<times> trigger list" where
  "tcp_request p cfg pg chan reply peer meth path =
     (case tcp_router p meth path of
        None \<Rightarrow> (None, [])
      | Some Ep_Status \<Rightarrow> (Some (200, page_status pg), [])
      | Some Ep_Metrics \<Rightarrow> (Some (200, page_metrics pg), [])
      | Some Ep_Healthz \<Rightarrow> (Some (200, ''ok''), [])
      | Some (Ep_Start u) \<Rightarrow> apfst Some (do_start cfg chan reply peer u)
      | Some (Ep_Stop u) \<Rightarrow> apfst Some (do_stop cfg chan reply peer u))"

definition uds_request ::
  "config \<Rightarrow> (trigger \<Rightarrow> reply_outcome option) \<Rightarrow> nat \<Rightarrow> http_method \<Rightarrow> string list \<Rightarrow>
   response option \<times> trigger list" where
  "uds_request cfg chan reply meth path =
     (case uds_router meth path of
        Some (Ep_Start u) \<Rightarrow> apfst Some (do_start_uds cfg chan reply u)
      | Some (Ep_Stop u) \<Rightarrow> apfst Some (do_stop_uds cfg chan reply u)
      | _ \<Rightarrow> (None, []))"

section \<open>Lemmas\<close>

lemma guard_unit_Inr:
  "guard_unit cfg unit = Inr u \<Longrightarrow> u \<in> set (managed_units cfg) \<and> unit_name u = unit"
  by (auto simp: guard_unit_def find_Some_iff resolved_units_def split: option.splits)

lemma guard_unit_managed: "(\<exists>u. guard_unit cfg unit = Inr u) \<longleftrightarrow> is_managed cfg unit"
proof (cases "find (\<lambda>u. unit_name u = unit) (resolved_units cfg)")
  case None
  then have "\<forall>u\<in>set (resolved_units cfg). unit_name u \<noteq> unit"
    by (auto simp: find_None_iff)
  with None show ?thesis by (simp add: guard_unit_def is_managed_def list_ex_iff)
next
  case (Some u)
  then have "u \<in> set (resolved_units cfg)" "unit_name u = unit"
    by (auto simp: find_Some_iff)
  with Some show ?thesis by (auto simp: guard_unit_def is_managed_def list_ex_iff)
qed

text \<open>The triggers of the write path: at most one, and only for a managed unit.\<close>

definition lawful_triggers :: "config \<Rightarrow> nat \<Rightarrow> trigger list \<Rightarrow> bool" where
  "lawful_triggers cfg reply ts \<longleftrightarrow> ts = [] \<or>
     (\<exists>u. is_managed cfg u \<and> (ts = [ManualStart u reply] \<or> ts = [ManualStop u reply]))"

lemma enqueue_and_await_sent: "snd (enqueue_and_await chan u t v) = (if chan t = None then [] else [t])"
  by (simp add: enqueue_and_await_def Let_def split: option.split)

lemma do_uds_lawful:
  "lawful_triggers cfg reply (snd (do_start_uds cfg chan reply unit))"
  "lawful_triggers cfg reply (snd (do_stop_uds cfg chan reply unit))"
  using guard_unit_managed [of cfg unit] guard_unit_Inr [of cfg unit]
  by (auto simp: lawful_triggers_def do_start_uds_def do_stop_uds_def start_validated_def
      stop_validated_def enqueue_and_await_sent split: sum.split)

end
