(* ===== verification/Exposition.thy ===== *)
theory Exposition
  imports Http_Metrics
begin

text \<open>
  What a scraper reads from the \<open>/metrics\<close> page: a reader of the Prometheus text format, and the
  samples the page must carry. The reader knows nothing of the renderer: it splits the page into
  lines, skips comments, and reads a name, quoted label values with their escapes, and a value.
\<close>

section \<open>A reader of the text format\<close>

fun read_quoted :: "string \<Rightarrow> (string \<times> string) option" where
  "read_quoted [] = None"
| "read_quoted (c # s) =
     (if c = dquote then Some ([], s)
      else if c = backslash
      then (case s of [] \<Rightarrow> None
            | d # s' \<Rightarrow> map_option (apfst ((#) (if d = CHR ''n'' then newline else d))) (read_quoted s'))
      else map_option (apfst ((#) c)) (read_quoted s))"

lemma read_quoted_length: "read_quoted s = Some (v, r) \<Longrightarrow> length r < length s"
  by (induction s arbitrary: v rule: read_quoted.induct) (fastforce split: if_splits list.splits)+

function read_labels :: "string \<Rightarrow> ((string \<times> string) list \<times> string) option" where
  "read_labels s =
     (case split_once s (''='' @ [dquote]) of
        None \<Rightarrow> None
      | Some (k, t) \<Rightarrow>
          (case read_quoted t of
             None \<Rightarrow> None
           | Some (v, r) \<Rightarrow>
               (case r of
                  [] \<Rightarrow> None
                | c # r' \<Rightarrow>
                    if c = CHR '','' then map_option (apfst ((#) (k, v))) (read_labels r')
                    else if c = CHR ''}'' then Some ([(k, v)], r')
                    else None)))"
  by pat_completeness auto

termination
  by (relation "measure length") (auto dest!: split_once_Some read_quoted_length)

definition parse_sample :: "string \<Rightarrow> (string \<times> (string \<times> string) list \<times> string) option" where
  "parse_sample line =
     (let name = takeWhile (\<lambda>c. c \<noteq> CHR ''{'' \<and> c \<noteq> CHR '' '') line;
          rest = dropWhile (\<lambda>c. c \<noteq> CHR ''{'' \<and> c \<noteq> CHR '' '') line
      in case rest of
           [] \<Rightarrow> None
         | c # r \<Rightarrow>
             if c = CHR '' '' then Some (name, [], r)
             else (case read_labels r of
                     Some (ls, d # v) \<Rightarrow> if d = CHR '' '' then Some (name, ls, v) else None
                   | _ \<Rightarrow> None))"

definition parse_line :: "string \<Rightarrow> (string \<times> (string \<times> string) list \<times> string) option" where
  "parse_line l = (if l = [] \<or> hd l = CHR ''#'' then None else parse_sample l)"

definition scrape :: "string \<Rightarrow> (string \<times> (string \<times> string) list \<times> string) list" where
  "scrape page = List.map_filter parse_line (split_on newline page)"

section \<open>One line\<close>

definition esc_char :: "char \<Rightarrow> string" where
  "esc_char c =
     (if c = backslash then [backslash, backslash]
      else if c = dquote then [backslash, dquote]
      else if c = newline then [backslash, CHR ''n'']
      else [c])"

lemmas special_defs = backslash_def dquote_def newline_def

lemma esc_chars: "esc s = concat (map esc_char s)"
proof -
  have "replace_char newline [backslash, CHR ''n'']
      (replace_char dquote [backslash, dquote] (replace_char backslash [backslash, backslash] s))
    = concat (map esc_char s)"
    by (induction s) (auto simp: replace_char_def esc_char_def special_defs)
  moreover have "concat (map esc_char s) = s"
    if "\<not> list_ex (\<lambda>b. b = backslash \<or> b = dquote \<or> b = newline) s"
    using that by (induction s) (auto simp: esc_char_def)
  ultimately show ?thesis by (simp add: esc_def)
qed

lemma read_quoted_esc: "read_quoted (esc v @ dquote # r) = Some (v, r)"
  unfolding esc_chars
  by (induction v) (auto simp: esc_char_def special_defs)

lemma esc_no_newline: "newline \<notin> set (esc v)"
  unfolding esc_chars by (induction v) (auto simp: esc_char_def special_defs)

lemma split_once_key:
  "CHR ''='' \<notin> set k \<Longrightarrow> split_once (k @ CHR ''='' # dquote # t) (''='' @ [dquote]) = Some (k, t)"
  by (induction k) (auto simp: starts_with_def)

definition key_ok :: "string \<Rightarrow> bool" where
  "key_ok k \<longleftrightarrow> CHR ''='' \<notin> set k \<and> newline \<notin> set k"

lemma read_labels_text:
  assumes "kvs \<noteq> []" and "list_all (key_ok \<circ> fst) kvs"
  shows "read_labels (str_join '','' (map label_text kvs) @ CHR ''}'' # r) = Some (kvs, r)"
  using assms
proof (induction kvs)
  case (Cons kv kvs)
  obtain k v where kv: "kv = (k, v)" by fastforce
  have k: "CHR ''='' \<notin> set k" using Cons.prems by (simp add: kv key_ok_def)
  show ?case
  proof (cases kvs)
    case Nil
    have "split_once (k @ CHR ''='' # dquote # esc v @ dquote # CHR ''}'' # r) (''='' @ [dquote])
        = Some (k, esc v @ dquote # CHR ''}'' # r)"
      by (rule split_once_key [OF k])
    with Nil show ?thesis
      by (subst read_labels.simps) (simp add: kv label_text_def read_quoted_esc)
  next
    case (Cons kv' kvs')
    let ?t = "str_join '','' (map label_text kvs) @ CHR ''}'' # r"
    have "split_once (k @ CHR ''='' # dquote # esc v @ dquote # CHR '','' # ?t) (''='' @ [dquote])
        = Some (k, esc v @ dquote # CHR '','' # ?t)"
      by (rule split_once_key [OF k])
    moreover have "read_labels ?t = Some (kvs, r)"
      using Cons.IH Cons.prems Cons by simp
    ultimately show ?thesis
      using Cons by (subst read_labels.simps) (simp add: kv label_text_def read_quoted_esc)
  qed
qed simp

definition name_ok :: "string \<Rightarrow> bool" where
  "name_ok n \<longleftrightarrow> n \<noteq> [] \<and> hd n \<noteq> CHR ''#'' \<and>
     list_all (\<lambda>c. c \<noteq> CHR ''{'' \<and> c \<noteq> CHR '' '' \<and> c \<noteq> newline) n"

lemma parse_sample_line:
  assumes "name_ok n" and "list_all (key_ok \<circ> fst) ls"
  shows "parse_sample (n @ (if ls = [] then [] else ''{'' @ str_join '','' (map label_text ls) @ ''}'') @ '' '' @ v)
     = Some (n, ls, v)"
proof -
  have n: "\<forall>c\<in>set n. c \<noteq> CHR ''{'' \<and> c \<noteq> CHR '' ''"
    using assms(1) by (auto simp: name_ok_def list_all_iff)
  show ?thesis
  proof (cases "ls = []")
    case True
    with n show ?thesis by (simp add: parse_sample_def takeWhile_append2 dropWhile_append2)
  next
    case False
    have "read_labels (str_join '','' (map label_text ls) @ CHR ''}'' # CHR '' '' # v) = Some (ls, CHR '' '' # v)"
      by (rule read_labels_text [OF False assms(2)])
    with False n show ?thesis
      by (simp add: parse_sample_def takeWhile_append2 dropWhile_append2 del: read_labels.simps)
  qed
qed

section \<open>Text that yields samples\<close>

type_synonym reading = "string \<times> (string \<times> string) list \<times> string"

text \<open>\<open>yields t xs\<close>: a page that goes on from \<open>t\<close> reads as \<open>xs\<close> and then the rest.\<close>

definition yields :: "string \<Rightarrow> reading list \<Rightarrow> bool" where
  "yields t xs \<longleftrightarrow> (\<forall>rest. scrape (t @ rest) = xs @ scrape rest)"

named_theorems yields_intros

lemma yields_Nil [yields_intros]: "yields [] []"
  by (simp add: yields_def)

lemma yields_append [yields_intros]: "yields t xs \<Longrightarrow> yields u ys \<Longrightarrow> yields (t @ u) (xs @ ys)"
  by (simp add: yields_def)

lemma yields_concat [yields_intros]:
  "(\<And>x. x \<in> set xs \<Longrightarrow> yields (f x) (g x)) \<Longrightarrow> yields (concat (map f xs)) (concat (map g xs))"
  by (induction xs) (auto intro: yields_intros)

lemma yields_line:
  assumes "newline \<notin> set l"
  shows "yields (l @ [newline]) (case parse_line l of None \<Rightarrow> [] | Some x \<Rightarrow> [x])"
  using split_on_append [OF assms]
  by (auto simp: yields_def scrape_def map_filter_simps split: option.split)

lemma yields_header [yields_intros]:
  assumes "newline \<notin> set name" and "newline \<notin> set help" and "newline \<notin> set ty"
  shows "yields (metric_header ty name help) []"
proof -
  have "yields ((''# HELP '' @ name @ '' '' @ help) @ [newline]) []"
    using yields_line [of "''# HELP '' @ name @ '' '' @ help"] assms
    by (simp add: parse_line_def newline_def)
  moreover have "yields ((''# TYPE '' @ name @ '' '' @ ty) @ [newline]) []"
    using yields_line [of "''# TYPE '' @ name @ '' '' @ ty"] assms
    by (simp add: parse_line_def newline_def)
  ultimately have "yields (((''# HELP '' @ name @ '' '' @ help) @ [newline])
      @ (''# TYPE '' @ name @ '' '' @ ty) @ [newline]) ([] @ [])"
    by (rule yields_append)
  then show ?thesis by (simp add: metric_header_def)
qed

lemma label_text_no_newline: "key_ok (fst kv) \<Longrightarrow> newline \<notin> set (label_text kv)"
  using esc_no_newline [of "snd kv"] by (auto simp: label_text_def key_ok_def newline_def dquote_def)

lemma str_join_set: "set (str_join sep xs) \<subseteq> set sep \<union> \<Union> (set ` set xs)"
  by (induction sep xs rule: str_join.induct) auto

lemma yields_sample [yields_intros]:
  assumes "name_ok n" and "list_all (key_ok \<circ> fst) ls" and "newline \<notin> set v"
  shows "yields (sample n ls v) [(n, ls, v)]"
proof -
  let ?l = "n @ (if ls = [] then [] else ''{'' @ str_join '','' (map label_text ls) @ ''}'') @ '' '' @ v"
  have "newline \<notin> set (str_join '','' (map label_text ls))"
    using str_join_set [of "'',''" "map label_text ls"] label_text_no_newline assms(2)
    by (fastforce simp: list_all_iff newline_def)
  then have "newline \<notin> set ?l"
    using assms(1,3) by (auto simp: name_ok_def list_all_iff newline_def)
  moreover have "parse_line ?l = Some (n, ls, v)"
    using assms(1) parse_sample_line [OF assms(1,2)]
    by (cases n) (simp_all add: parse_line_def name_ok_def)
  ultimately show ?thesis
    using yields_line [of ?l] by (simp add: sample_def split: if_splits)
qed

lemma digit_char_not_newline: "digit_char n \<noteq> newline"
proof
  assume "digit_char n = newline"
  then have "of_char (digit_char n) = (10 :: nat)" by (simp add: newline_def)
  then show False by (simp add: digit_char_def)
qed

lemma show_nat_no_newline: "newline \<notin> set (show_nat n)"
proof (induction n rule: show_nat.induct)
  case (1 n)
  then show ?case
    using digit_char_not_newline [of n, symmetric] by (subst show_nat.simps) auto
qed

lemma show_no_newline [simp]:
  "newline \<notin> set (show_nat n)" "newline \<notin> set (show_int i)" "newline \<notin> set (show_u64 w)"
  "newline \<notin> set (show_bool c)"
  using show_nat_no_newline by (auto simp: show_int_def show_u64_def show_bool_def newline_def)

section \<open>The samples of the page\<close>

definition eviction_readings :: "metrics \<Rightarrow> string \<Rightarrow> reading list" where
  "eviction_readings m u =
     map (\<lambda>(out, n). (''gpu_arbiter_evictions_total'', [(''unit'', u), (''outcome'', out)], show_nat n))
       (let c = lookup (evictions m) zero_counts u in
        [(''graceful'', graceful c), (''sigkill'', sigkill c), (''yielded'', yielded c),
         (''error'', evict_error c)])"

definition duration_readings :: "(rat \<Rightarrow> string) \<Rightarrow> metrics \<Rightarrow> string \<times> eviction_stage \<Rightarrow> reading list" where
  "duration_readings show_f64 m k =
     (let (u, st) = k; h = lookup (eviction_durations m) empty_histogram k;
          n = ''gpu_arbiter_eviction_duration_seconds'';
          ls = [(''unit'', u), (''stage'', stage_label st)]
      in map (\<lambda>i. (n @ ''_bucket'', ls @ [(''le'', show_f64 (EVICTION_DURATION_BUCKETS ! i))],
               show_nat (if i < length (buckets h) then buckets h ! i else 0)))
           [0..<length EVICTION_DURATION_BUCKETS]
         @ [(n @ ''_bucket'', ls @ [(''le'', ''+Inf'')], show_nat (hist_count h)),
            (n @ ''_count'', ls, show_nat (hist_count h)),
            (n @ ''_sum'', ls, show_f64 (hist_sum h))])"

definition claim_reading :: "string \<Rightarrow> reading" where
  "claim_reading token =
     (let (k, i) = (case split_once token '':'' of None \<Rightarrow> (token, []) | Some p \<Rightarrow> p)
      in (''gpu_arbiter_claim'', [(''token'', token), (''kind'', k), (''id'', i)], ''1''))"

definition state_readings :: "status_snapshot \<Rightarrow> int \<Rightarrow> reading list" where
  "state_readings snap since_unix =
     [(''gpu_arbiter_up'', [], ''1''),
      (''gpu_arbiter_build_info'', [(''version'', ss_version snap)], ''1'')]
     @ map (\<lambda>st. (''gpu_arbiter_state'', [(''state'', state_label st)], show_bool (ss_state snap = st)))
         [Gaming, Available, Evicting]
     @ [(''gpu_arbiter_gaming'', [], show_bool (ss_state snap = Gaming)),
        (''gpu_arbiter_degraded'', [], show_bool (ss_degraded snap)),
        (''gpu_arbiter_state_since_seconds'', [], show_int since_unix),
        (''gpu_arbiter_claims'', [], show_nat (length (ss_claims snap)))]
     @ map claim_reading (ss_claims snap)"

definition unit_readings :: "status_snapshot \<Rightarrow> reading list" where
  "unit_readings snap =
     [(''gpu_arbiter_vram_used_mib'', [], show_u64 (ss_gpu_vram_used_mb snap)),
      (''gpu_arbiter_vram_total_mib'', [], show_u64 (ss_gpu_vram_total_mb snap))]
     @ map (\<lambda>u. (''gpu_arbiter_unit_running'', [(''unit'', us_unit u)], show_bool (us_running u = Some True)))
         (ss_units snap)
     @ map (\<lambda>u. (''gpu_arbiter_unit_held'', [(''unit'', us_unit u)], show_bool (us_held u))) (ss_units snap)
     @ List.map_filter (\<lambda>u. map_option (\<lambda>v. (''gpu_arbiter_unit_vram_mib'', [(''unit'', us_unit u)], show_u64 v))
         (us_vram_mb u)) (ss_units snap)"

definition presence_readings :: "status_snapshot \<Rightarrow> int \<Rightarrow> int \<Rightarrow> reading list" where
  "presence_readings snap now_s threshold_s =
     [(''gpu_arbiter_local_input_last_seconds'', [], show_int (ss_local_input_last_unix snap)),
      (''gpu_arbiter_local_present'', [],
         show_bool (is_local_present (ss_local_input_last_unix snap) now_s threshold_s (ss_input_monitor_up snap))),
      (''gpu_arbiter_physical_input_devices'', [], show_nat (unat (ss_physical_input_devices snap))),
      (''gpu_arbiter_input_monitor_up'', [], show_bool (ss_input_monitor_up snap))]"

definition counter_readings ::
  "(rat \<Rightarrow> string) \<Rightarrow> metrics \<Rightarrow> (hook_failure_key \<times> nat) list \<Rightarrow> u64 \<Rightarrow> reading list" where
  "counter_readings show_f64 m hooks dropped =
     concat (map (eviction_readings m) (sort (map fst (evictions m))))
     @ map (\<lambda>((u, hk, out), n). (''gpu_arbiter_hook_failures_total'',
         [(''unit'', u), (''hook'', hook_label hk), (''outcome'', hook_failure_label out)], show_nat n)) hooks
     @ concat (map (duration_readings show_f64 m) (sort (map fst (eviction_durations m))))
     @ map (\<lambda>u. (''gpu_arbiter_unit_restarts_total'', [(''unit'', u)], show_nat (lookup (unit_restarts m) 0 u)))
         (sort (map fst (unit_restarts m)))
     @ [(''gpu_arbiter_proc_events_dropped_total'', [], show_u64 dropped)]
     @ map (\<lambda>t. (''gpu_arbiter_reconcile_passes_total'', [(''trigger'', pass_trigger_label t)],
         show_nat (pass_count (reconcile_passes m) t))) [PT_ProcEvent, PT_Timer, PT_Manual, PT_Startup]"

section \<open>The page yields its samples\<close>

lemma yields_map [yields_intros]:
  "(\<And>x. x \<in> set xs \<Longrightarrow> yields (f x) [g x]) \<Longrightarrow> yields (concat (map f xs)) (map g xs)"
proof (induction xs)
  case (Cons x xs)
  then have "yields (f x @ concat (map f xs)) ([g x] @ map g xs)"
    by (intro yields_append) simp_all
  then show ?case by simp
qed (simp add: yields_Nil)

lemma yields_gauge [yields_intros]:
  "newline \<notin> set help \<Longrightarrow> name_ok n \<Longrightarrow> list_all (key_ok \<circ> fst) ls \<Longrightarrow> newline \<notin> set v \<Longrightarrow>
     yields (gauge n help ls v) [(n, ls, v)]"
  using yields_append [OF yields_header [of n "help" "''gauge''"] yields_sample [of n ls v]]
  by (auto simp: gauge_def name_ok_def list_all_iff newline_def)

lemma yields_counter [yields_intros]:
  "newline \<notin> set help \<Longrightarrow> name_ok n \<Longrightarrow> list_all (key_ok \<circ> fst) ls \<Longrightarrow> newline \<notin> set v \<Longrightarrow>
     yields (counter n help ls v) [(n, ls, v)]"
  using yields_append [OF yields_header [of n "help" "''counter''"] yields_sample [of n ls v]]
  by (auto simp: counter_def name_ok_def list_all_iff newline_def)

lemma newline_note: "newline \<notin> set em_dash" "newline \<notin> set MONOTONIC_NOTE"
  by (simp_all add: em_dash_def MONOTONIC_NOTE_def newline_def)

lemmas plain_text = name_ok_def key_ok_def newline_note em_dash_def
  newline_note [unfolded newline_def] show_no_newline [unfolded newline_def] newline_def

lemma state_label_inj [simp]: "state_label a = state_label b \<longleftrightarrow> a = b"
  by (cases a; cases b) simp_all

lemma yields_state_samples:
  "yields (state_samples st)
     (map (\<lambda>x. (''gpu_arbiter_state'', [(''state'', state_label x)], show_bool (st = x)))
       [Gaming, Available, Evicting])"
proof -
  have eq: "state_samples st = concat (map (\<lambda>x. sample ''gpu_arbiter_state'' [(''state'', state_label x)]
      (show_bool (state_label x = state_label st))) [Gaming, Available, Evicting])"
    by (cases st) (simp_all add: state_samples_def)
  have st: "(x = st) = (st = x)" for x by (rule eq_commute)
  show ?thesis
    unfolding eq state_label_inj st
    by (rule yields_map) (rule yields_sample, simp_all add: plain_text)
qed

lemma yields_concat_map:
  "(\<And>x. x \<in> set xs \<Longrightarrow> yields (f x) (g x)) \<Longrightarrow> yields (concat (map f xs)) (concat (map g xs))"
  by (rule yields_concat)

lemma yields_claims: "yields (concat (map claim_sample cs)) (map claim_reading cs)"
  by (rule yields_map)
    (auto simp: claim_sample_def claim_reading_def plain_text split: option.split prod.split intro!: yields_sample)

lemma yields_running: "yields (concat (map unit_running_sample us)) (map (\<lambda>u. (''gpu_arbiter_unit_running'',
    [(''unit'', us_unit u)], show_bool (us_running u = Some True))) us)"
  by (rule yields_map) (auto simp: unit_running_sample_def plain_text intro!: yields_sample)

lemma yields_held: "yields (concat (map unit_held_sample us)) (map (\<lambda>u. (''gpu_arbiter_unit_held'',
    [(''unit'', us_unit u)], show_bool (us_held u))) us)"
  by (rule yields_map) (auto simp: unit_held_sample_def plain_text intro!: yields_sample)

lemma yields_unit_vram: "yields (concat (map unit_vram_sample us)) (List.map_filter (\<lambda>u.
    map_option (\<lambda>v. (''gpu_arbiter_unit_vram_mib'', [(''unit'', us_unit u)], show_u64 v)) (us_vram_mb u)) us)"
proof (induction us)
  case (Cons u us)
  have "yields (unit_vram_sample u) (case us_vram_mb u of None \<Rightarrow> []
      | Some v \<Rightarrow> [(''gpu_arbiter_unit_vram_mib'', [(''unit'', us_unit u)], show_u64 v)])"
    by (auto simp: unit_vram_sample_def plain_text intro!: yields_sample yields_Nil split: option.split)
  from yields_append [OF this Cons] show ?case
    by (simp add: map_filter_simps split: option.splits)
qed (simp add: yields_Nil map_filter_simps)

lemma yields_evictions: "yields (concat (map (eviction_samples m) us)) (concat (map (eviction_readings m) us))"
proof (rule yields_concat)
  fix u
  show "yields (eviction_samples m u) (eviction_readings m u)"
    unfolding eviction_samples_def eviction_readings_def Let_def
    by (rule yields_map) (auto simp: plain_text intro!: yields_sample)
qed

lemma yields_hooks: "yields (concat (map hook_sample hooks)) (map (\<lambda>((u, hk, out), n).
    (''gpu_arbiter_hook_failures_total'',
     [(''unit'', u), (''hook'', hook_label hk), (''outcome'', hook_failure_label out)], show_nat n)) hooks)"
  by (rule yields_map) (auto simp: hook_sample_def plain_text intro!: yields_sample)

lemma yields_restarts: "yields (concat (map (restart_sample m) us)) (map (\<lambda>u. (''gpu_arbiter_unit_restarts_total'',
    [(''unit'', u)], show_nat (lookup (unit_restarts m) 0 u))) us)"
  by (rule yields_map) (auto simp: restart_sample_def plain_text intro!: yields_sample)

lemma yields_passes: "yields (pass_samples c) (map (\<lambda>t. (''gpu_arbiter_reconcile_passes_total'',
    [(''trigger'', pass_trigger_label t)], show_nat (pass_count c t))) [PT_ProcEvent, PT_Timer, PT_Manual, PT_Startup])"
proof -
  have eq: "pass_samples c = concat (map (\<lambda>t. sample ''gpu_arbiter_reconcile_passes_total''
      [(''trigger'', pass_trigger_label t)] (show_nat (pass_count c t))) [PT_ProcEvent, PT_Timer, PT_Manual, PT_Startup])"
    by (simp add: pass_samples_def)
  show ?thesis
    unfolding eq by (rule yields_map) (rule yields_sample, simp_all add: plain_text)
qed

text \<open>The assumption on the renderer of floats: it prints no line break.\<close>

lemma yields_durations:
  assumes "\<And>x. newline \<notin> set (show_f64 x)"
  shows "yields (concat (map (duration_samples show_f64 m) ks)) (concat (map (duration_readings show_f64 m) ks))"
proof (rule yields_concat)
  fix k :: "string \<times> eviction_stage"
  obtain u st where k: "k = (u, st)" by fastforce
  let ?h = "lookup (eviction_durations m) empty_histogram k"
  have "yields (bucket_samples show_f64 u st ?h) (map (\<lambda>i. (''gpu_arbiter_eviction_duration_seconds_bucket'',
      [(''unit'', u), (''stage'', stage_label st), (''le'', show_f64 (EVICTION_DURATION_BUCKETS ! i))],
      show_nat (if i < length (buckets ?h) then buckets ?h ! i else 0))) [0..<length EVICTION_DURATION_BUCKETS])"
    unfolding bucket_samples_def by (rule yields_map) (rule yields_sample, simp_all add: plain_text)
  moreover have "yields (sample ''gpu_arbiter_eviction_duration_seconds_bucket''
      [(''unit'', u), (''stage'', stage_label st), (''le'', ''+Inf'')] (show_nat (hist_count ?h)))
      [(''gpu_arbiter_eviction_duration_seconds_bucket'',
        [(''unit'', u), (''stage'', stage_label st), (''le'', ''+Inf'')], show_nat (hist_count ?h))]"
    by (rule yields_sample) (simp_all add: plain_text)
  moreover have "yields (sample ''gpu_arbiter_eviction_duration_seconds_count''
      [(''unit'', u), (''stage'', stage_label st)] (show_nat (hist_count ?h)))
      [(''gpu_arbiter_eviction_duration_seconds_count'',
        [(''unit'', u), (''stage'', stage_label st)], show_nat (hist_count ?h))]"
    by (rule yields_sample) (simp_all add: plain_text)
  moreover have "yields (sample ''gpu_arbiter_eviction_duration_seconds_sum''
      [(''unit'', u), (''stage'', stage_label st)] (show_f64 (hist_sum ?h)))
      [(''gpu_arbiter_eviction_duration_seconds_sum'',
        [(''unit'', u), (''stage'', stage_label st)], show_f64 (hist_sum ?h))]"
    by (rule yields_sample) (simp_all add: plain_text assms [unfolded newline_def])
  ultimately show "yields (duration_samples show_f64 m k) (duration_readings show_f64 m k)"
    unfolding yields_def
    by (simp add: duration_samples_def duration_readings_def k Let_def del: upt_Suc)
qed

lemma yieldsD: "yields t xs \<Longrightarrow> scrape (t @ rest) = xs @ scrape rest"
  by (simp add: yields_def)

lemmas scrape_rules = yields_gauge [THEN yieldsD] yields_counter [THEN yieldsD] yields_header [THEN yieldsD]
  yields_state_samples [THEN yieldsD] yields_claims [THEN yieldsD] yields_running [THEN yieldsD]
  yields_held [THEN yieldsD] yields_unit_vram [THEN yieldsD] yields_evictions [THEN yieldsD]
  yields_hooks [THEN yieldsD] yields_restarts [THEN yieldsD] yields_passes [THEN yieldsD]

lemma state_label_gaming: "state_label st = ''gaming'' \<longleftrightarrow> st = Gaming"
  by (cases st) simp_all

lemma scrape_state:
  "scrape (render_state snap since_unix @ rest) = state_readings snap since_unix @ scrape rest"
  by (simp add: render_state_def state_readings_def scrape_rules plain_text state_label_gaming)

lemma scrape_units: "scrape (render_units snap @ rest) = unit_readings snap @ scrape rest"
  by (simp add: render_units_def unit_readings_def scrape_rules plain_text)

lemma scrape_presence:
  "scrape (render_presence snap now_s t @ rest) = presence_readings snap now_s t @ scrape rest"
  by (simp add: render_presence_def presence_readings_def scrape_rules plain_text)

lemma scrape_counters:
  assumes "\<And>x. newline \<notin> set (show_f64 x)"
  shows "scrape (render_counters show_f64 m hooks dropped @ rest)
     = counter_readings show_f64 m hooks dropped @ scrape rest"
  by (simp add: render_counters_def counter_readings_def scrape_rules plain_text
      yields_durations [OF assms, THEN yieldsD])

lemma scrape_page:
  assumes "\<And>x. newline \<notin> set (show_f64 x)"
  shows "scrape (render_metrics show_f64 snap m hooks since_unix now_s t dropped)
     = state_readings snap since_unix @ unit_readings snap @ presence_readings snap now_s t
       @ counter_readings show_f64 m hooks dropped"
proof -
  have "scrape [] = []" by (simp add: scrape_def parse_line_def map_filter_simps)
  moreover have "scrape (render_metrics show_f64 snap m hooks since_unix now_s t dropped @ [])
      = state_readings snap since_unix @ unit_readings snap @ presence_readings snap now_s t
        @ counter_readings show_f64 m hooks dropped @ scrape []"
    unfolding render_metrics_def append_assoc scrape_state scrape_units scrape_presence scrape_counters [OF assms] ..
  ultimately show ?thesis by simp
qed

end
