(* ===== verification/Control_Socket.thy ===== *)
theory Control_Socket
  imports Config
begin

text \<open>
  \<open>bind_uds\<close> of \<open>src/http.rs\<close>: how a starting daemon takes the unix control socket. Several daemons
  may start at once, so each call is a sequence of file-system steps that interleave freely; the
  directory entry at \<open>socket_path\<close> and the private staging directories are the shared state. What
  the operating system may refuse is the parameter \<open>uds_faults\<close>; which of its calls replace, refuse
  or remove an entry is the documented behaviour of the system calls.
\<close>

section \<open>Errors and the probe\<close>

datatype http_error = Http_Io io_error | SocketInUse

text \<open>How the live probe's connect ends.\<close>

datatype connect_result = Connected | Connect_Failed io_kind | Connect_Timeout

fun socket_is_live :: "connect_result \<Rightarrow> bool" where
  "socket_is_live Connected = True"
| "socket_is_live (Connect_Failed e) = (e \<noteq> IO_NotFound \<and> e \<noteq> IO_ConnectionRefused)"
| "socket_is_live Connect_Timeout = True"

section \<open>The listeners\<close>

text \<open>
  Binding the TCP port, and serving a bound listener, of which only the end is of interest: each from
  what the call answers. The convenience \<open>serve\<close> is the one after the other.
\<close>

definition http_bind :: "io_error option \<Rightarrow> http_error + unit" where
  "http_bind r = (case r of Some e \<Rightarrow> Inl (Http_Io e) | None \<Rightarrow> Inr ())"

definition serve_on :: "io_error option \<Rightarrow> http_error + unit" where
  "serve_on r = (case r of Some e \<Rightarrow> Inl (Http_Io e) | None \<Rightarrow> Inr ())"

definition serve :: "io_error option \<Rightarrow> io_error option \<Rightarrow> http_error + unit" where
  "serve bound served = (case http_bind bound of Inl e \<Rightarrow> Inl e | Inr _ \<Rightarrow> serve_on served)"

section \<open>The directory\<close>

text \<open>
  An entry: a socket one of the daemons bound (its number, and whether its mode is \<open>0600\<close> yet), a
  socket of another process, alive or abandoned, or a plain file.
\<close>

datatype node = Sock nat bool | Foreign bool | Plain_File

definition connect :: "node option \<Rightarrow> connect_result" where
  "connect n =
     (case n of
        None \<Rightarrow> Connect_Failed IO_NotFound
      | Some (Sock _ _) \<Rightarrow> Connected
      | Some (Foreign live) \<Rightarrow> if live then Connected else Connect_Failed IO_ConnectionRefused
      | Some Plain_File \<Rightarrow> Connect_Failed IO_ConnectionRefused)"

datatype uds_pc =
    Uds_Parent
  | Uds_Probe
  | Uds_Remove
  | Uds_Stage
  | Uds_Bind
  | Uds_Chmod
  | Uds_Move
  | Uds_Clean "io_error + unit"
  | Uds_Done "http_error + unit"

record uds_world =
  at_path :: "node option"
  staged :: "nat \<Rightarrow> node option option"
  pc_of :: "nat \<Rightarrow> uds_pc"

record uds_faults =
  f_parent :: "nat \<Rightarrow> io_error option"
  f_remove :: "nat \<Rightarrow> io_error option"
  f_stage :: "nat \<Rightarrow> io_error option"
  f_bind :: "nat \<Rightarrow> io_error option"
  f_chmod :: "nat \<Rightarrow> io_error option"
  f_move :: "nat \<Rightarrow> io_error option"

fun io_kind_of :: "io_error \<Rightarrow> io_kind" where
  "io_kind_of (IoError k _) = k"

section \<open>The private directories\<close>

text \<open>
  \<open>n\<close> counts the calls within a process, so no two calls on a host share a staging directory. \<open>path_join\<close>
  is \<open>Path::join\<close> with a plain name.
\<close>

definition path_join :: "string \<Rightarrow> string \<Rightarrow> string" where
  "path_join parent name =
     (if parent = [] \<or> last parent = CHR ''/'' then parent @ name else parent @ ''/'' @ name)"

definition uds_staging_dir_path :: "string \<Rightarrow> nat \<Rightarrow> nat \<Rightarrow> string" where
  "uds_staging_dir_path parent pid n =
     path_join parent (''.gpu-arbiter-bind-'' @ show_nat pid @ ''-'' @ show_nat n)"

definition staged_socket_path :: "string \<Rightarrow> string" where
  "staged_socket_path staging_dir = path_join staging_dir ''gpu-arbiter.sock''"

text \<open>When the parent directory earns a warning: its mode and owner, and the effective user.\<close>

definition uds_parent_dir_is_loose :: "u32 \<Rightarrow> u32 \<Rightarrow> u32 \<Rightarrow> bool" where
  "uds_parent_dir_is_loose st_mode owner our_uid \<longleftrightarrow>
     (let mode = and st_mode 0x1FF in and mode 0x3F \<noteq> 0 \<or> owner \<noteq> our_uid)"

section \<open>The steps\<close>

text \<open>\<open>rename_no_replace\<close>: refuses an existing destination.\<close>

definition rename_no_replace :: "uds_faults \<Rightarrow> nat \<Rightarrow> uds_world \<Rightarrow> (io_error + unit) \<times> uds_world" where
  "rename_no_replace F i w =
     (case f_move F i of
        Some e \<Rightarrow> (Inl e, w)
      | None \<Rightarrow>
          if at_path w \<noteq> None then (Inl (IoError IO_AlreadyExists ''File exists''), w)
          else (Inr (), w\<lparr> at_path := (case staged w i of Some n \<Rightarrow> n | None \<Rightarrow> None),
                           staged := (staged w)(i \<mapsto> None) \<rparr>))"

text \<open>
  Where there is no such system call: a hard link, which refuses an existing destination too, and
  the removal of the staged name. \<open>f_unlink\<close> is what the removal may answer.
\<close>

definition link_no_replace ::
  "uds_faults \<Rightarrow> (nat \<Rightarrow> io_error option) \<Rightarrow> nat \<Rightarrow> uds_world \<Rightarrow> (io_error + unit) \<times> uds_world" where
  "link_no_replace F f_unlink i w =
     (case f_move F i of
        Some e \<Rightarrow> (Inl e, w)
      | None \<Rightarrow>
          if at_path w \<noteq> None then (Inl (IoError IO_AlreadyExists ''File exists''), w)
          else let w1 = w\<lparr> at_path := (case staged w i of Some n \<Rightarrow> n | None \<Rightarrow> None) \<rparr>
               in case f_unlink i of
                    Some e \<Rightarrow> (Inl e, w1)
                  | None \<Rightarrow> (Inr (), w1\<lparr> staged := (staged w1)(i \<mapsto> None) \<rparr>))"

text \<open>The result of \<open>bind_uds\<close> from the result of \<open>bind_uds_via_staging\<close>.\<close>

definition uds_result :: "io_error + unit \<Rightarrow> http_error + unit" where
  "uds_result r =
     (case r of
        Inr _ \<Rightarrow> Inr ()
      | Inl e \<Rightarrow> Inl (if io_kind_of e = IO_AlreadyExists then SocketInUse else Http_Io e))"

definition goto :: "nat \<Rightarrow> uds_pc \<Rightarrow> uds_world \<Rightarrow> uds_world" where
  "goto i pc w = w\<lparr> pc_of := (pc_of w)(i := pc) \<rparr>"

definition uds_step :: "uds_faults \<Rightarrow> nat \<Rightarrow> uds_world \<Rightarrow> uds_world" where
  "uds_step F i w =
     (case pc_of w i of
        Uds_Parent \<Rightarrow>
          (case f_parent F i of
             Some e \<Rightarrow> goto i (Uds_Done (Inl (Http_Io e))) w
           | None \<Rightarrow> goto i Uds_Probe w)
      | Uds_Probe \<Rightarrow>
          if socket_is_live (connect (at_path w)) then goto i (Uds_Done (Inl SocketInUse)) w
          else goto i Uds_Remove w
      | Uds_Remove \<Rightarrow>
          (case f_remove F i of
             Some e \<Rightarrow>
               if io_kind_of e = IO_NotFound then goto i Uds_Stage w
               else goto i (Uds_Done (Inl (Http_Io e))) w
           | None \<Rightarrow> goto i Uds_Stage (w\<lparr> at_path := None \<rparr>))
      | Uds_Stage \<Rightarrow>
          (case f_stage F i of
             Some e \<Rightarrow> goto i (Uds_Done (Inl (Http_Io e))) w
           | None \<Rightarrow> goto i Uds_Bind (w\<lparr> staged := (staged w)(i \<mapsto> None) \<rparr>))
      | Uds_Bind \<Rightarrow>
          (case f_bind F i of
             Some e \<Rightarrow> goto i (Uds_Clean (Inl e)) w
           | None \<Rightarrow> goto i Uds_Chmod (w\<lparr> staged := (staged w)(i \<mapsto> Some (Sock i False)) \<rparr>))
      | Uds_Chmod \<Rightarrow>
          (case f_chmod F i of
             Some e \<Rightarrow> goto i (Uds_Clean (Inl e)) w
           | None \<Rightarrow> goto i Uds_Move (w\<lparr> staged := (staged w)(i \<mapsto> Some (Sock i True)) \<rparr>))
      | Uds_Move \<Rightarrow> (case rename_no_replace F i w of (r, w') \<Rightarrow> goto i (Uds_Clean r) w')
      | Uds_Clean r \<Rightarrow> goto i (Uds_Done (uds_result r)) (w\<lparr> staged := (staged w)(i := None) \<rparr>)
      | Uds_Done r \<Rightarrow> w)"

text \<open>A run under a schedule: which daemon takes the next step.\<close>

definition uds_run :: "uds_faults \<Rightarrow> nat list \<Rightarrow> uds_world \<Rightarrow> uds_world" where
  "uds_run F sched w = fold (uds_step F) sched w"

definition uds_start :: "node option \<Rightarrow> uds_world" where
  "uds_start n = \<lparr> at_path = n, staged = Map.empty, pc_of = (\<lambda>_. Uds_Parent) \<rparr>"

text \<open>One call with nobody else around: eight steps.\<close>

definition bind_uds :: "uds_faults \<Rightarrow> node option \<Rightarrow> uds_world" where
  "bind_uds F n = uds_run F (replicate 8 0) (uds_start n)"

definition no_faults :: uds_faults where
  "no_faults = \<lparr> f_parent = Map.empty, f_remove = Map.empty, f_stage = Map.empty, f_bind = Map.empty,
     f_chmod = Map.empty, f_move = Map.empty \<rparr>"

section \<open>Lemmas\<close>

text \<open>The two ways to move agree as long as the staged name can be removed.\<close>

lemma link_is_rename: "f_unlink i = None \<Longrightarrow> link_no_replace F f_unlink i w = rename_no_replace F i w"
  by (simp add: link_no_replace_def rename_no_replace_def Let_def split: option.split)

lemma path_join_inject: "path_join p a = path_join p b \<longleftrightarrow> a = b"
  by (simp add: path_join_def)

lemma takeWhile_digits: "takeWhile is_digit (show_nat n @ CHR ''-'' # x) = show_nat n"
proof -
  have "\<forall>c\<in>set (show_nat n). is_digit c" using show_nat_digits [of n] by (simp add: list_all_iff)
  then have "takeWhile is_digit (show_nat n @ CHR ''-'' # x)
      = show_nat n @ takeWhile is_digit (CHR ''-'' # x)"
    by (rule takeWhile_append2 [OF bspec])
  then show ?thesis by (simp add: is_digit_def byte_def)
qed

text \<open>No two calls of \<open>bind_uds\<close>, in one process or in two, share a staging directory.\<close>

lemma staging_dirs_distinct:
  "uds_staging_dir_path parent pid n = uds_staging_dir_path parent pid' n' \<longleftrightarrow> pid = pid' \<and> n = n'"
proof
  assume "uds_staging_dir_path parent pid n = uds_staging_dir_path parent pid' n'"
  then have eq: "show_nat pid @ CHR ''-'' # show_nat n = show_nat pid' @ CHR ''-'' # show_nat n'"
    by (simp add: uds_staging_dir_path_def path_join_inject)
  then have p: "show_nat pid = show_nat pid'" by (metis takeWhile_digits)
  with eq have "show_nat n = show_nat n'" by simp
  with p show "pid = pid' \<and> n = n'" by (metis digits_val_show_nat)
qed simp

text \<open>A directory earns no warning exactly when its owner is the daemon's user and no other may use it.\<close>

lemma parent_dir_private:
  "\<not> uds_parent_dir_is_loose st_mode owner our_uid \<longleftrightarrow>
     owner = our_uid \<and> (\<forall>i<6. \<not> bit st_mode i)"
proof -
  have mask: "(0x3F :: u32) = mask 6" by (simp add: mask_eq_exp_minus_1)
  have "and (and st_mode 0x1FF) 0x3F = and st_mode (0x3F :: u32)"
    by (simp add: and.assoc)
  then have "uds_parent_dir_is_loose st_mode owner our_uid \<longleftrightarrow> and st_mode (mask 6) \<noteq> 0 \<or> owner \<noteq> our_uid"
    by (simp add: uds_parent_dir_is_loose_def Let_def mask)
  moreover have "and st_mode (mask 6) = 0 \<longleftrightarrow> (\<forall>i<6. \<not> bit st_mode i)"
  proof -
    have less: "i < 32" if "i < 6" for i :: nat using that by simp
    show ?thesis by (auto simp: bit_eq_iff bit_simps dest: less)
  qed
  ultimately show ?thesis by auto
qed

end
