(* ===== verification/Cli.thy ===== *)
theory Cli
  imports Arbiter_State
begin

text \<open>
  \<open>src/cli.rs\<close>: the argument parser, the resolution of the config path and of the daemon's URL,
  \<open>--check-config\<close>, and the pure predicates and renderers of \<open>status\<close>, \<open>wait\<close> and \<open>watch\<close>. The
  environment, the config file, the version of the build and the JSON library (its printer) are
  arguments.
\<close>

section \<open>Constants\<close>

definition DEFAULT_CONFIG_PATH :: "platform \<Rightarrow> string" where
  "DEFAULT_CONFIG_PATH p =
     (if p = Windows
      then ''C:'' @ [CHR 0x5C] @ ''ProgramData'' @ [CHR 0x5C] @ ''gpu-arbiter'' @ [CHR 0x5C] @ ''config.toml''
      else ''/etc/gpu-arbiter/config.toml'')"

definition CONFIG_ENV_VAR :: string where
  "CONFIG_ENV_VAR = ''GPU_ARBITER_CONFIG''"

definition DEFAULT_WAIT_TIMEOUT_S :: u64 where
  "DEFAULT_WAIT_TIMEOUT_S = 60"

definition POLL_INTERVAL :: time where
  "POLL_INTERVAL = from_secs 2"

section \<open>Commands\<close>

datatype usage_error = UsageError string

datatype wait_for = Wait_Available | Wait_Claimed

definition squoted :: "string \<Rightarrow> string" where
  "squoted s = [CHR 0x27] @ s @ [CHR 0x27]"

definition parse_wait_for :: "string \<Rightarrow> usage_error + wait_for" where
  "parse_wait_for s =
     (if s = ''available'' then Inr Wait_Available
      else if s = ''claimed'' then Inr Wait_Claimed
      else Inl (UsageError (''--for must be '' @ squoted ''available'' @ '' or '' @ squoted ''claimed''
                  @ '', got '' @ squoted s)))"

datatype command =
    RunDaemon "string option"
  | CheckConfig "string option"
  | Status_Cmd (cfg_flag: "string option") (url_flag: "string option") (json_flag: bool) (quiet_flag: bool)
  | Wait_Cmd "string option" "string option" wait_for u64
  | Watch_Cmd "string option" "string option" bool
  | Version
  | Help

record raw_args =
  ra_subcommand :: "string option"
  ra_config :: "string option"
  ra_check_config :: bool
  ra_json :: bool
  ra_quiet :: bool
  ra_url :: "string option"
  ra_for_state :: "string option"
  ra_timeout_s :: "string option"

definition no_args :: raw_args where
  "no_args = \<lparr> ra_subcommand = None, ra_config = None, ra_check_config = False, ra_json = False,
     ra_quiet = False, ra_url = None, ra_for_state = None, ra_timeout_s = None \<rparr>"

section \<open>Validation\<close>

text \<open>The first of the combinations that does not apply decides the message.\<close>

fun rejects :: "(bool \<times> string) list \<Rightarrow> usage_error option" where
  "rejects [] = None"
| "rejects ((c, msg) # rest) = (if c then Some (UsageError msg) else rejects rest)"

definition finalize_status :: "raw_args \<Rightarrow> usage_error + command" where
  "finalize_status raw =
     (case rejects
        [(ra_check_config raw, ''--check-config cannot be combined with `status`''),
         (ra_json raw \<and> ra_quiet raw, ''--json and --quiet/-q are mutually exclusive''),
         (ra_for_state raw \<noteq> None, ''--for is only valid with `wait`''),
         (ra_timeout_s raw \<noteq> None, ''--timeout is only valid with `wait`'')] of
        Some e \<Rightarrow> Inl e
      | None \<Rightarrow> Inr (Status_Cmd (ra_config raw) (ra_url raw) (ra_json raw) (ra_quiet raw)))"

definition finalize_wait :: "raw_args \<Rightarrow> usage_error + command" where
  "finalize_wait raw =
     (case rejects
        [(ra_check_config raw, ''--check-config cannot be combined with `wait`''),
         (ra_json raw, ''--json is only valid with `status`/`watch`''),
         (ra_quiet raw, ''--quiet/-q is only valid with `status`'')] of
        Some e \<Rightarrow> Inl e
      | None \<Rightarrow>
          (case (case ra_for_state raw of Some s \<Rightarrow> parse_wait_for s | None \<Rightarrow> Inr Wait_Available) of
             Inl e \<Rightarrow> Inl e
           | Inr for_state \<Rightarrow>
               (case ra_timeout_s raw of
                  None \<Rightarrow> Inr (Wait_Cmd (ra_config raw) (ra_url raw) for_state DEFAULT_WAIT_TIMEOUT_S)
                | Some s \<Rightarrow>
                    (case parse_u64 s of
                       Some n \<Rightarrow> Inr (Wait_Cmd (ra_config raw) (ra_url raw) for_state n)
                     | None \<Rightarrow> Inl (UsageError (''--timeout requires an integer number of seconds, got ''
                                      @ squoted s))))))"

definition finalize_watch :: "raw_args \<Rightarrow> usage_error + command" where
  "finalize_watch raw =
     (case rejects
        [(ra_check_config raw, ''--check-config cannot be combined with `watch`''),
         (ra_quiet raw, ''--quiet/-q is only valid with `status`''),
         (ra_for_state raw \<noteq> None, ''--for is only valid with `wait`''),
         (ra_timeout_s raw \<noteq> None, ''--timeout is only valid with `wait`'')] of
        Some e \<Rightarrow> Inl e
      | None \<Rightarrow> Inr (Watch_Cmd (ra_config raw) (ra_url raw) (ra_json raw)))"

definition finalize_none :: "raw_args \<Rightarrow> usage_error + command" where
  "finalize_none raw =
     (case rejects
        [(ra_json raw, ''--json is only valid with the `status`/`watch` subcommands''),
         (ra_quiet raw, ''--quiet/-q is only valid with the `status` subcommand''),
         (ra_url raw \<noteq> None, ''--url is only valid with `status`/`wait`/`watch`''),
         (ra_for_state raw \<noteq> None, ''--for is only valid with `wait`''),
         (ra_timeout_s raw \<noteq> None, ''--timeout is only valid with `wait`'')] of
        Some e \<Rightarrow> Inl e
      | None \<Rightarrow>
          if ra_check_config raw then Inr (CheckConfig (ra_config raw)) else Inr (RunDaemon (ra_config raw)))"

definition finalize :: "raw_args \<Rightarrow> usage_error + command" where
  "finalize raw =
     (case ra_subcommand raw of
        Some s \<Rightarrow>
          if s = ''status'' then finalize_status raw
          else if s = ''wait'' then finalize_wait raw
          else if s = ''watch'' then finalize_watch raw
          else Inl (UsageError (''unknown subcommand: '' @ s))
      | None \<Rightarrow> finalize_none raw)"

section \<open>The parser\<close>

text \<open>The flags that take a value, by the field they set.\<close>

definition set_value :: "string \<Rightarrow> string \<Rightarrow> raw_args \<Rightarrow> raw_args" where
  "set_value flag v raw =
     (if flag = ''--config'' \<or> flag = ''-c'' then raw\<lparr> ra_config := Some v \<rparr>
      else if flag = ''--url'' then raw\<lparr> ra_url := Some v \<rparr>
      else if flag = ''--for'' then raw\<lparr> ra_for_state := Some v \<rparr>
      else raw\<lparr> ra_timeout_s := Some v \<rparr>)"

definition value_flags :: "string list" where
  "value_flags = [''--config'', ''-c'', ''--url'', ''--for'', ''--timeout'']"

definition long_value_flags :: "string list" where
  "long_value_flags = [''--config'', ''--url'', ''--for'', ''--timeout'']"

text \<open>The callers matched the prefix \<open>--flag=\<close>, so the \<open>expect\<close> of the first branch never fires.\<close>

definition non_empty_eq :: "string \<Rightarrow> usage_error + string" where
  "non_empty_eq arg =
     (case split_once arg ''='' of
        None \<Rightarrow> Inl (UsageError [])
      | Some (flag, v) \<Rightarrow>
          if v = [] then Inl (UsageError (flag @ ''= requires a non-empty value'')) else Inr v)"

fun parse_loop :: "raw_args \<Rightarrow> string list \<Rightarrow> usage_error + command" where
  "parse_loop raw [] = finalize raw"
| "parse_loop raw (arg # rest) =
     (if arg = ''--version'' \<or> arg = ''-V'' then Inr Version
      else if arg = ''--help'' \<or> arg = ''-h'' then Inr Help
      else if arg = ''--check-config'' then parse_loop (raw\<lparr> ra_check_config := True \<rparr>) rest
      else if arg = ''--json'' then parse_loop (raw\<lparr> ra_json := True \<rparr>) rest
      else if arg = ''-q'' \<or> arg = ''--quiet'' then parse_loop (raw\<lparr> ra_quiet := True \<rparr>) rest
      else if arg \<in> set value_flags then
        (case rest of
           v # rest' \<Rightarrow>
             if v \<noteq> [] then parse_loop (set_value arg v raw) rest'
             else Inl (UsageError (arg @ '' requires a non-empty value''))
         | [] \<Rightarrow> Inl (UsageError (arg @ '' requires a non-empty value'')))
      else (case find (\<lambda>f. starts_with arg (f @ ''='')) long_value_flags of
              Some flag \<Rightarrow>
                (case non_empty_eq arg of
                   Inl e \<Rightarrow> Inl e
                 | Inr v \<Rightarrow> parse_loop (set_value flag v raw) rest)
            | None \<Rightarrow>
                if starts_with arg ''-'' then Inl (UsageError (''unknown flag: '' @ arg))
                else if ra_subcommand raw \<noteq> None then Inl (UsageError (''unexpected argument: '' @ arg))
                else parse_loop (raw\<lparr> ra_subcommand := Some arg \<rparr>) rest))"

definition parse_args :: "string list \<Rightarrow> usage_error + command" where
  "parse_args args = parse_loop no_args args"

section \<open>Paths and URLs\<close>

definition resolve_config_path :: "platform \<Rightarrow> string option \<Rightarrow> (string \<Rightarrow> string option) \<Rightarrow> string" where
  "resolve_config_path p flag env =
     (case flag of
        Some path \<Rightarrow> path
      | None \<Rightarrow>
          (case env CONFIG_ENV_VAR of
             Some path \<Rightarrow> if path \<noteq> [] then path else DEFAULT_CONFIG_PATH p
           | None \<Rightarrow> DEFAULT_CONFIG_PATH p))"

definition bad_ollama_url :: "managed_unit \<Rightarrow> string option" where
  "bad_ollama_url u =
     (if introspection_of u \<noteq> Intro_Ollama then None
      else case ollama_url u of
             None \<Rightarrow> None
           | Some s \<Rightarrow>
               if str_trim s \<noteq> [] \<and> \<not> starts_with (str_trim s) ''http://''
               then Some (unit_name u @ '' ('' @ s @ '')'') else None)"

definition check_config ::
  "platform \<Rightarrow> (string \<Rightarrow> string + config) \<Rightarrow> (string \<Rightarrow> io_error + string) \<Rightarrow> string \<Rightarrow>
   config_error + string" where
  "check_config p toml read path =
     (case load p toml read path of
        Inl e \<Rightarrow> Inl e
      | Inr cfg \<Rightarrow>
          let deprecated = deprecated_keys cfg;
              bad_url = List.map_filter bad_ollama_url (resolved_units cfg)
          in Inr (''OK: '' @ path
               @ (if deprecated \<noteq> []
                  then [newline] @ ''WARNING: deprecated keys, ignored since 0.14.0: ''
                       @ str_join '', '' deprecated
                       @ ''. Every eviction now stops the unit; resume_cmd still runs when it comes back. ''
                       @ ''Remove these keys.''
                  else [])
               @ (if bad_url \<noteq> []
                  then [newline] @ ''WARNING: ollama_url is not a plain http:// URL on: ''
                       @ str_join '', '' bad_url
                       @ ''. The daemon has no TLS support, so model queries for these units will fail ''
                       @ ''and report models_error.''
                  else [])))"

section \<open>The help text\<close>

definition em_dash :: string where
  "em_dash = [CHR 0xE2, CHR 0x80, CHR 0x94]"

definition help_text :: "platform \<Rightarrow> string \<Rightarrow> string" where
  "help_text p version = str_join [newline]
     [''gpu-arbiter '' @ version @ '' '' @ em_dash @ '' gaming-first GPU arbiter daemon'',
      [],
      ''Usage:'',
      ''  gpu-arbiter [--config <PATH>] [--check-config]              Run the daemon (Linux), or validate config'',
      ''  gpu-arbiter status [--config <PATH>] [--url <URL>] [--json | -q]'',
      ''                     Query the running daemon'' @ [CHR 0x27] @ ''s /status'',
      ''  gpu-arbiter wait [--for available|claimed] [--timeout <SECS>] [--url <URL>]'',
      ''                     Block until the daemon reaches the given state'',
      ''  gpu-arbiter watch [--json] [--url <URL>]'',
      ''                     Print one line per state transition until killed'',
      ''  gpu-arbiter --version | --help'',
      [],
      ''Options:'',
      ''  -c, --config <PATH>   Config file path (see precedence below)'',
      ''      --check-config    Load + validate the resolved config, print OK/<error>, exit 0/1'',
      ''      --url <URL>       (status/wait/watch) daemon base URL, e.g. http://host:48750'',
      ''      --json            (status/watch) print raw JSON / NDJSON instead of a human summary'',
      ''  -q, --quiet           (status) no output; exit 0 if available, 1 otherwise, 2 if unreachable'',
      ''      --for <STATE>     (wait) '' @ squoted ''available'' @ '' (default) or '' @ squoted ''claimed'',
      ''      --timeout <SECS>  (wait) give up after this long (default '' @ show_nat (unat DEFAULT_WAIT_TIMEOUT_S) @ ''s)'',
      ''  -V, --version         Print version and exit'',
      ''  -h, --help            Print this help and exit'',
      [],
      ''Subcommands:'',
      ''  status   GET /status and print a human-readable summary (--json for raw JSON,'',
      ''           -q/--quiet for no output '' @ em_dash @ '' see the exit codes below).'',
      ''  wait     Poll /status (every '' @ show_nat (POLL_INTERVAL div 1000000000) @ ''s) until --for is reached; exit 0 on success,'',
      ''           1 on timeout or if the daemon is unreachable.'',
      ''  watch    Poll /status (every '' @ show_nat (POLL_INTERVAL div 1000000000) @ ''s) and print one line per state transition'',
      ''           (plus the initial observation) until killed; --json for NDJSON.'',
      [],
      ''Daemon location (status/wait/watch), highest precedence first:'',
      ''  1. --url <URL>'',
      ''  2. $GPU_ARBITER_URL environment variable'',
      ''  3. http://127.0.0.1:<port> from the local config (see below)'',
      [],
      ''Config path precedence (highest first):'',
      ''  1. --config <PATH> / -c <PATH>'',
      ''  2. $'' @ CONFIG_ENV_VAR @ '' environment variable'',
      ''  3. '' @ DEFAULT_CONFIG_PATH p @ '' (default)'',
      [],
      ''A missing config file is not an error '' @ em_dash @ '' the daemon falls back to built-in defaults.'']"

section \<open>The daemon's URL\<close>

definition resolve_daemon_url :: "string option \<Rightarrow> string option \<Rightarrow> nat \<Rightarrow> string" where
  "resolve_daemon_url url_opt env local_port =
     (case url_opt of
        Some u \<Rightarrow> trim_end_matches u (CHR ''/'')
      | None \<Rightarrow>
          (case env of
             Some u \<Rightarrow>
               if u \<noteq> [] then trim_end_matches u (CHR ''/'')
               else ''http://127.0.0.1:'' @ show_nat local_port
           | None \<Rightarrow> ''http://127.0.0.1:'' @ show_nat local_port))"

section \<open>Predicates of the clients\<close>

definition wait_condition_met :: "string \<Rightarrow> wait_for \<Rightarrow> bool" where
  "wait_condition_met st for_state =
     (case for_state of Wait_Available \<Rightarrow> st = ''available'' | Wait_Claimed \<Rightarrow> st = ''gaming'')"

definition quiet_exit_code :: "string \<Rightarrow> int" where
  "quiet_exit_code st = (if st \<noteq> ''available'' then 1 else 0)"

definition watch_should_emit :: "string option \<Rightarrow> string \<Rightarrow> bool" where
  "watch_should_emit prev nxt \<longleftrightarrow> prev \<noteq> Some nxt"

definition watch_human_line :: "string \<Rightarrow> string option \<Rightarrow> string \<Rightarrow> string list \<Rightarrow> string" where
  "watch_human_line ts prev nxt cs =
     (let claims_str = (if cs = [] then ''-'' else str_join '','' cs)
      in case prev of
           Some p \<Rightarrow> ts @ ''  '' @ p @ '' -> '' @ nxt @ ''  claims='' @ claims_str
         | None \<Rightarrow> ts @ ''  (start) '' @ nxt @ ''  claims='' @ claims_str)"

section \<open>JSON\<close>

text \<open>
  \<open>serde_json::Value\<close>: a number is kept as a \<open>u64\<close> when it is one. The keys of an object are
  distinct. The library's printer is a parameter of the functions that print.
\<close>

datatype json =
    J_Null
  | J_Bool bool
  | J_U64 u64
  | J_Number string
  | J_String string
  | J_Array "json list"
  | J_Object "(string \<times> json) list"

fun json_get :: "string \<Rightarrow> json \<Rightarrow> json option" where
  "json_get k (J_Object kvs) = map_of kvs k"
| "json_get k _ = None"

fun as_str :: "json \<Rightarrow> string option" where
  "as_str (J_String s) = Some s"
| "as_str _ = None"

fun as_bool :: "json \<Rightarrow> bool option" where
  "as_bool (J_Bool b) = Some b"
| "as_bool _ = None"

fun as_u64 :: "json \<Rightarrow> u64 option" where
  "as_u64 (J_U64 n) = Some n"
| "as_u64 _ = None"

fun as_array :: "json \<Rightarrow> json list option" where
  "as_array (J_Array xs) = Some xs"
| "as_array _ = None"

definition get_str :: "string \<Rightarrow> json \<Rightarrow> string \<Rightarrow> string" where
  "get_str k v d = (case Option.bind (json_get k v) as_str of Some s \<Rightarrow> s | None \<Rightarrow> d)"

definition get_strs :: "string \<Rightarrow> json \<Rightarrow> string list" where
  "get_strs k v =
     (case Option.bind (json_get k v) as_array of None \<Rightarrow> [] | Some xs \<Rightarrow> List.map_filter as_str xs)"

definition get_u64 :: "string \<Rightarrow> json \<Rightarrow> u64" where
  "get_u64 k v = (case Option.bind (json_get k v) as_u64 of Some n \<Rightarrow> n | None \<Rightarrow> 0)"

definition watch_json_line ::
  "(json \<Rightarrow> string) \<Rightarrow> string \<Rightarrow> string option \<Rightarrow> string \<Rightarrow> string list \<Rightarrow> string" where
  "watch_json_line print ts prev nxt cs =
     print (J_Object
       [(''ts'', J_String ts), (''from'', case prev of Some p \<Rightarrow> J_String p | None \<Rightarrow> J_Null),
        (''to'', J_String nxt), (''claims'', J_Array (map J_String cs))])"

section \<open>The status summary\<close>

definition render_unit :: "json \<Rightarrow> string" where
  "render_unit u =
     (let models = get_strs ''models'' u
      in ''  '' @ get_str ''unit'' u ''?'' @ '': ''
         @ (case Option.bind (json_get ''running'' u) as_bool of
              Some True \<Rightarrow> ''running'' | Some False \<Rightarrow> ''stopped'' | None \<Rightarrow> ''unknown'')
         @ (case Option.bind (json_get ''vram_mb'' u) as_u64 of
              Some mb \<Rightarrow> '', '' @ show_nat (unat mb) @ '' MiB'' | None \<Rightarrow> [])
         @ (if models = [] then [] else '' ['' @ str_join '', '' models @ '']'')
         @ [newline])"

definition render_status :: "json \<Rightarrow> string" where
  "render_status v =
     (let cs = get_strs ''claims'' v
      in ''State:   '' @ get_str ''state'' v ''?'' @ [newline]
         @ ''Since:   '' @ get_str ''since'' v ''-'' @ [newline]
         @ (if Option.bind (json_get ''degraded'' v) as_bool = Some True
            then ''Degraded: one or more units failed to evict (see daemon logs)'' @ [newline] else [])
         @ (if cs = [] then ''Claims:  (none)'' @ [newline]
            else ''Claims:  '' @ str_join '', '' cs @ [newline])
         @ ''GPU:     '' @ show_nat (unat (get_u64 ''gpu_vram_used_mb'' v)) @ '' / ''
         @ show_nat (unat (get_u64 ''gpu_vram_total_mb'' v)) @ '' MiB VRAM used'' @ [newline]
         @ (case Option.bind (json_get ''units'' v) as_array of
              Some (u # us) \<Rightarrow> ''Units:'' @ [newline] @ concat (map render_unit (u # us))
            | _ \<Rightarrow> ''Units:   (none)'' @ [newline])
         @ ''Daemon:  v'' @ get_str ''version'' v ''?'')"

end
