(* ===== verification/Client.thy ===== *)
theory Client
  imports Cli Polling
begin

text \<open>
  The client half of \<open>src/main.rs\<close>: dispatching a parsed command, locating the daemon, and the
  \<open>status\<close>, \<open>wait\<close> and \<open>watch\<close> subcommands. The HTTP client, the JSON printers, the environment,
  the files and the clocks are the parameter \<open>client_os\<close>. A process is its two output streams and
  its exit code; \<open>cl_fetched\<close> is a ghost log of the polls, newest first.
\<close>

section \<open>The process\<close>

datatype get_result = Get_Failed string | Body_Unreadable string | Got json

record 'w client_os =
  co_get :: "string \<Rightarrow> 'w \<Rightarrow> get_result \<times> time \<times> 'w"
  co_oversleep :: "time \<Rightarrow> 'w \<Rightarrow> time \<times> 'w"
  co_wall :: "'w \<Rightarrow> system_time"
  co_env :: "string \<Rightarrow> string option"
  co_read :: "string \<Rightarrow> io_error + string"
  co_toml :: "string \<Rightarrow> string + config"
  co_platform :: platform
  co_print :: "json \<Rightarrow> string"
  co_pretty :: "json \<Rightarrow> string + string"

record 'w client =
  cl_clock :: time
  cl_world :: 'w
  cl_out :: "string list"
  cl_err :: "string list"
  cl_fetched :: "(string + json) list"

definition println :: "string \<Rightarrow> 'w client \<Rightarrow> 'w client" where
  "println l c = c\<lparr> cl_out := cl_out c @ [l] \<rparr>"

definition eprintln :: "string \<Rightarrow> 'w client \<Rightarrow> 'w client" where
  "eprintln l c = c\<lparr> cl_err := cl_err c @ [l] \<rparr>"

definition thread_sleep :: "'w client_os \<Rightarrow> time \<Rightarrow> 'w client \<Rightarrow> 'w client" where
  "thread_sleep C d c =
     (case co_oversleep C d (cl_world c) of
        (x, w) \<Rightarrow> c\<lparr> cl_clock := cl_clock c + d + x, cl_world := w \<rparr>)"

section \<open>Locating the daemon\<close>

definition resolve_path :: "'w client_os \<Rightarrow> string option \<Rightarrow> string" where
  "resolve_path C flag = resolve_config_path (co_platform C) flag (co_env C)"

text \<open>\<open>Inl\<close>: the process exits with code 1 and this error.\<close>

definition resolve_daemon_url_or_exit ::
  "'w client_os \<Rightarrow> string option \<Rightarrow> string option \<Rightarrow> config_error + string" where
  "resolve_daemon_url_or_exit C config_flag url_opt =
     (let env = co_env C ''GPU_ARBITER_URL''
      in if url_opt \<noteq> None \<or> (case env of None \<Rightarrow> False | Some s \<Rightarrow> s \<noteq> [])
         then Inr (resolve_daemon_url url_opt env 0)
         else case load (co_platform C) (co_toml C) (co_read C) (resolve_path C config_flag) of
                Inl e \<Rightarrow> Inl e
              | Inr cfg \<Rightarrow> Inr (resolve_daemon_url None None (unat (port cfg))))"

definition fetch_status_json :: "'w client_os \<Rightarrow> string \<Rightarrow> 'w client \<Rightarrow> (string + json) \<times> 'w client" where
  "fetch_status_json C base_url c =
     (let url = base_url @ ''/status''
      in case co_get C url (cl_world c) of
           (g, d, w) \<Rightarrow>
             let r = (case g of
                        Got v \<Rightarrow> Inr v
                      | Body_Unreadable e \<Rightarrow> Inl (''reading /status response from '' @ url @ '': '' @ e)
                      | Get_Failed e \<Rightarrow> Inl (''querying '' @ url @ '': '' @ e))
             in (r, c\<lparr> cl_clock := cl_clock c + d, cl_world := w, cl_fetched := r # cl_fetched c \<rparr>))"

section \<open>\<open>status\<close>\<close>

definition complain :: "string \<Rightarrow> 'w client \<Rightarrow> 'w client" where
  "complain e c = eprintln ''Is the gpu-arbiter daemon running?'' (eprintln (''ERROR: '' @ e) c)"

definition run_status :: "'w client_os \<Rightarrow> string \<Rightarrow> bool \<Rightarrow> bool \<Rightarrow> 'w client \<Rightarrow> int \<times> 'w client" where
  "run_status C base_url as_json quiet c =
     (case fetch_status_json C base_url c of
        (Inl e, c1) \<Rightarrow> if quiet then (2, c1) else (1, complain e c1)
      | (Inr body, c1) \<Rightarrow>
          if quiet then (quiet_exit_code (get_str ''state'' body []), c1)
          else if as_json
          then (case co_pretty C body of
                  Inr s \<Rightarrow> (0, println s c1)
                | Inl e \<Rightarrow> (1, eprintln (''ERROR: re-serializing /status JSON: '' @ e) c1))
          else (0, println (render_status body) c1))"

section \<open>\<open>wait\<close>\<close>

fun wait_for_debug :: "wait_for \<Rightarrow> string" where
  "wait_for_debug Wait_Available = ''Available''"
| "wait_for_debug Wait_Claimed = ''Claimed''"

text \<open>One round of the loop: the exit code, or \<open>None\<close> to sleep and poll again.\<close>

definition wait_round ::
  "'w client_os \<Rightarrow> string \<Rightarrow> wait_for \<Rightarrow> u64 \<Rightarrow> time \<Rightarrow> 'w client \<Rightarrow> int option \<times> 'w client" where
  "wait_round C base_url for_state timeout_s deadline c =
     (case fetch_status_json C base_url c of
        (Inl e, c1) \<Rightarrow> (Some 1, complain e c1)
      | (Inr body, c1) \<Rightarrow>
          if wait_condition_met (get_str ''state'' body []) for_state then (Some 0, c1)
          else if deadline \<le> cl_clock c1
          then (Some 1, eprintln (''ERROR: timed out after '' @ show_nat (unat timeout_s)
                  @ ''s waiting for state to reach '' @ wait_for_debug for_state) c1)
          else (None, c1))"

lemma thread_sleep_clock: "cl_clock c + d \<le> cl_clock (thread_sleep C d c)"
  by (simp add: thread_sleep_def split: prod.split)

lemma fetch_clock: "fetch_status_json C base_url c = (r, c1) \<Longrightarrow> cl_clock c \<le> cl_clock c1"
  by (auto simp: fetch_status_json_def Let_def split: prod.splits)

lemma wait_round_clock: "wait_round C base_url fs t deadline c = (r, c1) \<Longrightarrow> cl_clock c \<le> cl_clock c1"
  by (auto simp: wait_round_def complain_def eprintln_def split: prod.splits sum.splits if_splits
      dest!: fetch_clock)

lemma wait_round_waiting:
  "wait_round C base_url fs t deadline c = (None, c1) \<Longrightarrow> cl_clock c1 < deadline"
  by (auto simp: wait_round_def split: prod.splits sum.splits if_splits)

function wait_loop ::
  "'w client_os \<Rightarrow> string \<Rightarrow> wait_for \<Rightarrow> u64 \<Rightarrow> time \<Rightarrow> 'w client \<Rightarrow> int \<times> 'w client" where
  "wait_loop C base_url for_state timeout_s deadline c =
     (case wait_round C base_url for_state timeout_s deadline c of
        (Some code, c1) \<Rightarrow> (code, c1)
      | (None, c1) \<Rightarrow> wait_loop C base_url for_state timeout_s deadline (thread_sleep C POLL_INTERVAL c1))"
  by pat_completeness auto

termination
proof (relation "measure (\<lambda>(C, u, fs, t, deadline, c). deadline - cl_clock c)", goal_cases)
  case 1
  show ?case by simp
next
  case (2 C u fs t deadline c x c1)
  then have "wait_round C u fs t deadline c = (None, c1)" by simp
  from wait_round_waiting [OF this] wait_round_clock [OF this] thread_sleep_clock [of c1 POLL_INTERVAL C]
  show ?case by (simp add: POLL_INTERVAL_def from_secs_def)
qed

declare wait_loop.simps [simp del]

text \<open>
  \<open>Instant::now() + timeout\<close> panics when the sum leaves the range of the platform's clock, seconds
  in an \<open>i64\<close>; \<open>None\<close> is that panic.
\<close>

definition instant_add :: "time \<Rightarrow> time \<Rightarrow> time option" where
  "instant_add t d = (if (t + d) div 1000000000 < 2 ^ 63 then Some (t + d) else None)"

definition run_wait ::
  "'w client_os \<Rightarrow> string \<Rightarrow> wait_for \<Rightarrow> u64 \<Rightarrow> 'w client \<Rightarrow> (int \<times> 'w client) option" where
  "run_wait C base_url for_state timeout_s c =
     (case instant_add (cl_clock c) (from_secs (unat timeout_s)) of
        None \<Rightarrow> None
      | Some deadline \<Rightarrow> Some (wait_loop C base_url for_state timeout_s deadline c))"

section \<open>\<open>watch\<close>\<close>

definition watch_poll ::
  "'w client_os \<Rightarrow> string \<Rightarrow> bool \<Rightarrow> string option \<times> 'w client \<Rightarrow> string option \<times> 'w client" where
  "watch_poll C base_url as_json s =
     (case s of (prev, c) \<Rightarrow>
        (case fetch_status_json C base_url c of
           (Inl e, c1) \<Rightarrow> (prev, eprintln (''WARN: '' @ e) c1)
         | (Inr body, c1) \<Rightarrow>
             let st = get_str ''state'' body ''?''
             in if watch_should_emit prev st
                then let cs = get_strs ''claims'' body;
                         ts = format_rfc3339 (co_wall C (cl_world c1));
                         line = (if as_json then watch_json_line (co_print C) ts prev st cs
                                 else watch_human_line ts prev st cs)
                     in (Some st, println line c1)
                else (prev, c1)))"

text \<open>The loop has no exit; its behaviour is that of its first \<open>n\<close> rounds, for every \<open>n\<close>.\<close>

definition watch_round ::
  "'w client_os \<Rightarrow> string \<Rightarrow> bool \<Rightarrow> string option \<times> 'w client \<Rightarrow> string option \<times> 'w client" where
  "watch_round C base_url as_json s =
     (case watch_poll C base_url as_json s of (prev, c) \<Rightarrow> (prev, thread_sleep C POLL_INTERVAL c))"

definition run_watch ::
  "'w client_os \<Rightarrow> string \<Rightarrow> bool \<Rightarrow> nat \<Rightarrow> 'w client \<Rightarrow> string option \<times> 'w client" where
  "run_watch C base_url as_json n c = (watch_round C base_url as_json ^^ n) (None, c)"

section \<open>Dispatch\<close>

fun config_error_text :: "config_error \<Rightarrow> string" where
  "config_error_text (CE_Io path (IoError k msg)) = ''reading config file '' @ path @ '': '' @ msg"
| "config_error_text (CE_Parse e) = ''parsing config: '' @ e"
| "config_error_text (CE_Invalid e) = ''invalid config: '' @ e"

datatype outcome = Exits int | Runs_Daemon string | Watches | Panics

text \<open>Exit with 1 on a config error, or go on with the daemon's URL.\<close>

definition with_daemon_url ::
  "'w client_os \<Rightarrow> string option \<Rightarrow> string option \<Rightarrow> (string \<Rightarrow> 'w client \<Rightarrow> outcome \<times> 'w client) \<Rightarrow>
   'w client \<Rightarrow> outcome \<times> 'w client" where
  "with_daemon_url C cfg url k c =
     (case resolve_daemon_url_or_exit C cfg url of
        Inl e \<Rightarrow> (Exits 1, eprintln (''ERROR: '' @ config_error_text e) c)
      | Inr base_url \<Rightarrow> k base_url c)"

text \<open>\<open>watch\<close> runs until it is killed: its outcome is the state before its first round.\<close>

definition handle_cli ::
  "'w client_os \<Rightarrow> string \<Rightarrow> string list \<Rightarrow> 'w client \<Rightarrow> outcome \<times> 'w client" where
  "handle_cli C version args c =
     (case parse_args args of
        Inl (UsageError e) \<Rightarrow>
          (Exits 2, eprintln (''Try '' @ squoted ''gpu-arbiter --help'' @ '' for usage.'')
                      (eprintln (''gpu-arbiter: '' @ e) c))
      | Inr Version \<Rightarrow> (Exits 0, println (''gpu-arbiter '' @ version) c)
      | Inr Help \<Rightarrow> (Exits 0, println (help_text (co_platform C) version) c)
      | Inr (CheckConfig cfg) \<Rightarrow>
          (case check_config (co_platform C) (co_toml C) (co_read C) (resolve_path C cfg) of
             Inr line \<Rightarrow> (Exits 0, println line c)
           | Inl e \<Rightarrow> (Exits 1, eprintln (''ERROR: '' @ config_error_text e) c))
      | Inr (Status_Cmd cfg url as_json quiet) \<Rightarrow>
          with_daemon_url C cfg url (\<lambda>base c. apfst Exits (run_status C base as_json quiet c)) c
      | Inr (Wait_Cmd cfg url for_state t) \<Rightarrow>
          with_daemon_url C cfg url (\<lambda>base c.
            case run_wait C base for_state t c of
              None \<Rightarrow> (Panics, c)
            | Some (code, c') \<Rightarrow> (Exits code, c')) c
      | Inr (Watch_Cmd cfg url as_json) \<Rightarrow> with_daemon_url C cfg url (\<lambda>base c. (Watches, c)) c
      | Inr (RunDaemon cfg) \<Rightarrow> (Runs_Daemon (resolve_path C cfg), c))"

text \<open>The daemon itself runs on Linux and Windows only; on any other host the process leaves with 1.\<close>

definition unsupported_host :: "'w client \<Rightarrow> outcome \<times> 'w client" where
  "unsupported_host c =
     (Exits 1, eprintln (''gpu-arbiter'' @ [CHR 0x27] @ ''s daemon runs only on Linux and Windows ''
        @ ''(it needs a process-enumeration backend). The CLI client subcommands '' @ em_dash
        @ '' status, wait, watch, --check-config '' @ em_dash @ '' work here.'') c)"

definition main_entry ::
  "'w client_os \<Rightarrow> string \<Rightarrow> string list \<Rightarrow> 'w client \<Rightarrow> outcome \<times> 'w client" where
  "main_entry C version args c =
     (case handle_cli C version args c of
        (Runs_Daemon path, c') \<Rightarrow>
          if co_platform C = MacOS then unsupported_host c' else (Runs_Daemon path, c')
      | r \<Rightarrow> r)"

section \<open>The wait loop as a bounded poll\<close>

interpretation waiting: polling
  cl_clock "\<lambda>c. length (cl_fetched c)" "wait_round C base_url fs t deadline"
  "thread_sleep C POLL_INTERVAL" deadline POLL_INTERVAL "wait_loop C base_url fs t deadline"
proof (unfold_locales, goal_cases)
  case (1 h h1)
  then show ?case
    using wait_round_waiting [OF 1] wait_round_clock [OF 1] by linarith
next
  case (2 h r h1)
  then show ?case by (rule wait_round_clock)
next
  case (3 h r h1)
  then show ?case
    by (auto simp: wait_round_def fetch_status_json_def complain_def eprintln_def Let_def
        split: prod.splits sum.splits if_splits)
next
  case (4 h)
  show ?case by (rule thread_sleep_clock)
next
  case (5 h)
  show ?case by (simp add: thread_sleep_def split: prod.split)
next
  case 6
  show ?case by (simp add: POLL_INTERVAL_def from_secs_def)
next
  case (7 h)
  show ?case
    by (subst wait_loop.simps) (simp split: prod.split option.split)
qed

end
