(* ===== verification/Status_Json.thy ===== *)
theory Status_Json
  imports Cli Arbiter_State "HOL-Library.Monad_Syntax"
begin

text \<open>
  The \<open>/status\<close> payload as JSON: the \<open>Serialize\<close> and \<open>Deserialize\<close> that \<open>src/state.rs\<close> derives for
  \<open>StatusSnapshot\<close> and the types in it. The daemon serves the encoded snapshot, the command line
  reads it field by field, the tray decodes the whole of it.

  The members of an object stand in declaration order; an optional member that is left out decodes
  to \<open>None\<close>, as does \<open>null\<close>. A struct written as a JSON array, which the decoder also takes, is
  left out: nothing here writes one.
\<close>

section \<open>Encoding\<close>

fun state_name :: "arb_state \<Rightarrow> string" where
  "state_name Gaming = ''gaming''"
| "state_name Available = ''available''"
| "state_name Evicting = ''evicting''"

definition json_opt :: "('a \<Rightarrow> json) \<Rightarrow> 'a option \<Rightarrow> json" where
  "json_opt enc v = (case v of None \<Rightarrow> J_Null | Some x \<Rightarrow> enc x)"

text \<open>\<open>skip_serializing_if = "Option::is_none"\<close>.\<close>

definition member_if :: "string \<Rightarrow> ('a \<Rightarrow> json) \<Rightarrow> 'a option \<Rightarrow> (string \<times> json) list" where
  "member_if k enc v = (case v of None \<Rightarrow> [] | Some x \<Rightarrow> [(k, enc x)])"

definition json_i64 :: "int \<Rightarrow> json" where
  "json_i64 i = (if 0 \<le> i then J_U64 (of_int i) else J_Number (show_int i))"

definition json_strs :: "string list \<Rightarrow> json" where
  "json_strs xs = J_Array (map J_String xs)"

definition last_eviction_json :: "last_eviction \<Rightarrow> json" where
  "last_eviction_json e =
     J_Object [(''reason'', J_String (le_reason e)), (''outcome'', J_String (le_outcome e)),
               (''at'', J_String (le_at e))]"

definition unit_status_json :: "unit_status \<Rightarrow> json" where
  "unit_status_json u =
     J_Object ([(''unit'', J_String (us_unit u)), (''running'', json_opt J_Bool (us_running u)),
                (''models'', json_strs (us_models u))]
               @ member_if ''models_error'' J_String (us_models_error u)
               @ member_if ''vram_mb'' J_U64 (us_vram_mb u)
               @ [(''held'', J_Bool (us_held u))]
               @ member_if ''last_eviction'' last_eviction_json (us_last_eviction u))"

definition status_json :: "status_snapshot \<Rightarrow> json" where
  "status_json s =
     J_Object
       [(''version'', J_String (ss_version s)), (''state'', J_String (state_name (ss_state s))),
        (''claims'', json_strs (ss_claims s)), (''units'', J_Array (map unit_status_json (ss_units s))),
        (''gpu_vram_used_mb'', J_U64 (ss_gpu_vram_used_mb s)),
        (''gpu_vram_total_mb'', J_U64 (ss_gpu_vram_total_mb s)), (''since'', J_String (ss_since s)),
        (''local_input_last_unix'', json_i64 (ss_local_input_last_unix s)),
        (''physical_input_devices'', J_U64 (ucast (ss_physical_input_devices s))),
        (''input_monitor_up'', J_Bool (ss_input_monitor_up s)), (''degraded'', J_Bool (ss_degraded s))]"

text \<open>\<open>GET /status\<close>.\<close>

definition status_page :: "string \<Rightarrow> arbiter \<Rightarrow> json" where
  "status_page version a = status_json (snapshot version a)"

section \<open>Decoding\<close>

definition req :: "string \<Rightarrow> (json \<Rightarrow> 'a option) \<Rightarrow> json \<Rightarrow> 'a option" where
  "req k dec v = Option.bind (json_get k v) dec"

definition opt :: "string \<Rightarrow> (json \<Rightarrow> 'a option) \<Rightarrow> json \<Rightarrow> 'a option option" where
  "opt k dec v =
     (case json_get k v of
        None \<Rightarrow> Some None | Some J_Null \<Rightarrow> Some None | Some x \<Rightarrow> map_option Some (dec x))"

definition de_list :: "(json \<Rightarrow> 'a option) \<Rightarrow> json \<Rightarrow> 'a list option" where
  "de_list dec v = Option.bind (as_array v) (\<lambda>xs. those (map dec xs))"

text \<open>A unit variant is its name, or an object whose only member is that name with \<open>null\<close>.\<close>

fun de_state_name :: "string \<Rightarrow> arb_state option" where
  "de_state_name n =
     (if n = ''gaming'' then Some Gaming
      else if n = ''available'' then Some Available
      else if n = ''evicting'' then Some Evicting
      else None)"

fun de_state :: "json \<Rightarrow> arb_state option" where
  "de_state (J_String n) = de_state_name n"
| "de_state (J_Object [(n, J_Null)]) = de_state_name n"
| "de_state _ = None"

fun de_i64 :: "json \<Rightarrow> int option" where
  "de_i64 (J_U64 n) = (if uint n < 2 ^ 63 then Some (uint n) else None)"
| "de_i64 (J_Number (CHR ''-'' # ds)) =
     (case parse_digits ds of
        Some n \<Rightarrow> if 0 < n \<and> n \<le> 2 ^ 63 then Some (- int n) else None
      | None \<Rightarrow> None)"
| "de_i64 _ = None"

fun de_u32 :: "json \<Rightarrow> u32 option" where
  "de_u32 (J_U64 n) = (if uint n < 2 ^ 32 then Some (ucast n) else None)"
| "de_u32 _ = None"

fun is_object :: "json \<Rightarrow> bool" where
  "is_object (J_Object _) = True"
| "is_object _ = False"

definition de_last_eviction :: "json \<Rightarrow> last_eviction option" where
  "de_last_eviction v =
     (if is_object v
      then do { r \<leftarrow> req ''reason'' as_str v; out \<leftarrow> req ''outcome'' as_str v; a \<leftarrow> req ''at'' as_str v;
                Some \<lparr> le_reason = r, le_outcome = out, le_at = a \<rparr> }
      else None)"

definition de_unit_status :: "json \<Rightarrow> unit_status option" where
  "de_unit_status v =
     (if is_object v
      then do { u \<leftarrow> req ''unit'' as_str v; run \<leftarrow> opt ''running'' as_bool v;
                ms \<leftarrow> req ''models'' (de_list as_str) v; e \<leftarrow> opt ''models_error'' as_str v;
                mb \<leftarrow> opt ''vram_mb'' as_u64 v; h \<leftarrow> req ''held'' as_bool v;
                le \<leftarrow> opt ''last_eviction'' de_last_eviction v;
                Some \<lparr> us_unit = u, us_running = run, us_models = ms, us_models_error = e,
                       us_vram_mb = mb, us_held = h, us_last_eviction = le \<rparr> }
      else None)"

definition de_status :: "json \<Rightarrow> status_snapshot option" where
  "de_status v =
     (if is_object v
      then do { ver \<leftarrow> req ''version'' as_str v; st \<leftarrow> req ''state'' de_state v;
                cs \<leftarrow> req ''claims'' (de_list as_str) v; us \<leftarrow> req ''units'' (de_list de_unit_status) v;
                used \<leftarrow> req ''gpu_vram_used_mb'' as_u64 v; tot \<leftarrow> req ''gpu_vram_total_mb'' as_u64 v;
                snc \<leftarrow> req ''since'' as_str v; inp \<leftarrow> req ''local_input_last_unix'' de_i64 v;
                dev \<leftarrow> req ''physical_input_devices'' de_u32 v; up \<leftarrow> req ''input_monitor_up'' as_bool v;
                deg \<leftarrow> req ''degraded'' as_bool v;
                Some \<lparr> ss_version = ver, ss_state = st, ss_claims = cs, ss_units = us,
                       ss_gpu_vram_used_mb = used, ss_gpu_vram_total_mb = tot, ss_since = snc,
                       ss_local_input_last_unix = inp, ss_physical_input_devices = dev,
                       ss_input_monitor_up = up, ss_degraded = deg \<rparr> }
      else None)"

section \<open>Reading back a payload\<close>

declare de_state_name.simps [simp del]

lemma those_Some [simp]: "those (map Some xs) = Some xs"
  by (induction xs) simp_all

lemma de_list_strs [simp]: "de_list as_str (json_strs xs) = Some xs"
  by (simp add: de_list_def json_strs_def comp_def)

lemma de_state_name_inverse [simp]: "de_state_name (state_name st) = Some st"
  by (cases st) (simp_all add: de_state_name.simps)

lemma de_i64_json [simp]:
  assumes "- (2 ^ 63) \<le> i" "i < 2 ^ 63"
  shows "de_i64 (json_i64 i) = Some i"
proof (cases "0 \<le> i")
  case True
  with assms show ?thesis by (simp add: json_i64_def uint_word_of_int_eq take_bit_int_eq_self)
next
  case False
  then have "nat (- i) \<le> 2 ^ 63" using assms by simp
  with False show ?thesis by (simp add: json_i64_def show_int_def parse_digits_show_nat)
qed

lemma de_u32_json [simp]: "de_u32 (J_U64 (ucast d)) = Some d"
proof -
  have "uint d < 2 ^ 32" using uint_lt2p [of d] by simp
  moreover have "(ucast (ucast d :: u64) :: u32) = d"
    by (rule bit_word_eqI) (auto simp: bit_simps)
  ultimately show ?thesis by (simp add: unsigned_ucast_eq take_bit_int_eq_self)
qed

declare de_u32.simps [simp del]

lemma de_last_eviction_json [simp]: "de_last_eviction (last_eviction_json e) = Some e"
  by (simp add: de_last_eviction_def last_eviction_json_def req_def)

lemma last_eviction_json_not_Null [simp]: "last_eviction_json e \<noteq> J_Null"
  by (simp add: last_eviction_json_def)

lemma opt_Some: "m \<noteq> J_Null \<Longrightarrow> json_get k v = Some m \<Longrightarrow> opt k dec v = map_option Some (dec m)"
  by (simp add: opt_def split: json.split)

lemma opt_member:
  assumes "\<And>x. dec (enc x) = Some x" "\<And>x. enc x \<noteq> J_Null" "json_get k v = map_option enc x"
  shows "opt k dec v = Some x"
proof (cases x)
  case None
  with assms(3) show ?thesis by (simp add: opt_def)
next
  case (Some y)
  with assms opt_Some [of "enc y" k v dec] show ?thesis by simp
qed

lemma unit_members:
  "json_get ''unit'' (unit_status_json u) = Some (J_String (us_unit u))"
  "json_get ''running'' (unit_status_json u) = Some (json_opt J_Bool (us_running u))"
  "json_get ''models'' (unit_status_json u) = Some (json_strs (us_models u))"
  "json_get ''models_error'' (unit_status_json u) = map_option J_String (us_models_error u)"
  "json_get ''vram_mb'' (unit_status_json u) = map_option J_U64 (us_vram_mb u)"
  "json_get ''held'' (unit_status_json u) = Some (J_Bool (us_held u))"
  "json_get ''last_eviction'' (unit_status_json u) = map_option last_eviction_json (us_last_eviction u)"
  by (simp_all add: unit_status_json_def member_if_def split: option.split)

lemma de_unit_status_json [simp]: "de_unit_status (unit_status_json u) = Some u"
proof -
  let ?v = "unit_status_json u"
  have "opt ''running'' as_bool ?v = Some (us_running u)"
    by (simp add: opt_def unit_members json_opt_def split: option.split)
  moreover have "opt ''models_error'' as_str ?v = Some (us_models_error u)"
    by (rule opt_member [of _ J_String]) (simp_all add: unit_members)
  moreover have "opt ''vram_mb'' as_u64 ?v = Some (us_vram_mb u)"
    by (rule opt_member [of _ J_U64]) (simp_all add: unit_members)
  moreover have "opt ''last_eviction'' de_last_eviction ?v = Some (us_last_eviction u)"
    by (rule opt_member [of _ last_eviction_json]) (simp_all add: unit_members)
  moreover have "is_object ?v" by (simp add: unit_status_json_def)
  ultimately show ?thesis by (simp add: de_unit_status_def req_def unit_members)
qed

lemma de_list_units [simp]: "de_list de_unit_status (J_Array (map unit_status_json us)) = Some us"
  by (simp add: de_list_def comp_def)

definition i64_input :: "status_snapshot \<Rightarrow> bool" where
  "i64_input s \<longleftrightarrow> - (2 ^ 63) \<le> ss_local_input_last_unix s \<and> ss_local_input_last_unix s < 2 ^ 63"

lemma de_status_json: "i64_input s \<Longrightarrow> de_status (status_json s) = Some s"
  by (simp add: de_status_def status_json_def req_def i64_input_def)

lemma strs_read [simp]: "List.map_filter as_str (map J_String xs) = xs"
  by (induction xs) (simp_all add: map_filter_simps)

lemma status_json_get:
  "get_str ''state'' (status_json s) d = state_name (ss_state s)"
  "get_strs ''claims'' (status_json s) = ss_claims s"
  "get_str ''since'' (status_json s) d = ss_since s"
  "get_str ''version'' (status_json s) d = ss_version s"
  "get_u64 ''gpu_vram_used_mb'' (status_json s) = ss_gpu_vram_used_mb s"
  "get_u64 ''gpu_vram_total_mb'' (status_json s) = ss_gpu_vram_total_mb s"
  "json_get ''degraded'' (status_json s) = Some (J_Bool (ss_degraded s))"
  "json_get ''units'' (status_json s) = Some (J_Array (map unit_status_json (ss_units s)))"
  by (simp_all add: status_json_def get_str_def get_strs_def get_u64_def json_strs_def)

lemma unit_json_get:
  "get_str ''unit'' (unit_status_json u) d = us_unit u"
  "get_strs ''models'' (unit_status_json u) = us_models u"
  "Option.bind (json_get ''running'' (unit_status_json u)) as_bool = us_running u"
  "Option.bind (json_get ''vram_mb'' (unit_status_json u)) as_u64 = us_vram_mb u"
  by (simp_all add: unit_members get_str_def get_strs_def json_strs_def json_opt_def split: option.split)
    (cases "us_vram_mb u"; simp)

end
