(* ===== verification/Tray.thy ===== *)
theory Tray
  imports Client Status_Json
begin

text \<open>
  \<open>src/bin/gpu-arbiter-tray.rs\<close>: what the tray shows for a status, the icon, the notification of a
  transition, the fetch and the poll loop. The environment, the HTTP client, the wording of a decoding
  error, and the tray host (whether it took the item, whether it closed it) are the parameter
  \<open>tray_os\<close>; a notification is an element of the loop's output.
\<close>

section \<open>Locating the daemon\<close>

definition tray_base_url :: "(string \<Rightarrow> string option) \<Rightarrow> string" where
  "tray_base_url env = (case env ''GPU_ARBITER_URL'' of None \<Rightarrow> ''http://127.0.0.1:48750'' | Some u \<Rightarrow> u)"

definition status_url :: "(string \<Rightarrow> string option) \<Rightarrow> string" where
  "status_url env = tray_base_url env @ ''/status''"

definition TRAY_POLL_INTERVAL :: time where
  "TRAY_POLL_INTERVAL = from_secs 2"

section \<open>The icon\<close>

definition icon_side :: nat where
  "icon_side = 22"

text \<open>
  The pixel test of the source is \<open>sqrt (dx * dx + dy * dy) \<le> 9.5\<close> with \<open>dx = x - 10.5\<close>; every
  number in it is a small multiple of one half, and the sums are multiples of one half, so it is
  the same test on the doubled integers.
\<close>

definition in_dot :: "nat \<Rightarrow> nat \<Rightarrow> bool" where
  "in_dot x y \<longleftrightarrow> (2 * int x - 21)\<^sup>2 + (2 * int y - 21)\<^sup>2 \<le> 19\<^sup>2"

record icon =
  ic_width :: nat
  ic_height :: nat
  ic_data :: "u8 list"

definition dot_icon :: "u8 \<Rightarrow> u8 \<Rightarrow> u8 \<Rightarrow> icon" where
  "dot_icon r g b =
     \<lparr> ic_width = icon_side, ic_height = icon_side,
        ic_data = concat (map (\<lambda>y. concat (map (\<lambda>x. [if in_dot x y then 0xFF else 0x00, r, g, b])
                    [0..<icon_side])) [0..<icon_side]) \<rparr>"

fun color_for :: "arb_state option \<Rightarrow> u8 \<times> u8 \<times> u8" where
  "color_for (Some Gaming) = (0x4C, 0xAF, 0x50)"
| "color_for (Some Evicting) = (0xFF, 0x98, 0x00)"
| "color_for (Some Available) = (0x21, 0x96, 0xF3)"
| "color_for None = (0x9E, 0x9E, 0x9E)"

section \<open>The tooltip\<close>

fun tray_state_label :: "arb_state \<Rightarrow> string" where
  "tray_state_label Gaming = ''Gaming''"
| "tray_state_label Available = ''Available''"
| "tray_state_label Evicting = ''Evicting''"

record tray =
  tr_status :: "status_snapshot option"
  tr_error :: "string option"

definition first_unit :: "status_snapshot \<Rightarrow> unit_status option" where
  "first_unit s = (case ss_units s of [] \<Rightarrow> None | u # _ \<Rightarrow> Some u)"

definition tooltip_text :: "tray \<Rightarrow> string" where
  "tooltip_text t =
     (case tr_status t of
        Some s \<Rightarrow>
          let unit = first_unit s;
              models = (case unit of
                          None \<Rightarrow> []
                        | Some u \<Rightarrow> if us_models u = [] then [] else '' ('' @ str_join '', '' (us_models u) @ '')'')
          in ''State: '' @ tray_state_label (ss_state s) @ [newline]
             @ ''VRAM: '' @ show_nat (unat (ss_gpu_vram_used_mb s)) @ '' / ''
             @ show_nat (unat (ss_gpu_vram_total_mb s)) @ '' MiB used'' @ [newline]
             @ (case unit of None \<Rightarrow> ''Unit'' | Some u \<Rightarrow> us_unit u) @ '': ''
             @ (case Option.bind unit us_running of
                  Some True \<Rightarrow> ''running'' | Some False \<Rightarrow> ''stopped'' | None \<Rightarrow> ''unknown'')
             @ models @ [newline]
             @ ''Since: '' @ ss_since s @ [newline]
             @ ''Daemon: v'' @ ss_version s
      | None \<Rightarrow>
          (case tr_error t of
             Some e \<Rightarrow> ''gpu-arbiter unreachable'' @ [newline] @ e
           | None \<Rightarrow> ''gpu-arbiter: starting'' @ [CHR 0xE2, CHR 0x80, CHR 0xA6]))"

definition icon_pixmap :: "tray \<Rightarrow> icon" where
  "icon_pixmap t =
     (case color_for (map_option ss_state (tr_status t)) of (r, g, b) \<Rightarrow> dot_icon r g b)"

text \<open>The rest of what the tray host asks for.\<close>

definition tray_id :: string where
  "tray_id = ''gpu-arbiter-tray''"

definition tray_title :: string where
  "tray_title = ''GPU Arbiter''"

record tool_tip_data =
  tt_icon_name :: string
  tt_icon_pixmap :: "icon list"
  tt_title :: string
  tt_description :: string

definition tool_tip :: "tray \<Rightarrow> tool_tip_data" where
  "tool_tip t = \<lparr> tt_icon_name = [], tt_icon_pixmap = [], tt_title = tray_title,
     tt_description = tooltip_text t \<rparr>"

text \<open>The menu: each label with the exit code its activation ends the process with.\<close>

definition tray_menu :: "(string \<times> int) list" where
  "tray_menu = [(''Quit'', 0)]"

section \<open>Notifications\<close>

datatype urgency = Urgency_Normal | Urgency_Critical

definition transition_message :: "arb_state \<Rightarrow> arb_state \<Rightarrow> (string \<times> string \<times> urgency) option" where
  "transition_message old new =
     (if old = Available \<and> new = Gaming
      then Some (''GPU: Gaming'', ''GPU reserved for the game '' @ em_dash @ '' Ollama evicted.'', Urgency_Normal)
      else if new = Available \<and> old \<noteq> Available
      then Some (''GPU: Available'', ''Gaming ended '' @ em_dash @ '' GPU free, Ollama restored.'', Urgency_Normal)
      else if new = Evicting \<and> old \<noteq> Evicting
      then Some (''GPU: Evicting'', ''Game launched '' @ em_dash @ '' reclaiming the GPU from Ollama.'',
                 Urgency_Critical)
      else None)"

section \<open>The poll loop\<close>

text \<open>A notification is shown for five seconds; whether the service took it is ignored.\<close>

record notification =
  nt_summary :: string
  nt_body :: string
  nt_urgency :: urgency
  nt_timeout_ms :: nat

definition notify :: "string \<times> string \<times> urgency \<Rightarrow> notification" where
  "notify m = (case m of (s, b, u) \<Rightarrow>
     \<lparr> nt_summary = s, nt_body = b, nt_urgency = u, nt_timeout_ms = 5000 \<rparr>)"

text \<open>
  The loop's last state, the tray, the notifications sent so far and, as a ghost, the results of the
  polls, both newest first.
\<close>

record tray_loop =
  tl_last :: "arb_state option"
  tl_tray :: tray
  tl_sent :: "notification list"
  tl_polled :: "(string + status_snapshot) list"

definition tray_start :: tray_loop where
  "tray_start = \<lparr> tl_last = None, tl_tray = \<lparr> tr_status = None, tr_error = None \<rparr>, tl_sent = [],
     tl_polled = [] \<rparr>"

definition tray_poll :: "string + status_snapshot \<Rightarrow> tray_loop \<Rightarrow> tray_loop" where
  "tray_poll result l =
     (case result of
        Inr s \<Rightarrow>
          l\<lparr> tl_sent := (case Option.bind (tl_last l) (\<lambda>prev. transition_message prev (ss_state s)) of
                           None \<Rightarrow> tl_sent l | Some n \<Rightarrow> notify n # tl_sent l),
             tl_last := Some (ss_state s),
             tl_tray := \<lparr> tr_status = Some s, tr_error = None \<rparr>,
             tl_polled := result # tl_polled l \<rparr>
      | Inl e \<Rightarrow>
          l\<lparr> tl_last := None, tl_tray := \<lparr> tr_status = None, tr_error = Some e \<rparr>,
             tl_polled := result # tl_polled l \<rparr>)"

definition tray_run :: "(string + status_snapshot) list \<Rightarrow> tray_loop" where
  "tray_run results = fold tray_poll results tray_start"

text \<open>
  The whole loop over the outside. A poll runs on its own thread, which may panic; the result of the
  request is decoded as a status. The loop ends once the host has closed the item, which is looked at
  after each poll, and sleeps otherwise.
\<close>

datatype poll_task = Task_Panicked string | Task_Done get_result

record 'w tray_os =
  to_register :: bool
  to_env :: "string \<Rightarrow> string option"
  to_get :: "string \<Rightarrow> 'w \<Rightarrow> poll_task \<times> 'w"
  to_decode_error :: "json \<Rightarrow> string"
  to_closed :: "'w \<Rightarrow> bool \<times> 'w"
  to_sleep :: "time \<Rightarrow> 'w \<Rightarrow> 'w"

fun fetch_status :: "(json \<Rightarrow> string) \<Rightarrow> get_result \<Rightarrow> string + status_snapshot" where
  "fetch_status bad (Get_Failed e) = Inl e"
| "fetch_status bad (Body_Unreadable e) = Inl e"
| "fetch_status bad (Got v) = (case de_status v of Some s \<Rightarrow> Inr s | None \<Rightarrow> Inl (bad v))"

fun poll_result :: "(json \<Rightarrow> string) \<Rightarrow> poll_task \<Rightarrow> string + status_snapshot" where
  "poll_result bad (Task_Panicked e) = Inl (''poll task panicked: '' @ e)"
| "poll_result bad (Task_Done g) = fetch_status bad g"

text \<open>The third component: the loop has ended.\<close>

definition tray_round :: "'w tray_os \<Rightarrow> tray_loop \<times> 'w \<times> bool \<Rightarrow> tray_loop \<times> 'w \<times> bool" where
  "tray_round T s =
     (case s of (l, w, ended) \<Rightarrow>
        if ended then s
        else (case to_get T (status_url (to_env T)) w of
                (t, w1) \<Rightarrow>
                  (case to_closed T w1 of
                     (c, w2) \<Rightarrow> (tray_poll (poll_result (to_decode_error T) t) l,
                               if c then w2 else to_sleep T TRAY_POLL_INTERVAL w2, c))))"

text \<open>\<open>None\<close>: no tray host took the item, and the process panics.\<close>

definition tray_main :: "platform \<Rightarrow> 'w tray_os \<Rightarrow> nat \<Rightarrow> 'w \<Rightarrow> (int + tray_loop \<times> 'w \<times> bool) option" where
  "tray_main p T n w =
     (if p \<noteq> Linux then Some (Inl 1)
      else if \<not> to_register T then None
      else Some (Inr ((tray_round T ^^ n) (tray_start, w, False))))"

section \<open>Lemmas\<close>

lemma tray_run_snoc: "tray_run (rs @ [r]) = tray_poll r (tray_run rs)"
  by (simp add: tray_run_def)

lemma tray_poll_polled: "tl_polled (tray_poll r l) = r # tl_polled l"
  by (simp add: tray_poll_def split: sum.split)

lemma tray_round_ended [simp]: "tray_round T (l, w, True) = (l, w, True)"
  by (simp add: tray_round_def)

lemma tray_round_polls:
  "fst (tray_round T (l, w, False))
     = tray_poll (poll_result (to_decode_error T) (fst (to_get T (status_url (to_env T)) w))) l"
  by (simp add: tray_round_def split: prod.split)

text \<open>The loop after \<open>n\<close> rounds is that of its polls, one in each round until it has ended.\<close>

lemma tray_rounds_run:
  "(tray_round T ^^ n) (tray_start, w, False) = (l, w', ended) \<Longrightarrow>
     l = tray_run (rev (tl_polled l)) \<and> length (tl_polled l) \<le> n
     \<and> (\<not> ended \<longrightarrow> length (tl_polled l) = n)"
proof (induction n arbitrary: l w' ended)
  case 0
  then show ?case by (auto simp: tray_run_def tray_start_def)
next
  case (Suc n)
  obtain l1 w1 e1 where s: "(tray_round T ^^ n) (tray_start, w, False) = (l1, w1, e1)"
    by (metis prod.collapse)
  note IH = Suc.IH [OF s]
  have now: "tray_round T (l1, w1, e1) = (l, w', ended)" using Suc.prems s by simp
  show ?case
  proof (cases e1)
    case True
    with now IH show ?thesis by auto
  next
    case False
    define r where "r = poll_result (to_decode_error T) (fst (to_get T (status_url (to_env T)) w1))"
    have l: "l = tray_poll r l1"
      using now False tray_round_polls [of T l1 w1] by (simp add: r_def)
    then have p: "tl_polled l = r # tl_polled l1" by (simp add: tray_poll_polled)
    have "l = tray_run (rev (tl_polled l1) @ [r])" using l IH by (metis tray_run_snoc)
    then show ?thesis using p IH False by simp
  qed
qed

text \<open>The loop remembers the state of the last poll, if it succeeded.\<close>

lemma tray_last:
  "tl_last (tray_run rs) = (if rs = [] then None else map_option ss_state (ok_of (last rs)))"
  by (cases rs rule: rev_cases)
    (auto simp: tray_run_snoc tray_poll_def tray_run_def tray_start_def split: sum.split)

lemma tray_shows:
  "tr_status (tl_tray (tray_run rs)) = (if rs = [] then None else ok_of (last rs))"
  by (cases rs rule: rev_cases)
    (auto simp: tray_run_snoc tray_poll_def tray_run_def tray_start_def split: sum.split)

text \<open>What two polls in a row announce.\<close>

fun announces :: "(string + status_snapshot) \<times> (string + status_snapshot) \<Rightarrow> notification option" where
  "announces (Inr s0, Inr s1) = map_option notify (transition_message (ss_state s0) (ss_state s1))"
| "announces _ = None"

lemma zip_tl_snoc: "rs \<noteq> [] \<Longrightarrow> zip (rs @ [r]) (tl rs @ [r]) = zip rs (tl rs) @ [(last rs, r)]"
  by (induction rs) (auto simp: neq_Nil_conv)

lemma tray_sent: "rev (tl_sent (tray_run rs)) = List.map_filter announces (zip rs (tl rs))"
proof (induction rs rule: rev_induct)
  case Nil
  then show ?case by (simp add: tray_run_def tray_start_def List.map_filter_def)
next
  case (snoc r rs)
  show ?case
  proof (cases "rs = []")
    case True
    then show ?thesis
      by (cases r) (simp_all add: tray_run_def tray_start_def tray_poll_def List.map_filter_def)
  next
    case False
    have "rev (tl_sent (tray_poll r (tray_run rs)))
        = rev (tl_sent (tray_run rs)) @ (case announces (last rs, r) of None \<Rightarrow> [] | Some n \<Rightarrow> [n])"
      using False tray_last [of rs]
      by (cases r; cases "last rs") (auto simp: tray_poll_def split: option.split)
    with snoc False show ?thesis
      by (simp add: tray_run_snoc zip_tl_snoc List.map_filter_def split: option.split)
  qed
qed

end
