(* ===== verification/Http_Properties.thy ===== *)
theory Http_Properties
  imports Http Exposition Control_Socket Tray "HOL-Library.Code_Target_Nat" "HOL-Library.Code_Target_Int"
begin

text \<open>
  Properties of the daemon's surface: what a scraper reads from the metrics page, who may reach the
  write path, how a starting daemon takes the control socket, and the presence and tray models.
\<close>

section \<open>The metrics page\<close>

text \<open>
  C25: A scraper reads back from the page exactly the samples of the snapshot and the counters, in
  order: whatever bytes unit names, claim tokens and the version hold, none can break a line,
  forge a sample or change a value. The printer of floats is assumed to print no line break.
\<close>

theorem metrics_page_roundtrip:
  assumes "\<And>x. newline \<notin> set (show_f64 x)"
  shows "scrape (metrics_page show_f64 version cfg a hooks wall dropped)
     = state_readings (snapshot version a) (int (unix_secs (since a))) @ unit_readings (snapshot version a)
       @ presence_readings (snapshot version a) (int (unix_secs wall)) (sint (presence_idle_threshold_s cfg))
       @ counter_readings show_f64 (arb_metrics a) hooks dropped"
  unfolding metrics_page_def by (rule scrape_page [OF assms])

theorem metrics_page_roundtrip_witness:
  "scrape (metrics_page (\<lambda>x. show_int (\<lfloor>x\<rfloor>)) ''0.15.0'' (default_config Linux) (default_arbiter 0) [] 0 3)
     = state_readings (snapshot ''0.15.0'' (default_arbiter 0)) 0 @ unit_readings (snapshot ''0.15.0'' (default_arbiter 0))
       @ presence_readings (snapshot ''0.15.0'' (default_arbiter 0)) 0 600
       @ counter_readings (\<lambda>x. show_int (\<lfloor>x\<rfloor>)) empty_metrics [] 3"
proof -
  have "newline \<notin> set (show_int (\<lfloor>x\<rfloor>))" for x :: rat by simp
  moreover have "int (unix_secs (since (default_arbiter 0))) = 0" "int (unix_secs 0) = 0"
    by (simp_all add: default_arbiter_def unix_secs_def)
  moreover have "sint (presence_idle_threshold_s (default_config Linux)) = 600"
    "arb_metrics (default_arbiter 0) = empty_metrics"
    by (simp_all add: default_config_def default_arbiter_def)
  ultimately show ?thesis
    using metrics_page_roundtrip [of "\<lambda>x. show_int (\<lfloor>x\<rfloor>)" "''0.15.0''" "default_config Linux"
        "default_arbiter 0" "[]" 0 3]
    by simp
qed

section \<open>The write path\<close>

text \<open>
  C24: Nobody but a local caller drives a unit. A request on the TCP port hands the reconcile task a
  trigger only on Windows and only for a loopback peer, one on the unix socket needs no peer check,
  and either hands over at most one trigger, a start or stop of a managed unit.
\<close>

theorem write_path_is_gated:
  "lawful_triggers cfg reply (snd (tcp_request p cfg pg chan reply peer meth path))
   \<and> (snd (tcp_request p cfg pg chan reply peer meth path) = [] \<or> p = Windows \<and> is_localhost peer)
   \<and> lawful_triggers cfg reply (snd (uds_request cfg chan reply meth path))"
proof -
  have nil: "lawful_triggers cfg reply []" by (simp add: lawful_triggers_def)
  have tcp: "lawful_triggers cfg reply (snd (do_start cfg chan reply peer u))"
      "lawful_triggers cfg reply (snd (do_stop cfg chan reply peer u))"
      "is_localhost peer \<or> snd (do_start cfg chan reply peer u) = []"
      "is_localhost peer \<or> snd (do_stop cfg chan reply peer u) = []" for u
    using do_uds_lawful [of cfg reply chan u] nil
    by (auto simp: do_start_def do_stop_def guard_loopback_def)
  have "tcp_router p meth path = Some (Ep_Start u) \<Longrightarrow> p = Windows"
      "tcp_router p meth path = Some (Ep_Stop u) \<Longrightarrow> p = Windows" for u
    by (auto simp: tcp_router_def read_routes_def split: option.splits if_splits)
  with tcp do_uds_lawful [of cfg reply chan] nil show ?thesis
    unfolding tcp_request_def uds_request_def
    by (auto split: option.split endpoint.split)
qed

section \<open>Taking the control socket\<close>

text \<open>Not between a probe that found nothing live and the removal that relies on it.\<close>

definition out_of_the_way :: "uds_pc \<Rightarrow> bool" where
  "out_of_the_way pc \<longleftrightarrow> pc \<noteq> Uds_Remove"

definition succeeding :: "uds_pc \<Rightarrow> bool" where
  "succeeding pc \<longleftrightarrow> pc = Uds_Clean (Inr ()) \<or> pc = Uds_Done (Inr ())"

lemma uds_step_settled:
  assumes "at_path w = Some n" and "socket_is_live (connect (Some n))" and "\<forall>i. out_of_the_way (pc_of w i)"
  shows "at_path (uds_step F j w) = Some n \<and> (\<forall>i. out_of_the_way (pc_of (uds_step F j w) i))
     \<and> (\<forall>i. succeeding (pc_of (uds_step F j w) i) \<longrightarrow> succeeding (pc_of w i))"
proof (cases "pc_of w j")
  case (Uds_Clean r)
  then show ?thesis
    using assms by (cases r)
      (auto simp: uds_step_def goto_def out_of_the_way_def succeeding_def uds_result_def)
qed (use assms spec [OF assms(3), of j] in
      \<open>auto simp: uds_step_def goto_def out_of_the_way_def succeeding_def rename_no_replace_def
         split: option.splits\<close>)

text \<open>
  C32: A listening control socket is safe from every daemon that has not yet decided to remove it:
  from a state in which it is in place and no call is between its probe and its removal, no
  interleaving of any number of \<open>bind_uds\<close> calls, before their probe or already staging and moving,
  removes or replaces it, and none of them succeeds.
\<close>

theorem late_daemon_cannot_steal_socket:
  assumes "at_path w = Some n" and "socket_is_live (connect (Some n))" and "\<forall>i. out_of_the_way (pc_of w i)"
  shows "at_path (uds_run F sched w) = Some n
     \<and> (\<forall>i. succeeding (pc_of (uds_run F sched w) i) \<longrightarrow> succeeding (pc_of w i))"
  using assms
proof (induction sched arbitrary: w)
  case (Cons j sched)
  have "uds_run F (j # sched) w = uds_run F sched (uds_step F j w)" by (simp add: uds_run_def)
  with Cons.IH [of "uds_step F j w"] uds_step_settled [OF Cons.prems, of F j] Cons.prems(2)
  show ?case by metis
qed (simp add: uds_run_def)

theorem late_daemon_cannot_steal_socket_witness:
  "at_path (uds_run no_faults [0, 0, 1, 0, 1, 1, 1, 1] (uds_start (Some (Foreign True)))) = Some (Foreign True)"
proof -
  have "at_path (uds_start (Some (Foreign True))) = Some (Foreign True)"
      "socket_is_live (connect (Some (Foreign True)))"
      "\<forall>i. out_of_the_way (pc_of (uds_start (Some (Foreign True))) i)"
    by (simp_all add: uds_start_def connect_def out_of_the_way_def)
  from late_daemon_cannot_steal_socket [OF this] show ?thesis by blast
qed


lemma staged_private:
  assumes "\<forall>i. pc_of w i = Uds_Move \<longrightarrow> staged w i = Some (Some (Sock i True))"
    and "\<forall>i m. at_path w = Some (Sock i m) \<longrightarrow> m"
  shows "(\<forall>i. pc_of (uds_step F j w) i = Uds_Move \<longrightarrow> staged (uds_step F j w) i = Some (Some (Sock i True)))
     \<and> (\<forall>i m. at_path (uds_step F j w) = Some (Sock i m) \<longrightarrow> m)"
  using assms
  by (cases "pc_of w j")
    (auto simp: uds_step_def goto_def rename_no_replace_def split: option.splits prod.splits)

text \<open>
  C33: The control socket is never reachable with a mode wider than \<open>0600\<close>: whatever the faults and
  the interleaving, a socket at the path that one of the calls bound had its mode set first.
\<close>

theorem socket_always_private:
  assumes "at_path (uds_run F sched (uds_start n)) = Some (Sock i m)" and "\<forall>j k. n \<noteq> Some (Sock j k)"
  shows "m"
proof -
  have "(\<forall>i. pc_of (uds_run F sched w) i = Uds_Move \<longrightarrow> staged (uds_run F sched w) i = Some (Some (Sock i True)))
      \<and> (\<forall>i m. at_path (uds_run F sched w) = Some (Sock i m) \<longrightarrow> m)"
    if "\<forall>i. pc_of w i = Uds_Move \<longrightarrow> staged w i = Some (Some (Sock i True))"
      and "\<forall>i m. at_path w = Some (Sock i m) \<longrightarrow> m" for w
    using that
  proof (induction sched arbitrary: w)
    case (Cons j sched)
    note st = staged_private [OF Cons.prems, of F j]
    show ?case using Cons.IH [OF conjunct1 [OF st] conjunct2 [OF st]] by (simp only: uds_run_def fold_simps)
  qed (simp add: uds_run_def)
  from this [of "uds_start n"] assms show ?thesis by (simp add: uds_start_def)
qed

theorem socket_always_private_witness:
  "at_path (uds_run no_faults [0, 0, 0, 0, 0, 0, 0] (uds_start None)) = Some (Sock 0 True) \<and> True"
proof -
  obtain m where m: "at_path (uds_run no_faults [0, 0, 0, 0, 0, 0, 0] (uds_start None)) = Some (Sock 0 m)"
    by (simp add: uds_run_def uds_start_def uds_step_def goto_def no_faults_def connect_def
        rename_no_replace_def)
  from socket_always_private [OF m] m show ?thesis by simp
qed

section \<open>Presence\<close>

text \<open>
  C35: The watched set is exact. After an enumeration that could read \<open>/dev/input\<close>, the watched
  devices are the present event nodes whose pump still runs or that are, freshly checked, physical
  (not below \<open>/sys/devices/virtual/\<close>), openable, a human input source and streamable; the count
  reported is their number.
\<close>

theorem watched_devices_exact:
  assumes "iv_entries V = Inr names" and "reenumerate V w = (r, w')" and "distinct (map fst w)"
  shows "fst ` set w' = {d \<in> set (event_nodes names). (d, False) \<in> set w
        \<or> (\<exists>p dev. iv_syspath V d = Some p \<and> \<not> starts_with p ''/sys/devices/virtual/''
             \<and> iv_open V d = Some dev \<and> is_human_input (caps_of dev) \<and> iv_stream V d)}
     \<and> r = Inr (card (fst ` set w')) \<and> distinct (map fst w')"
proof -
  let ?p = "event_nodes names"
  have w': "w' = watch_new V ?p (prune ?p w)" and r: "r = Inr (length w')"
    using assms(1,2) by (auto simp: reenumerate_def Let_def)
  have d: "distinct (map fst w')"
    unfolding w' by (rule watch_new_distinct [OF prune_distinct [OF assms(3)]])
  have "starts_with d ''event''" if "d \<in> set ?p" for d
    using that by (simp add: event_nodes_def)
  then have "fst ` set w' = {d \<in> set ?p. (d, False) \<in> set w
        \<or> (\<exists>p dev. iv_syspath V d = Some p \<and> \<not> starts_with p ''/sys/devices/virtual/''
             \<and> iv_open V d = Some dev \<and> is_human_input (caps_of dev) \<and> iv_stream V d)}"
    unfolding w' watch_new_names prune_names [OF assms(3)] classify_node_Some is_physical_syspath_def
    by blast
  moreover have "length w' = card (fst ` set w')"
    using distinct_card [OF d] by simp
  ultimately show ?thesis using r d by simp
qed

definition sample_input :: input_view where
  "sample_input =
     \<lparr> iv_entries = Inr [''mice'', ''event0'', ''event1''],
        iv_syspath = (\<lambda>n. if n = ''event0'' then Some ''/sys/devices/pci0/usb1/event0''
                          else Some ''/sys/devices/virtual/input/event1''),
        iv_open = (\<lambda>_. Some \<lparr> ev_has_key = True, ev_has_rel = False, ev_has_abs = False, ev_keys = Some [30] \<rparr>),
        iv_stream = (\<lambda>_. True), iv_inotify_init = True, iv_inotify_watch = True,
        iv_inotify_stream = True \<rparr>"

theorem watched_devices_exact_witness:
  "fst ` set (snd (reenumerate sample_input [])) = {''event0''}"
proof -
  have e: "iv_entries sample_input = Inr [''mice'', ''event0'', ''event1'']"
    by (simp add: sample_input_def)
  have n: "event_nodes [''mice'', ''event0'', ''event1''] = [''event0'', ''event1'']"
    by code_simp
  have "starts_with ''/sys/devices/virtual/input/event1'' ''/sys/devices/virtual/''"
      "\<not> starts_with ''/sys/devices/pci0/usb1/event0'' ''/sys/devices/virtual/''"
    by code_simp+
  with watched_devices_exact [OF e prod.collapse [symmetric], of "[]"] show ?thesis
    by (auto simp: n sample_input_def caps_of_def is_human_input_def)
qed

lemma sat_i64_mono: "x \<le> y \<Longrightarrow> sat_i64 x \<le> sat_i64 y"
  by (simp add: sat_i64_def)

text \<open>
  Presence is decided by the freshest stamp, in whatever order the pumps deliver them, and fails
  safe: after any sequence of input events somebody is present exactly when the monitor is healthy
  and one of the stamps, the start of the daemon included, is younger than the threshold.
\<close>

theorem presence_is_freshest_stamp:
  "is_local_present (pm_last_input (fold record_input ts m)) now_s threshold_s (pm_healthy m)
     \<longleftrightarrow> pm_healthy m \<and> (\<exists>t\<in>insert (pm_last_input m) (set ts). sat_i64 (now_s - t) < threshold_s)"
proof -
  let ?T = "insert (pm_last_input m) (set ts)"
  have "sat_i64 (now_s - Max ?T) < threshold_s \<longleftrightarrow> (\<exists>t\<in>?T. sat_i64 (now_s - t) < threshold_s)"
  proof
    assume "sat_i64 (now_s - Max ?T) < threshold_s"
    then show "\<exists>t\<in>?T. sat_i64 (now_s - t) < threshold_s"
      by (intro bexI [of _ "Max ?T"] Max_in) simp_all
  next
    assume "\<exists>t\<in>?T. sat_i64 (now_s - t) < threshold_s"
    then obtain t where t: "t \<in> ?T" "sat_i64 (now_s - t) < threshold_s" by blast
    have "t \<le> Max ?T" using t(1) by (intro Max_ge) simp_all
    then have "sat_i64 (now_s - Max ?T) \<le> sat_i64 (now_s - t)"
      by (intro sat_i64_mono diff_left_mono)
    with t(2) show "sat_i64 (now_s - Max ?T) < threshold_s" by linarith
  qed
  then show ?thesis by (simp add: is_local_present_def record_input_fold)
qed

lemma enumerate_once_inv:
  assumes "distinct (map fst w)" and "pm_device_count m = (if length w < 2 ^ 32 then of_nat (length w) else - 1)"
    and "enumerate_once V (m, w) = (m', w')"
  shows "distinct (map fst w') \<and> pm_last_input m' = pm_last_input m
     \<and> pm_device_count m' = (if length w' < 2 ^ 32 then of_nat (length w') else - 1)"
proof (cases "iv_entries V")
  case (Inl e)
  then show ?thesis using assms by (auto simp: enumerate_once_def reenumerate_def set_healthy_def)
next
  case (Inr names)
  with assms(3) have "w' = watch_new V (event_nodes names) (prune (event_nodes names) w)"
      "m' = set_healthy True (set_device_count (length w') m)"
    by (auto simp: enumerate_once_def reenumerate_def Let_def)
  then show ?thesis
    using watch_new_distinct [OF prune_distinct [OF assms(1)]] by (simp add: set_healthy_def set_device_count_def)
qed

text \<open>
  In every run of the watcher the reported time never precedes the start of the daemon, no
  device is watched twice, and the reported count is the number of watched devices, saturated.
\<close>

theorem presence_monitor_consistent:
  assumes "presence_reach p start_unix hotplug (m, w)"
  shows "start_unix \<le> pm_last_input m \<and> distinct (map fst w)
     \<and> pm_device_count m = (if length w < 2 ^ 32 then of_nat (length w) else - 1)
     \<and> (p \<noteq> Linux \<longrightarrow> \<not> pm_healthy m)"
  using assms
proof (induction hotplug "(m, w)" arbitrary: m w rule: presence_reach.induct)
  case (Start V' V)
  then show ?case
    using enumerate_once_inv [of "[]" "presence_new start_unix" V m w] by (simp add: presence_new_def)
next
  case (Step hotplug s)
  obtain m0 w0 where s: "s = (m0, w0)" by fastforce
  note IH = Step(2) [OF s]
  from Step(4) [unfolded s] show ?case
  proof (cases rule: presence_step.cases)
    case (Enumerate k V)
    with IH Step(3) enumerate_once_inv [of w0 m0 V m w] show ?thesis by simp
  qed (use IH in \<open>auto simp: record_input_def\<close>)
qed (auto simp: presence_new_def)

theorem presence_monitor_consistent_witness:
  "(1700000000 :: int) \<le> pm_last_input (fst (enumerate_once sample_input (presence_new 1700000000, [])))
     \<and> unat (pm_device_count (fst (enumerate_once sample_input (presence_new 1700000000, [])))) = 1"
proof -
  let ?s = "enumerate_once sample_input (presence_new 1700000000, [])"
  have "presence_reach Linux 1700000000 (try_inotify_stream sample_input) (fst ?s, snd ?s)"
    by (simp add: presence_reach.Start)
  note inv = presence_monitor_consistent [OF this]
  have "length (snd ?s) = 1" by code_simp
  with inv have "1700000000 \<le> pm_last_input (fst ?s)" "pm_device_count (fst ?s) = 1"
    by simp_all
  then show ?thesis by simp
qed

section \<open>The tray\<close>

text \<open>
  C36: The tray notifies exactly the transitions it observed, once each, and never for an outage. After
  any number of rounds it has sent, in order, the message of each pair of successful polls in a row
  whose states differ, except from \<open>Evicting\<close> to \<open>Gaming\<close>, which has none; it shows the last poll; and it
  polled once per round until the host closed the item.
\<close>

theorem tray_notifies_transitions:
  assumes "tray_main p T n w = Some (Inr (l, w', ended))"
  defines "rs \<equiv> rev (tl_polled l)"
  shows "rev (tl_sent l) = List.map_filter announces (zip rs (tl rs))
    \<and> tr_status (tl_tray l) = (if rs = [] then None else ok_of (last rs))
    \<and> length rs \<le> n \<and> (\<not> ended \<longrightarrow> length rs = n)
    \<and> (announces (Inr s0, Inr s1) = None
         \<longleftrightarrow> ss_state s0 = ss_state s1 \<or> (ss_state s0, ss_state s1) = (Evicting, Gaming))"
proof -
  have run: "(tray_round T ^^ n) (tray_start, w, False) = (l, w', ended)"
    using assms(1) by (simp add: tray_main_def split: if_splits)
  have l: "l = tray_run rs" and n: "length rs \<le> n" "\<not> ended \<longrightarrow> length rs = n"
    using tray_rounds_run [OF run] by (simp_all add: rs_def)
  have "announces (Inr s0, Inr s1) = None
      \<longleftrightarrow> ss_state s0 = ss_state s1 \<or> (ss_state s0, ss_state s1) = (Evicting, Gaming)"
    by (cases "ss_state s0"; cases "ss_state s1") (simp_all add: transition_message_def)
  then show ?thesis using tray_sent [of rs] tray_shows [of rs] n unfolding l [symmetric] by blast
qed

text \<open>A daemon that is found idle, then gaming, then unreachable, after which the item is closed.\<close>

definition sample_status :: "arb_state \<Rightarrow> status_snapshot" where
  "sample_status st = \<lparr> ss_version = ''1'', ss_state = st, ss_claims = [], ss_units = [],
     ss_gpu_vram_used_mb = 0, ss_gpu_vram_total_mb = 0, ss_since = [], ss_local_input_last_unix = 0,
     ss_physical_input_devices = 0, ss_input_monitor_up = False, ss_degraded = False \<rparr>"

definition sample_tray :: "nat tray_os" where
  "sample_tray = \<lparr> to_register = True, to_env = Map.empty,
     to_get = (\<lambda>url k. (if k < 2 then Task_Done (Got (status_json (sample_status
         (if k = 0 then Available else Gaming))))
       else Task_Done (Get_Failed ''refused''), Suc k)),
     to_decode_error = (\<lambda>_. ''bad body''), to_closed = (\<lambda>k. (3 \<le> k, k)), to_sleep = (\<lambda>_ k. k) \<rparr>"

theorem tray_notifies_transitions_witness:
  "\<exists>l w'. tray_main Linux sample_tray 4 0 = Some (Inr (l, w', True)) \<and> length (tl_polled l) = 3
     \<and> map nt_summary (rev (tl_sent l)) = [''GPU: Gaming''] \<and> tr_status (tl_tray l) = None"
proof -
  obtain l w' where run: "tray_main Linux sample_tray 4 0 = Some (Inr (l, w', True))"
    and polled: "length (tl_polled l) = 3"
    and sent: "map nt_summary (List.map_filter announces (zip (rev (tl_polled l)) (tl (rev (tl_polled l)))))
      = [''GPU: Gaming'']"
    and lst: "ok_of (last (rev (tl_polled l))) = None"
  proof -
    let ?x = "(tray_round sample_tray ^^ 4) (tray_start, 0, False)"
    have "snd (snd ?x)" "length (tl_polled (fst ?x)) = 3"
        "map nt_summary (List.map_filter announces (zip (rev (tl_polled (fst ?x)))
           (tl (rev (tl_polled (fst ?x)))))) = [''GPU: Gaming'']"
        "ok_of (last (rev (tl_polled (fst ?x)))) = None"
      by code_simp+
    with that show ?thesis
      by (cases ?x) (simp add: tray_main_def sample_tray_def)
  qed
  from tray_notifies_transitions [OF run] polled sent lst run show ?thesis by auto
qed

end
