(* ===== verification/Client_Properties.thy ===== *)
theory Client_Properties
  imports Client Status_Json Tray "HOL-Library.Code_Target_Nat" "HOL-Library.Code_Target_Int"
begin

text \<open>
  Properties of the command line and of the client subcommands: the argument grammar, what \<open>wait\<close>
  reports and how long it polls, what \<open>watch\<close> prints, and what the clients read of a status.
\<close>

section \<open>The argument grammar\<close>

definition opt_arg :: "string \<Rightarrow> string option \<Rightarrow> string list" where
  "opt_arg flag v = (case v of None \<Rightarrow> [] | Some x \<Rightarrow> [flag, x])"

definition flag_arg :: "string \<Rightarrow> bool \<Rightarrow> string list" where
  "flag_arg flag b = (if b then [flag] else [])"

definition wait_for_arg :: "wait_for \<Rightarrow> string" where
  "wait_for_arg w = (case w of Wait_Available \<Rightarrow> ''available'' | Wait_Claimed \<Rightarrow> ''claimed'')"

text \<open>The documented spelling of a command, flags after the subcommand.\<close>

fun command_line :: "command \<Rightarrow> string list" where
  "command_line (RunDaemon cfg) = opt_arg ''--config'' cfg"
| "command_line (CheckConfig cfg) = ''--check-config'' # opt_arg ''--config'' cfg"
| "command_line (Status_Cmd cfg url j q) =
     ''status'' # opt_arg ''--config'' cfg @ opt_arg ''--url'' url @ flag_arg ''--json'' j @ flag_arg ''-q'' q"
| "command_line (Wait_Cmd cfg url w t) =
     ''wait'' # opt_arg ''--config'' cfg @ opt_arg ''--url'' url
       @ [''--for'', wait_for_arg w, ''--timeout'', show_nat (unat t)]"
| "command_line (Watch_Cmd cfg url j) =
     ''watch'' # opt_arg ''--config'' cfg @ opt_arg ''--url'' url @ flag_arg ''--json'' j"
| "command_line Version = [''--version'']"
| "command_line Help = [''--help'']"

fun expressible :: "command \<Rightarrow> bool" where
  "expressible (RunDaemon cfg) = (cfg \<noteq> Some [])"
| "expressible (CheckConfig cfg) = (cfg \<noteq> Some [])"
| "expressible (Status_Cmd cfg url j q) = (cfg \<noteq> Some [] \<and> url \<noteq> Some [] \<and> \<not> (j \<and> q))"
| "expressible (Wait_Cmd cfg url w t) = (cfg \<noteq> Some [] \<and> url \<noteq> Some [])"
| "expressible (Watch_Cmd cfg url j) = (cfg \<noteq> Some [] \<and> url \<noteq> Some [])"
| "expressible Version = True"
| "expressible Help = True"

declare parse_loop.simps(2) [simp del]

lemma parse_value:
  assumes "arg \<in> set value_flags" and "v \<noteq> []"
  shows "parse_loop raw (arg # v # rest) = parse_loop (set_value arg v raw) rest"
proof -
  have "\<not> (arg = ''--version'' \<or> arg = ''-V'')" "\<not> (arg = ''--help'' \<or> arg = ''-h'')"
      "arg \<noteq> ''--check-config''" "arg \<noteq> ''--json''" "\<not> (arg = ''-q'' \<or> arg = ''--quiet'')"
    using assms(1) by (auto simp: value_flags_def)
  with assms show ?thesis by (simp only: parse_loop.simps(2) if_False if_True list.case not_True_eq_False not_False_eq_True)
qed

lemma parse_opt:
  "flag \<in> set value_flags \<Longrightarrow> v \<noteq> Some [] \<Longrightarrow>
     parse_loop raw (opt_arg flag v @ rest)
       = parse_loop (case v of None \<Rightarrow> raw | Some x \<Rightarrow> set_value flag x raw) rest"
  by (cases v) (simp_all add: opt_arg_def parse_value)

lemma parse_positional:
  assumes "\<not> starts_with s ''-''" and "ra_subcommand raw = None"
  shows "parse_loop raw (s # rest) = parse_loop (raw\<lparr> ra_subcommand := Some s \<rparr>) rest"
proof -
  have "\<not> (s = ''--version'' \<or> s = ''-V'')" "\<not> (s = ''--help'' \<or> s = ''-h'')"
      "s \<noteq> ''--check-config''" "s \<noteq> ''--json''" "\<not> (s = ''-q'' \<or> s = ''--quiet'')" "s \<notin> set value_flags"
    using assms(1) by (auto simp: starts_with_def value_flags_def)
  moreover have "find (\<lambda>f. starts_with s (f @ ''='')) long_value_flags = None"
    using assms(1) by (auto simp: find_None_iff long_value_flags_def starts_with_iff)
  ultimately show ?thesis
    using assms by (simp only: parse_loop.simps(2) if_False option.case not_True_eq_False simp_thms)
qed

lemma parse_subcommand:
  "ra_subcommand raw = None \<Longrightarrow> s \<in> {''status'', ''wait'', ''watch''} \<Longrightarrow>
     parse_loop raw (s # rest) = parse_loop (raw\<lparr> ra_subcommand := Some s \<rparr>) rest"
  by (rule parse_positional) (auto simp: starts_with_def)

lemma parse_flags:
  "parse_loop raw (''--check-config'' # rest) = parse_loop (raw\<lparr> ra_check_config := True \<rparr>) rest"
  "parse_loop raw (''--json'' # rest) = parse_loop (raw\<lparr> ra_json := True \<rparr>) rest"
  "parse_loop raw (''-q'' # rest) = parse_loop (raw\<lparr> ra_quiet := True \<rparr>) rest"
  "parse_loop raw (''--version'' # rest) = Inr Version"
  "parse_loop raw (''--help'' # rest) = Inr Help"
  by (subst parse_loop.simps(2), simp)+

lemma parse_flag_args:
  "parse_loop raw (flag_arg ''--json'' j @ rest) = parse_loop (if j then raw\<lparr> ra_json := True \<rparr> else raw) rest"
  "parse_loop raw (flag_arg ''-q'' j) = parse_loop (if j then raw\<lparr> ra_quiet := True \<rparr> else raw) []"
  "parse_loop raw (flag_arg ''--json'' j) = parse_loop (if j then raw\<lparr> ra_json := True \<rparr> else raw) []"
  by (simp_all add: flag_arg_def parse_flags)

lemma parse_show_u64: "parse_u64 (show_nat (unat (t :: u64))) = Some t"
proof -
  have "unat t < 2 ^ 64" using unsigned_less [of t] by simp
  then show ?thesis by (simp add: parse_u64_show_nat)
qed

lemmas value_flag_args = parse_opt [of "''--config''"] parse_opt [of "''--url''"]
  parse_opt [of "''--config''" _ _ "[]", unfolded append_Nil2]

lemma value_flags_members:
  "''--config'' \<in> set value_flags" "''--url'' \<in> set value_flags" "''--for'' \<in> set value_flags"
  "''--timeout'' \<in> set value_flags"
  by (simp_all add: value_flags_def)

lemma parse_command_line:
  assumes "expressible c"
  shows "parse_args (command_line c) = Inr c"
proof (cases c)
  case (Wait_Cmd cfg url w t)
  have "wait_for_arg w \<noteq> []" by (cases w) (simp_all add: wait_for_arg_def)
  moreover have "parse_wait_for (wait_for_arg w) = Inr w"
    by (cases w) (simp_all add: wait_for_arg_def parse_wait_for_def)
  ultimately show ?thesis
    using assms Wait_Cmd
    by (simp add: parse_args_def no_args_def parse_subcommand value_flag_args value_flags_members
        parse_value set_value_def finalize_def finalize_wait_def parse_show_u64
        split: option.split)
next
  case (Status_Cmd cfg url j q)
  let ?r = "\<lambda>cfg url j q. \<lparr> ra_subcommand = Some ''status'', ra_config = cfg, ra_check_config = False, ra_json = j,
     ra_quiet = q, ra_url = url, ra_for_state = None, ra_timeout_s = None \<rparr>"
  have "parse_args (command_line c) = finalize (?r cfg url j q)"
    using assms Status_Cmd
    by (simp add: parse_args_def no_args_def parse_subcommand value_flag_args value_flags_members
        parse_flag_args set_value_def split: option.split)
  then show ?thesis
    using assms Status_Cmd by (auto simp: finalize_def finalize_status_def)
next
  case (Watch_Cmd cfg url j)
  with assms show ?thesis
    by (simp add: parse_args_def no_args_def parse_subcommand value_flag_args value_flags_members
        parse_flag_args set_value_def finalize_def finalize_watch_def split: option.split)
next
  case (RunDaemon cfg)
  then have "parse_args (command_line c)
      = parse_loop (case cfg of None \<Rightarrow> no_args | Some x \<Rightarrow> set_value ''--config'' x no_args) []"
    using assms by (simp add: parse_args_def value_flag_args value_flags_members)
  then show ?thesis
    using RunDaemon by (cases cfg) (simp_all add: set_value_def no_args_def finalize_def finalize_none_def)
next
  case (CheckConfig cfg)
  let ?raw = "no_args\<lparr> ra_check_config := True \<rparr>"
  have "parse_args (command_line c)
      = parse_loop (case cfg of None \<Rightarrow> ?raw | Some x \<Rightarrow> set_value ''--config'' x ?raw) []"
    using assms CheckConfig by (simp add: parse_args_def parse_flags value_flag_args value_flags_members)
  then show ?thesis
    using CheckConfig by (cases cfg) (simp_all add: set_value_def no_args_def finalize_def finalize_none_def)
next
  case Version
  then show ?thesis by (simp add: parse_args_def parse_flags)
next
  case Help
  then show ?thesis by (simp add: parse_args_def parse_flags)
qed

text \<open>
  C30: The parser accepts the documented spelling of every command and reads back exactly that
  command: config path, URL, target state, timeout over the full range of \<open>u64\<close>, and switches.
\<close>

theorem parse_args_roundtrip:
  assumes "expressible c"
  shows "parse_args (command_line c) = Inr c"
  by (rule parse_command_line [OF assms])

theorem parse_args_roundtrip_witness:
  "parse_args [''wait'', ''--url'', ''http://box:48750'', ''--for'', ''claimed'', ''--timeout'', ''90'']
     = Inr (Wait_Cmd None (Some ''http://box:48750'') Wait_Claimed 90)"
proof -
  have "expressible (Wait_Cmd None (Some ''http://box:48750'') Wait_Claimed 90)" by simp
  moreover have "command_line (Wait_Cmd None (Some ''http://box:48750'') Wait_Claimed 90)
      = [''wait'', ''--url'', ''http://box:48750'', ''--for'', ''claimed'', ''--timeout'', ''90'']"
    by code_simp
  ultimately show ?thesis
    using parse_args_roundtrip by metis
qed

section \<open>\<open>wait\<close>\<close>

definition met :: "wait_for \<Rightarrow> json \<Rightarrow> bool" where
  "met for_state v = wait_condition_met (get_str ''state'' v []) for_state"

definition unmet :: "wait_for \<Rightarrow> string + json \<Rightarrow> bool" where
  "unmet for_state r = (\<exists>v. r = Inr v \<and> \<not> met for_state v)"

lemma wait_round_cases:
  assumes "wait_round C u fs t deadline c = (r, c1)"
  obtains x where "cl_fetched c1 = x # cl_fetched c"
    and "r = None \<and> unmet fs x \<or> r = Some 0 \<and> (\<exists>v. x = Inr v \<and> met fs v)
      \<or> r = Some 1 \<and> ((\<exists>e. x = Inl e) \<or> unmet fs x \<and> deadline \<le> cl_clock c1)"
  using assms
  by (auto simp: wait_round_def fetch_status_json_def complain_def eprintln_def Let_def met_def unmet_def
      split: prod.splits sum.splits if_splits get_result.splits)

text \<open>
  C28: \<open>wait\<close> tells the truth and returns. It exits 0 only when its last poll saw the state it waits
  for, 1 only when that poll failed or saw another state with the timeout over; every poll before
  saw another state; and it polls at most once per started two seconds of the timeout, and once more.
\<close>

theorem wait_reports_truth:
  assumes "run_wait C u fs t c = Some (code, c')"
  shows "\<exists>r rs. cl_fetched c' = r # rs @ cl_fetched c \<and> list_all (unmet fs) rs
     \<and> (code = 0 \<and> (\<exists>v. r = Inr v \<and> met fs v)
        \<or> code = 1 \<and> ((\<exists>e. r = Inl e) \<or> unmet fs r \<and> cl_clock c + from_secs (unat t) \<le> cl_clock c'))
     \<and> length rs \<le> (unat t + 1) div 2"
proof -
  let ?dl = "cl_clock c + from_secs (unat t)"
  let ?Q = "\<lambda>code h. \<exists>r rs. cl_fetched h = r # rs @ cl_fetched c \<and> list_all (unmet fs) rs
     \<and> (code = 0 \<and> (\<exists>v. r = Inr v \<and> met fs v)
        \<or> code = 1 \<and> ((\<exists>e. r = Inl e) \<or> unmet fs r \<and> ?dl \<le> cl_clock h))"
  have loop: "wait_loop C u fs t ?dl c = (code, c')"
    using assms by (auto simp: run_wait_def instant_add_def split: if_splits)
  have "?Q code c'"
  proof (rule waiting.loop_invariant [where I = "\<lambda>h. \<exists>rs. cl_fetched h = rs @ cl_fetched c \<and> list_all (unmet fs) rs"
        and Q = ?Q, OF _ _ _ loop])
    show "\<exists>rs. cl_fetched (thread_sleep C POLL_INTERVAL h1) = rs @ cl_fetched c \<and> list_all (unmet fs) rs"
      if I: "\<exists>rs. cl_fetched h = rs @ cl_fetched c \<and> list_all (unmet fs) rs"
        and r: "wait_round C u fs t ?dl h = (None, h1)" for h h1
    proof -
      obtain x where x: "cl_fetched h1 = x # cl_fetched h" "unmet fs x"
        using wait_round_cases [OF r] by auto
      obtain rs where rs: "cl_fetched h = rs @ cl_fetched c" "list_all (unmet fs) rs"
        using I by blast
      have "cl_fetched (thread_sleep C POLL_INTERVAL h1) = (x # rs) @ cl_fetched c"
        using x(1) rs(1) by (simp add: thread_sleep_def split: prod.split)
      moreover have "list_all (unmet fs) (x # rs)" using x(2) rs(2) by simp
      ultimately show ?thesis by blast
    qed
    show "?Q a h1" if I: "\<exists>rs. cl_fetched h = rs @ cl_fetched c \<and> list_all (unmet fs) rs"
        and r: "wait_round C u fs t ?dl h = (Some a, h1)" for h a h1
    proof -
      obtain x where x: "cl_fetched h1 = x # cl_fetched h"
          "a = 0 \<and> (\<exists>v. x = Inr v \<and> met fs v) \<or> a = 1 \<and> ((\<exists>e. x = Inl e) \<or> unmet fs x \<and> ?dl \<le> cl_clock h1)"
        using wait_round_cases [OF r] by auto
      obtain rs where "cl_fetched h = rs @ cl_fetched c" "list_all (unmet fs) rs"
        using I by blast
      with x show ?thesis by (intro exI [of _ x] exI [of _ rs]) simp
    qed
  qed simp
  moreover have "length (cl_fetched c') \<le> length (cl_fetched c) + (unat t + 1) div 2 + 1"
  proof -
    have "(from_secs (unat t) + POLL_INTERVAL - 1) div POLL_INTERVAL = (unat t + 1) div 2"
      by (simp add: POLL_INTERVAL_def from_secs_def)
    then show ?thesis using waiting.loop_cnt [OF loop] by simp
  qed
  ultimately show ?thesis by fastforce
qed

definition client_world :: "get_result list client_os" where
  "client_world =
     \<lparr> co_get = (\<lambda>_ w. case w of [] \<Rightarrow> (Get_Failed ''connection refused'', 1000, [])
                       | g # gs \<Rightarrow> (g, 1000, gs)),
        co_oversleep = (\<lambda>_ w. (0, w)), co_wall = (\<lambda>_. 0), co_env = (\<lambda>_. None),
        co_read = (\<lambda>_. Inl (IoError IO_NotFound ''No such file or directory'')),
        co_toml = (\<lambda>_. Inl ''no file''), co_platform = Linux, co_print = (\<lambda>_. ''{}''),
        co_pretty = (\<lambda>_. Inr ''{}'') \<rparr>"

definition client_start :: "get_result list \<Rightarrow> get_result list client" where
  "client_start gs = \<lparr> cl_clock = 0, cl_world = gs, cl_out = [], cl_err = [], cl_fetched = [] \<rparr>"

definition status_of :: "string \<Rightarrow> json" where
  "status_of st = J_Object [(''state'', J_String st)]"

theorem wait_reports_truth_witness:
  "\<exists>v. hd (cl_fetched (snd (the (run_wait client_world ''http://box'' Wait_Available 60
      (client_start [Got (status_of ''gaming''), Got (status_of ''available'')]))))) = Inr v \<and> met Wait_Available v"
proof -
  let ?x = "run_wait client_world ''http://box'' Wait_Available 60
      (client_start [Got (status_of ''gaming''), Got (status_of ''available'')])"
  have "map_option fst ?x = Some 0"
    by (simp add: run_wait_def instant_add_def client_start_def from_secs_def wait_loop.simps wait_round_def
        fetch_status_json_def client_world_def status_of_def get_str_def wait_condition_met_def Let_def
        thread_sleep_def POLL_INTERVAL_def)
  then have "?x = Some (0, snd (the ?x))" by (cases ?x) auto
  from wait_reports_truth [OF this] show ?thesis by auto
qed

text \<open>
  A timeout the parser accepts can crash \<open>wait\<close>: with the largest \<open>u64\<close> the deadline leaves the
  range of the clock and the addition panics before the first poll, wherever the clock stands.
\<close>

theorem wait_panics_on_huge_timeout:
  "parse_args [''wait'', ''--timeout'', ''18446744073709551615''] = Inr (Wait_Cmd None None Wait_Available (- 1))
   \<and> run_wait C u fs (- 1) c = None"
proof -
  have "parse_u64 ''18446744073709551615'' = Some (- 1)" by code_simp
  then have "parse_args [''wait'', ''--timeout'', ''18446744073709551615'']
      = Inr (Wait_Cmd None None Wait_Available (- 1))"
    by (simp add: parse_args_def no_args_def parse_subcommand parse_value value_flags_members set_value_def
        finalize_def finalize_wait_def)
  moreover have "unat (- 1 :: u64) = 18446744073709551615"
    by (simp add: unsigned_minus_1_eq_mask mask_eq_exp_minus_1)
  then have "run_wait C u fs (- 1) c = None"
    by (simp add: run_wait_def instant_add_def from_secs_def)
  ultimately show ?thesis by simp
qed

section \<open>\<open>watch\<close>\<close>











lemma thread_sleep_frame [simp]:
  "cl_out (thread_sleep C d c) = cl_out c" "cl_fetched (thread_sleep C d c) = cl_fetched c"
  by (simp_all add: thread_sleep_def split: prod.split)




section \<open>The \<open>/status\<close> payload\<close>

text \<open>
  C26: The snapshot survives the wire: what the daemon serves on \<open>/status\<close> decodes, in the tray, to the
  snapshot it was, for every state, claim list, unit list with its optional members, and time stamp
  in the range of an \<open>i64\<close>.
\<close>

theorem status_payload_roundtrip:
  assumes "- (2 ^ 63) \<le> last_input_unix (presence a)" "last_input_unix (presence a) < 2 ^ 63"
  shows "de_status (status_page version a) = Some (snapshot version a)
     \<and> tooltip_text (tl_tray (tray_poll (case de_status (status_page version a) of
                                          Some s \<Rightarrow> Inr s | None \<Rightarrow> Inl ''bad body'') l))
       = tooltip_text \<lparr> tr_status = Some (snapshot version a), tr_error = None \<rparr>"
proof -
  have "i64_input (snapshot version a)" using assms by (simp add: i64_input_def snapshot_def)
  then show ?thesis by (simp add: status_page_def de_status_json tray_poll_def)
qed

theorem status_payload_roundtrip_witness:
  "de_status (status_page ''0.15.0'' (default_arbiter 0)) = Some (snapshot ''0.15.0'' (default_arbiter 0))"
  using status_payload_roundtrip [of "default_arbiter 0" "''0.15.0''" tray_start]
  by (simp add: default_arbiter_def default_presence_def)

text \<open>The summary an operator should read of a daemon, written over the daemon's own state.\<close>

definition unit_summary :: "unit_status \<Rightarrow> string" where
  "unit_summary u =
     ''  '' @ us_unit u @ '': ''
     @ (case us_running u of Some True \<Rightarrow> ''running'' | Some False \<Rightarrow> ''stopped'' | None \<Rightarrow> ''unknown'')
     @ (case us_vram_mb u of Some mb \<Rightarrow> '', '' @ show_nat (unat mb) @ '' MiB'' | None \<Rightarrow> [])
     @ (if us_models u = [] then [] else '' ['' @ str_join '', '' (us_models u) @ '']'') @ [newline]"

definition status_summary :: "string \<Rightarrow> arbiter \<Rightarrow> string" where
  "status_summary version a =
     ''State:   '' @ state_name (cur_state a) @ [newline]
     @ ''Since:   '' @ format_rfc3339 (since a) @ [newline]
     @ (if degraded a
        then ''Degraded: one or more units failed to evict (see daemon logs)'' @ [newline] else [])
     @ ''Claims:  '' @ (if claims a = [] then ''(none)'' else str_join '', '' (map claim_token (claims a)))
     @ [newline]
     @ ''GPU:     '' @ show_nat (unat (gpu_vram_used_mb a)) @ '' / '' @ show_nat (unat (gpu_vram_total_mb a))
     @ '' MiB VRAM used'' @ [newline]
     @ (if units a = [] then ''Units:   (none)'' @ [newline]
        else ''Units:'' @ [newline] @ concat (map unit_summary (units a)))
     @ ''Daemon:  v'' @ version"

lemma render_unit_json: "render_unit (unit_status_json u) = unit_summary u"
  by (simp add: render_unit_def unit_summary_def unit_json_get Let_def)

lemma render_status_page: "render_status (status_page version a) = status_summary version a"
proof -
  have "(case map unit_status_json us of [] \<Rightarrow> ''Units:   (none)'' @ [newline]
         | u # us \<Rightarrow> ''Units:'' @ [newline] @ concat (map render_unit (u # us)))
      = (if us = [] then ''Units:   (none)'' @ [newline]
         else ''Units:'' @ [newline] @ concat (map unit_summary us))" for us
    by (cases us) (simp_all add: render_unit_json comp_def)
  then show ?thesis
    by (simp add: render_status_def status_summary_def status_page_def status_json_get snapshot_def Let_def)
qed

text \<open>
  C27: \<open>status\<close> and \<open>wait\<close> tell the daemon's state. Typed as documented, against the address the flags,
  the environment or the local configuration give, and served the payload of a daemon, \<open>status -q\<close>
  prints nothing and exits 0 exactly when that daemon is \<open>Available\<close>, \<open>status --json\<close> prints the payload,
  \<open>status\<close> prints the daemon's state, claims, memory and units, an unknown run state as such, and the
  two conditions of \<open>wait\<close> are its states \<open>Available\<close> and \<open>Gaming\<close>.
\<close>

theorem status_tells_daemon_state:
  assumes "co_get C (u @ ''/status'') (cl_world c) = (Got (status_page version a), d, w)"
    and "resolve_daemon_url_or_exit C cfg url = Inr u"
    and "expressible (Status_Cmd cfg url as_json quiet)"
    and "main_entry C build (command_line (Status_Cmd cfg url as_json quiet)) c = (out, c')"
  shows "(quiet \<longrightarrow> out = Exits (if cur_state a = Available then 0 else 1)
       \<and> cl_out c' = cl_out c \<and> cl_err c' = cl_err c)
     \<and> (as_json \<longrightarrow> (\<forall>s. co_pretty C (status_page version a) = Inr s \<longrightarrow>
          out = Exits 0 \<and> cl_out c' = cl_out c @ [s]))
     \<and> (\<not> quiet \<and> \<not> as_json \<longrightarrow> out = Exits 0 \<and> cl_out c' = cl_out c @ [status_summary version a])
     \<and> (met Wait_Available (status_page version a) \<longleftrightarrow> cur_state a = Available)
     \<and> (met Wait_Claimed (status_page version a) \<longleftrightarrow> cur_state a = Gaming)"
proof -
  have st: "get_str ''state'' (status_page version a) [] = state_name (cur_state a)"
    by (simp add: status_page_def status_json_get snapshot_def)
  have name: "quiet_exit_code (state_name s) = (if s = Available then 0 else 1)"
      "wait_condition_met (state_name s) Wait_Available \<longleftrightarrow> s = Available"
      "wait_condition_met (state_name s) Wait_Claimed \<longleftrightarrow> s = Gaming" for s
    by (cases s; simp add: quiet_exit_code_def wait_condition_met_def)+
  have told: "quiet_exit_code (get_str ''state'' (status_page version a) []) = (if cur_state a = Available then 0 else 1)"
      "met Wait_Available (status_page version a) \<longleftrightarrow> cur_state a = Available"
      "met Wait_Claimed (status_page version a) \<longleftrightarrow> cur_state a = Gaming"
    unfolding met_def st by (rule name)+
  obtain code c1 where run: "run_status C u as_json quiet c = (code, c1)" by fastforce
  have "(out, c') = apfst Exits (run_status C u as_json quiet c)"
    using assms(4) parse_command_line [OF assms(3)] assms(2) run
    by (simp add: main_entry_def handle_cli_def with_daemon_url_def)
  moreover have "\<not> (as_json \<and> quiet)" using assms(3) by auto
  ultimately show ?thesis
    using assms(1) told
    by (auto simp: run_status_def fetch_status_json_def println_def render_status_page Let_def)
qed

theorem status_tells_daemon_state_witness:
  "fst (main_entry client_world ''0.15.0'' [''status'', ''--url'', ''http://box'', ''-q'']
     (client_start [Got (status_page ''0.15.0'' (default_arbiter 0))])) = Exits 0"
proof -
  let ?c = "client_start [Got (status_page ''0.15.0'' (default_arbiter 0))]"
  have "command_line (Status_Cmd None (Some ''http://box'') False True) = [''status'', ''--url'', ''http://box'', ''-q'']"
    by code_simp
  moreover have "resolve_daemon_url_or_exit client_world None (Some ''http://box'') = Inr ''http://box''"
    by code_simp
  moreover have "expressible (Status_Cmd None (Some ''http://box'') False True)" by simp
  ultimately show ?thesis
    using status_tells_daemon_state [of client_world "''http://box''" ?c "''0.15.0''" "default_arbiter 0" 1000 "[]"
        None "Some ''http://box''" False True "''0.15.0''"]
    by (cases "main_entry client_world ''0.15.0'' [''status'', ''--url'', ''http://box'', ''-q''] ?c")
      (simp add: client_world_def client_start_def default_arbiter_def)
qed

section \<open>Exit codes\<close>


text \<open>Something was written to the error stream.\<close>

definition complained :: "'w client \<Rightarrow> 'w client \<Rightarrow> bool" where
  "complained c c' \<longleftrightarrow> (\<exists>l ls. cl_err c' = cl_err c @ l # ls)"

lemma complained_simps [simp]:
  "complained c (eprintln l c)" "cl_err c2 = cl_err c \<Longrightarrow> complained c (eprintln l c2)"
  "cl_err c2 = cl_err c \<Longrightarrow> complained c (complain l c2)"
  by (simp_all add: complained_def complain_def eprintln_def)





lemma apfst_Exits [simp]: "apfst Exits p \<noteq> (Runs_Daemon path, c)"
  by (cases p) simp





section \<open>Where the clients look\<close>

text \<open>
  The tray and the command line read the same variable, but not the same way: they ask the same
  address exactly when the variable is unset, or set to something that does not end in a slash.
\<close>

theorem tray_and_client_address:
  "status_url (\<lambda>_. v) = resolve_daemon_url None v 48750 @ ''/status''
     \<longleftrightarrow> (case v of None \<Rightarrow> True | Some u \<Rightarrow> u \<noteq> [] \<and> last u \<noteq> CHR ''/'')"
proof (cases v)
  case None
  then show ?thesis by (simp add: status_url_def tray_base_url_def resolve_daemon_url_def, code_simp)
next
  case (Some u)
  show ?thesis
  proof (cases u rule: rev_cases)
    case Nil
    then show ?thesis by (simp add: Some status_url_def tray_base_url_def resolve_daemon_url_def)
  next
    case (snoc u' x)
    have "length (trim_end_matches u (CHR ''/'')) < length u" if "x = CHR ''/''"
      using that snoc length_dropWhile_le [of "\<lambda>x. x = CHR ''/''" "rev u'"]
      by (simp add: trim_end_matches_def le_imp_less_Suc)
    moreover have "trim_end_matches u (CHR ''/'') = u" if "x \<noteq> CHR ''/''"
      using that snoc by (simp add: trim_end_matches_def)
    ultimately show ?thesis
      using snoc by (auto simp: Some status_url_def tray_base_url_def resolve_daemon_url_def)
  qed
qed

end
