(* ===== verification/Pass_State.thy ===== *)
theory Pass_State
  imports Reconcile
begin

text \<open>
  What a reconcile pass does to the shared state. The interfaces below list the critical sections
  of a pass: those of the eviction bookkeeping (eviction records, backoff, warnings, restarts, the
  refresh), those of the transition and of the triggers, the discharge of an owed resume, and the
  count of the pass. An invariant preserved by every section of an interface is preserved by every
  block of the pass built from it, however the block branches; the interfaces extend one another,
  so a property that one section breaks on purpose is still carried through the other blocks.
\<close>

section \<open>Invariants of the shared state\<close>

definition on_arb :: "(arbiter \<Rightarrow> bool) \<Rightarrow> 'w sys \<Rightarrow> bool" where
  "on_arb P s \<longleftrightarrow> P (sys_arb s)"

lemma wp_on_host [wp_simps]:
  "wp (on_host m) Q s = wp m (\<lambda>a h. Q a (s\<lparr> sys_host := h \<rparr>)) (sys_host s)"
  by (auto simp: on_host_def wp_def split: prod.splits)

lemma wp_upd_arb [wp_simps]: "wp (upd_arb f) Q s = Q () (s\<lparr> sys_arb := f (sys_arb s) \<rparr>)"
  by (simp add: upd_arb_def wp_simps)

lemma wp_get_arb [wp_simps]: "wp get_arb Q s = Q (sys_arb s) s"
  by (simp add: get_arb_def wp_simps)

lemma wp_send_reply [wp_simps]:
  "wp (send_reply r x) Q s = Q () (s\<lparr> sys_replies := (r, x) # sys_replies s \<rparr>)"
  by (simp add: send_reply_def wp_simps)

lemma keeps_on_host [keeps_intros]: "keeps (on_arb P) (on_host m)"
  by (rule keepsI) (auto simp: on_host_def wp_def on_arb_def split: prod.splits)

lemma keeps_get_arb [keeps_intros]: "keeps (on_arb P) get_arb"
  by (rule keepsI) (simp add: wp_simps)

lemma keeps_send_reply [keeps_intros]: "keeps (on_arb P) (send_reply r x)"
  by (rule keepsI) (simp add: wp_simps on_arb_def)

lemma keeps_upd_arb: "(\<And>a. P a \<Longrightarrow> P (f a)) \<Longrightarrow> keeps (on_arb P) (upd_arb f)"
  by (rule keepsI) (simp add: wp_simps on_arb_def)

lemma keeps_claim_appeared [keeps_intros]: "keeps (on_arb P) (claim_appeared E cfg)"
  by (auto simp: claim_appeared_def intro!: keeps_intros)

lemma keeps_known_running [keeps_intros]: "keeps (on_arb P) (known_running E rn u)"
  by (auto simp: known_running_def intro!: keeps_intros)

lemma keeps_start_candidates [keeps_intros]: "keeps (on_arb P) (start_candidates E us)"
  by (auto simp: start_candidates_def intro!: keeps_intros)

lemma keeps_preempting_tenant [keeps_intros]: "keeps (on_arb P) (preempting_tenant E cfg u)"
  by (auto simp: preempting_tenant_def intro!: keeps_intros)

lemma keeps_manual_start_check [keeps_intros]: "keeps (on_arb P) (manual_start_check E cfg u r)"
  by (auto simp: manual_start_check_def intro!: keeps_intros)

section \<open>Bookkeeping\<close>

locale eviction_bookkeeping =
  fixes P :: "arbiter \<Rightarrow> bool"
  assumes evicted: "P a \<Longrightarrow> P (record_evicted u reason r tm wall a)"
    and noted: "P a \<Longrightarrow> P (note_one t x a)"
    and warned: "P a \<Longrightarrow> P (warn_one t u a)"
    and degrade: "P a \<Longrightarrow> P (a\<lparr> degraded := d \<rparr>)"
    and restarted: "P a \<Longrightarrow> P (a\<lparr> arb_metrics := record_unit_restart n (arb_metrics a) \<rparr>)"
    and refresh: "P a \<Longrightarrow> P (refreshed sts pv mem a)"
begin

lemma evict_one: "keeps (on_arb P) (evict_one E cfg b u reason v)"
  by (auto simp: evict_one_def intro!: keeps_intros keeps_upd_arb evicted)

lemma evict_each: "keeps (on_arb P) (evict_each E cfg b reason us v)"
  by (induction us arbitrary: v) (auto intro!: keeps_intros evict_one)

lemma evict_units: "keeps (on_arb P) (evict_units E cfg b us reason)"
  by (auto simp: evict_units_def intro!: keeps_intros evict_each)

lemma note_fold: "P a \<Longrightarrow> P (fold (note_one t) xs a)"
  by (induction xs arbitrary: a) (auto intro: noted)

lemma warn_fold: "P a \<Longrightarrow> P (fold (warn_one t) xs a)"
  by (induction xs arbitrary: a) (auto intro: warned)

lemma note_backoff: "keeps (on_arb P) (upd_arb (note_invariant_backoff us rs t))"
  by (auto simp: note_invariant_backoff_def intro!: keeps_upd_arb note_fold)

lemma gaming_inv: "keeps (on_arb P) (gaming_invariant E cfg b us rn)"
  by (auto simp: gaming_invariant_def
      intro!: keeps_intros keeps_upd_arb note_backoff evict_units warn_fold degrade)

lemma preempt: "keeps (on_arb P) (preempt_tenants E cfg b us rn)"
  by (auto simp: preempt_tenants_def intro!: keeps_intros evict_units)

lemma starts: "keeps (on_arb P) (start_loop E cfg us)"
  by (induction us) (auto intro!: keeps_intros keeps_upd_arb restarted)

lemma refreshes: "keeps (on_arb P) (refresh_substate E cfg pv b)"
  by (auto simp: refresh_substate_def intro!: keeps_intros keeps_upd_arb refresh)

end

text \<open>The ensure-running step also discharges owed resumes.\<close>

locale bookkeeping = eviction_bookkeeping +
  assumes resumed: "P a \<Longrightarrow> P (a\<lparr> needs_resume := needs_resume a - {n} \<rparr>)"
begin

lemma resumes: "keeps (on_arb P) (resume_loop E cfg st us)"
  by (induction us) (auto intro!: keeps_intros keeps_upd_arb resumed)

lemma ensures: "keeps (on_arb P) (ensure_running E cfg desired us)"
  by (auto simp: ensure_running_def Let_def intro!: keeps_intros starts resumes)

end

text \<open>The decision's critical section and the state changes.\<close>

locale movements = eviction_bookkeeping +
  assumes decided: "P a \<Longrightarrow> P (a\<lparr> game_exit_pending_since := p, claims := cs \<rparr>)"
    and state_set: "P a \<Longrightarrow> P (set_state x now_t a)"
    and cleared: "P a \<Longrightarrow> P (clear_gaming a)"
begin

lemma set_now: "keeps (on_arb P) (set_state_now E x)"
  by (auto simp: set_state_now_def intro!: keeps_intros keeps_upd_arb state_set)

lemma decision: "keeps (on_arb P) (decide cfg cs)"
  by (auto simp: decide_def intro!: keeps_intros keeps_upd_arb decided)

lemma moves: "keeps (on_arb P) (transition E cfg b c d us rn)"
  by (auto simp: transition_def evict_arm_def restart_arm_def none_arm_def
      intro!: keeps_intros keeps_upd_arb set_now evict_units note_backoff degrade gaming_inv preempt
        cleared
      split: unit_action.split)

end

text \<open>The trigger's critical sections as well.\<close>

locale transitions = movements +
  assumes held_unit: "P a \<Longrightarrow> P (hold_unit n a)"
    and started: "P a \<Longrightarrow> P (manual_started n st a)"
begin

lemma trigger: "keeps (on_arb P) (handle_trigger E cfg b trig)"
  by (cases trig)
    (auto simp: handle_trigger_def handle_manual_start_def handle_manual_stop_def
      intro!: keeps_intros keeps_upd_arb evict_one started held_unit
      split: manual_start_gate.split)

end

text \<open>Everything after the pass has been counted, and the whole pass.\<close>

locale controller_invariant = bookkeeping + transitions
begin

lemma decided_pass: "keeps (on_arb P) (after_scan E cfg b pv cs)"
  by (auto simp: after_scan_def after_decision_def Let_def
      intro!: keeps_intros keeps_upd_arb decision moves ensures refreshes)

end

locale arbiter_invariant = controller_invariant +
  assumes passed: "P a \<Longrightarrow> P (a\<lparr> arb_metrics := record_reconcile_pass t (arb_metrics a) \<rparr>)"
begin

lemma pass: "keeps (on_arb P) (reconcile_with E cfg b pv trig)"
  by (auto simp: reconcile_with_def
      intro!: keeps_intros keeps_upd_arb passed trigger decided_pass)

end

end
