(* ===== verification/Pass_Spec.thy ===== *)
theory Pass_Spec
  imports Pass_State
begin

text \<open>
  The functional contract of a pass on the shared state: what it leaves of the state, the claims,
  the exit window and the holds, as a refinement of an abstract controller; the state invariant
  it maintains; the exactness of the metrics; and the replies to manual triggers.
\<close>

section \<open>The core of the state\<close>

type_synonym core = "arb_state \<times> claim list \<times> time option \<times> string set"

definition core_of :: "arbiter \<Rightarrow> core" where
  "core_of a = (cur_state a, claims a, game_exit_pending_since a, held a)"

lemma core_record_evicted: "core_of (record_evicted u reason r tm wall a) = core_of a"
  by (simp add: record_evicted_def core_of_def Let_def split: option.split)

lemma core_note_one: "core_of (note_one t x a) = core_of a"
  by (cases x) (simp add: note_one_def core_of_def Let_def)

lemma core_warn_one: "core_of (warn_one t u a) = core_of a"
  by (simp add: warn_one_def core_of_def)

lemma core_refreshed: "core_of (refreshed sts pv mem a) = core_of a"
  by (simp add: refreshed_def core_of_def Let_def split: option.split)

lemma core_updates [simp]:
  "core_of (a\<lparr> degraded := d \<rparr>) = core_of a"
  "core_of (a\<lparr> arb_metrics := m \<rparr>) = core_of a"
  "core_of (a\<lparr> needs_resume := n \<rparr>) = core_of a"
  "core_of (clear_gaming a) = core_of a"
  by (simp_all add: core_of_def clear_gaming_def)

interpretation core_frame: bookkeeping "\<lambda>a. core_of a = c"
  by unfold_locales (simp_all add: core_record_evicted core_note_one core_warn_one core_refreshed)

lemma core_keepsD:
  assumes "\<And>c. keeps (on_arb (\<lambda>a. core_of a = c)) m"
  shows "wp m (\<lambda>_ s'. core_of (sys_arb s') = core_of (sys_arb s)) s"
  by (rule wp_mono [OF keeps_wp [OF assms]]) (simp_all add: on_arb_def)

lemma core_run:
  assumes "\<And>c. keeps (on_arb (\<lambda>a. core_of a = c)) m" and "run_state m s = (x, s')"
  shows "core_of (sys_arb s') = core_of (sys_arb s)"
  using wp_run [OF core_keepsD [OF assms(1)] assms(2)] .

lemma core_on_host: "keeps (on_arb (\<lambda>a. core_of a = c)) (on_host m)"
  by (rule keeps_on_host)

section \<open>The transition\<close>

definition with_state :: "arb_state \<Rightarrow> core \<Rightarrow> core" where
  "with_state x c = (case c of (_, r) \<Rightarrow> (x, r))"

lemma with_state_idem [simp]: "with_state x (with_state y c) = with_state x c"
  by (simp add: with_state_def split: prod.split)

lemma core_set_state: "core_of (set_state x t a) = with_state x (core_of a)"
  by (simp add: core_of_def with_state_def)

text \<open>\<open>moves_to x m\<close>: \<open>m\<close> ends in state \<open>x\<close> with the rest of the core unchanged.\<close>

definition moves_to :: "arb_state \<Rightarrow> ('w sys, 'a) state \<Rightarrow> bool" where
  "moves_to x m \<longleftrightarrow> (\<forall>s. core_of (sys_arb (snd (run_state m s))) = with_state x (core_of (sys_arb s)))"

lemma moves_set_state_now: "moves_to x (set_state_now E x)"
  by (simp add: moves_to_def set_state_now_def on_host_def upd_arb_def core_set_state split: prod.split)

lemma moves_then_keeps:
  assumes "moves_to x m" and "\<And>a c. keeps (on_arb (\<lambda>a. core_of a = c)) (f a)"
  shows "moves_to x (m \<bind> f)"
  unfolding moves_to_def
proof
  fix s
  obtain a s1 where 1: "run_state m s = (a, s1)" by fastforce
  obtain b s2 where 2: "run_state (f a) s1 = (b, s2)" by fastforce
  show "core_of (sys_arb (snd (run_state (m \<bind> f) s))) = with_state x (core_of (sys_arb s))"
    using 1 2 core_run [OF assms(2) 2] assms(1) by (auto simp: moves_to_def dest!: spec [of _ s])
qed

lemma then_moves:
  assumes "\<And>a. moves_to x (f a)"
    and "\<And>s. \<exists>y. core_of (sys_arb (snd (run_state m s))) = with_state y (core_of (sys_arb s))
      \<or> core_of (sys_arb (snd (run_state m s))) = core_of (sys_arb s)"
  shows "moves_to x (m \<bind> f)"
  unfolding moves_to_def
proof
  fix s
  obtain a s1 where 1: "run_state m s = (a, s1)" by fastforce
  show "core_of (sys_arb (snd (run_state (m \<bind> f) s))) = with_state x (core_of (sys_arb s))"
    using 1 assms(1) [of a] assms(2) [of s] by (auto simp: moves_to_def)
qed

lemma keeps_then_moves:
  assumes "\<And>c. keeps (on_arb (\<lambda>a. core_of a = c)) m" and "\<And>a. moves_to x (f a)"
  shows "moves_to x (m \<bind> f)"
  by (rule then_moves [OF assms(2)]) (metis assms(1) core_run prod.collapse)

lemma moves_then_moves:
  assumes "moves_to y m" and "\<And>a. moves_to x (f a)"
  shows "moves_to x (m \<bind> f)"
  by (rule then_moves [OF assms(2)]) (use assms(1) in \<open>auto simp: moves_to_def\<close>)

lemmas core_keeps = keeps_return keeps_on_host keeps_get_arb keeps_if keeps_bind keeps_upd_arb
  core_frame.evict_units core_frame.note_backoff core_frame.gaming_inv core_frame.preempt
  core_frame.starts core_frame.resumes core_frame.refreshes core_frame.ensures

lemma moves_transition: "moves_to desired (transition E cfg b current desired us rn)"
proof -
  have arm: "moves_to desired (case unit_action current desired of
      UA_Evict \<Rightarrow> evict_arm E cfg b us
    | UA_Restart \<Rightarrow> restart_arm E
    | UA_None \<Rightarrow> none_arm E cfg b current desired us rn)"
  proof (cases "unit_action current desired")
    case UA_Evict
    then have g: "desired = Gaming" by (cases current; cases desired) simp_all
    show ?thesis
      unfolding UA_Evict unit_action.case evict_arm_def
      unfolding g
      by (intro moves_then_moves [OF moves_set_state_now] keeps_then_moves moves_set_state_now
          core_keeps) simp
  next
    case UA_Restart
    then have g: "desired = Available" by (cases current; cases desired) simp_all
    show ?thesis
      unfolding UA_Restart unit_action.case restart_arm_def
      unfolding g
      by (intro keeps_then_moves moves_then_keeps [OF moves_set_state_now] core_keeps) simp_all
  next
    case UA_None
    show ?thesis
      unfolding UA_None unit_action.case none_arm_def
      by (intro keeps_then_moves [OF keeps_if] moves_then_keeps [OF moves_set_state_now] core_keeps)
        simp_all
  qed
  show ?thesis
    unfolding transition_def by (rule moves_then_keeps [OF arm]) (intro core_keeps)
qed

section \<open>The rest of the pass\<close>

definition decide_core :: "config \<Rightarrow> claim list \<Rightarrow> time \<Rightarrow> core \<Rightarrow> core" where
  "decide_core cfg cs t c =
     (case c of (cur, _, pend, hs) \<Rightarrow>
        case debounce_game_exit cur (resolve_state cs) pend (from_secs (game_exit_grace_s cfg)) t of
          (d, p) \<Rightarrow> (d, cs, p, hs))"

lemma after_scan_core:
  assumes "run_state (after_scan E cfg b pv cs) s = (r, s')"
  shows "core_of (sys_arb s') = decide_core cfg cs (hclock (sys_host s)) (core_of (sys_arb s))"
proof -
  obtain d p where dp: "debounce_game_exit (cur_state (sys_arb s)) (resolve_state cs)
      (game_exit_pending_since (sys_arb s)) (from_secs (game_exit_grace_s cfg)) (hclock (sys_host s))
    = (d, p)" by fastforce
  define s1 where "s1 = s\<lparr> sys_arb := (sys_arb s)\<lparr> game_exit_pending_since := p, claims := cs \<rparr> \<rparr>"
  have dec: "run_state (decide cfg cs) s = ((cur_state (sys_arb s), d, held (sys_arb s)), s1)"
    by (simp add: decide_def on_host_def get_arb_def upd_arb_def now_def dp s1_def)
  have c1: "with_state d (core_of (sys_arb s1))
      = decide_core cfg cs (hclock (sys_host s)) (core_of (sys_arb s))"
    by (simp add: decide_core_def core_of_def with_state_def dp s1_def)
  have "moves_to d (after_decision E cfg b pv cs (cur_state (sys_arb s)) d (held (sys_arb s)))"
    unfolding after_decision_def Let_def case_prod_beta
    by (intro keeps_then_moves [OF core_on_host] moves_then_keeps [OF moves_transition] core_keeps
        keeps_case_sum)
  moreover have "run_state (after_decision E cfg b pv cs (cur_state (sys_arb s)) d (held (sys_arb s))) s1
      = (r, s')"
    using assms by (simp only: after_scan_def run_state_bind dec prod.case)
  ultimately show ?thesis
    unfolding moves_to_def c1 [symmetric] by (metis snd_conv)
qed

section \<open>Replies\<close>

text \<open>\<open>silent m\<close>: no reply is sent. \<open>probing m\<close>: in addition the shared state is not written.\<close>

definition replies_are :: "(nat \<times> manual_reply) list \<Rightarrow> 'w sys \<Rightarrow> bool" where
  "replies_are rs s \<longleftrightarrow> sys_replies s = rs"

definition silent :: "('w sys, 'a) state \<Rightarrow> bool" where
  "silent m \<longleftrightarrow> (\<forall>rs. keeps (replies_are rs) m)"

named_theorems silent_intros

lemma silent_run: "silent m \<Longrightarrow> run_state m s = (a, s') \<Longrightarrow> sys_replies s' = sys_replies s"
  unfolding silent_def by (drule spec [of _ "sys_replies s"], drule keeps_run) (simp_all add: replies_are_def)

lemma silent_return [silent_intros]: "silent (State_Monad.return a)"
  by (simp add: silent_def keeps_return)

lemma silent_bind [silent_intros]: "silent m \<Longrightarrow> (\<And>a. silent (f a)) \<Longrightarrow> silent (m \<bind> f)"
  by (simp add: silent_def keeps_bind)

lemma silent_on_host [silent_intros]: "silent (on_host m)"
  unfolding silent_def
  by (intro allI keepsI) (auto simp: on_host_def wp_def replies_are_def split: prod.splits)

lemma silent_get_arb [silent_intros]: "silent get_arb"
  unfolding silent_def by (intro allI keepsI) (simp add: wp_get_arb)

lemma silent_upd_arb [silent_intros]: "silent (upd_arb f)"
  unfolding silent_def by (intro allI keepsI) (simp add: wp_upd_arb replies_are_def)

lemma silent_if [silent_intros]: "silent a \<Longrightarrow> silent b \<Longrightarrow> silent (if c then a else b)"
  by simp

lemma silent_case_sum [silent_intros]:
  "(\<And>e. silent (f e)) \<Longrightarrow> (\<And>a. silent (g a)) \<Longrightarrow> silent (case r of Inl e \<Rightarrow> f e | Inr a \<Rightarrow> g a)"
  by (cases r) auto

lemma silent_case_option [silent_intros]:
  "silent f \<Longrightarrow> (\<And>a. silent (g a)) \<Longrightarrow> silent (case r of None \<Rightarrow> f | Some a \<Rightarrow> g a)"
  by (cases r) auto

lemma silent_case_prod [silent_intros]:
  "(\<And>a b. silent (f a b)) \<Longrightarrow> silent (case r of (a, b) \<Rightarrow> f a b)"
  by (cases r) auto

lemma silent_filter_m [silent_intros]: "(\<And>x. silent (f x)) \<Longrightarrow> silent (filter_m f xs)"
  by (simp add: silent_def keeps_filter_m)

lemma silent_evict_one [silent_intros]: "silent (evict_one E cfg b u reason v)"
  unfolding evict_one_def by (intro silent_intros)

lemma silent_evict_units [silent_intros]: "silent (evict_units E cfg b us reason)"
proof -
  have "silent (evict_each E cfg b reason us v)" for v
    by (induction us arbitrary: v) (auto intro!: silent_intros)
  then show ?thesis unfolding evict_units_def by (intro silent_intros)
qed

lemma silent_claim_appeared [silent_intros]: "silent (claim_appeared E cfg)"
  unfolding claim_appeared_def by (intro silent_intros)

lemma silent_known_running [silent_intros]: "silent (known_running E rn u)"
  unfolding known_running_def by (intro silent_intros)

lemma silent_set_state_now [silent_intros]: "silent (set_state_now E x)"
  unfolding set_state_now_def by (intro silent_intros)

lemma silent_preempting_tenant [silent_intros]: "silent (preempting_tenant E cfg u)"
  unfolding preempting_tenant_def by (intro silent_intros)

lemma silent_start_loop [silent_intros]: "silent (start_loop E cfg us)"
  by (induction us) (auto intro!: silent_intros)

lemma silent_resume_loop [silent_intros]: "silent (resume_loop E cfg st us)"
  by (induction us) (auto intro!: silent_intros)

lemma silent_transition [silent_intros]: "silent (transition E cfg b c d us rn)"
  unfolding transition_def
  by (cases "unit_action c d")
    (simp_all add: evict_arm_def restart_arm_def none_arm_def gaming_invariant_def
      preempt_tenants_def silent_intros)

lemma silent_after_scan [silent_intros]: "silent (after_scan E cfg b pv cs)"
  unfolding after_scan_def decide_def after_decision_def ensure_running_def start_candidates_def
    refresh_substate_def Let_def
  by (intro silent_intros)

section \<open>Manual triggers\<close>

definition release :: "string \<Rightarrow> core \<Rightarrow> core" where
  "release u c = (case c of (st, cs, p, hs) \<Rightarrow> (st, cs, p, hs - {u}))"

definition hold :: "string \<Rightarrow> core \<Rightarrow> core" where
  "hold u c = (case c of (st, cs, p, hs) \<Rightarrow> (st, cs, p, insert u hs))"

lemma core_manual_started: "core_of (manual_started u st a) = release u (core_of a)"
  by (simp add: manual_started_def core_of_def release_def Let_def)

lemma core_hold_unit: "core_of (hold_unit u a) = hold u (core_of a)"
  by (simp add: hold_unit_def core_of_def hold_def)

text \<open>What a trigger's block promises: one reply \<open>x\<close> and, from it, the holds.\<close>

definition replied :: "nat \<Rightarrow> (manual_reply \<Rightarrow> core \<Rightarrow> core) \<Rightarrow> 'w sys \<Rightarrow> 'w sys \<Rightarrow> bool" where
  "replied r f s s' \<longleftrightarrow> (\<exists>x. sys_replies s' = (r, x) # sys_replies s
     \<and> core_of (sys_arb s') = f x (core_of (sys_arb s)))"

definition same :: "'w sys \<Rightarrow> 'w sys \<Rightarrow> bool" where
  "same s s' \<longleftrightarrow> sys_replies s' = sys_replies s \<and> core_of (sys_arb s') = core_of (sys_arb s)"

lemma wp_same:
  assumes "silent m" and "\<And>c. keeps (on_arb (\<lambda>a. core_of a = c)) m"
  shows "wp m (\<lambda>_ s'. same s s') s"
  by (rule wpI) (simp add: same_def silent_run [OF assms(1)] core_run [OF assms(2)])

definition start_effect :: "string \<Rightarrow> manual_reply \<Rightarrow> core \<Rightarrow> core" where
  "start_effect u x c = (if x = Inr () then release u c else c)"

lemma wp_manual_start_check:
  "wp (manual_start_check E cfg u r) (\<lambda>g s'. case g of
       Gate_Proceed r' \<Rightarrow> r' = r \<and> same s s'
     | _ \<Rightarrow> replied r (start_effect u) s s') s"
  unfolding manual_start_check_def wp_simps
  apply (simp add: wp_simps)
  apply (intro conjI impI)
    apply (simp add: replied_def start_effect_def)
   apply (simp add: replied_def start_effect_def)
  apply (rule wp_mono [OF wp_same [OF silent_preempting_tenant keeps_preempting_tenant]])
  subgoal for v s1
    apply (intro conjI impI)
     apply (simp add: replied_def same_def start_effect_def)
    apply (rule wp_mono [OF wp_same [OF silent_claim_appeared keeps_claim_appeared]])
    apply (auto simp: wp_simps replied_def same_def start_effect_def split: sum.split bool.split)
    done
  done

lemma wp_handle_manual_start:
  "wp (handle_manual_start E cfg u r) (\<lambda>_ s'. replied r (start_effect u) s s') s"
  unfolding handle_manual_start_def wp_simps
  apply (rule wp_mono [OF wp_manual_start_check])
  subgoal for g s1
    apply (cases g)
      apply (simp_all add: wp_simps)
    apply (rule wp_mono [OF wp_True])
    apply (auto simp: wp_simps replied_def same_def start_effect_def core_manual_started
        split: sum.split)
    done
  done

lemma wp_handle_manual_stop:
  "wp (handle_manual_stop E cfg b u r) (\<lambda>_ s'. replied r (\<lambda>_. hold u) s s') s"
  unfolding handle_manual_stop_def wp_simps
  apply (cases "resolve_unit cfg u")
   apply (simp add: wp_simps replied_def core_hold_unit)
  apply (simp add: wp_simps)
  apply (rule wp_mono [OF wp_True])
  apply (rule wp_mono [OF wp_same [OF silent_evict_one core_frame.evict_one]])
  apply (auto simp: wp_simps same_def replied_def core_hold_unit)
  done

section \<open>The abstract controller\<close>

text \<open>
  A pass on the core alone: the trigger's effect, given the reply \<open>x\<close> it got, then the decision
  from the scan, \<open>None\<close> when it failed.
\<close>

definition trigger_effect :: "trigger \<Rightarrow> manual_reply \<Rightarrow> core \<Rightarrow> core" where
  "trigger_effect trig x c =
     (case trig of ManualStart u _ \<Rightarrow> start_effect u x c | ManualStop u _ \<Rightarrow> hold u c | _ \<Rightarrow> c)"

definition reply_of :: "trigger \<Rightarrow> manual_reply \<Rightarrow> (nat \<times> manual_reply) list" where
  "reply_of trig x =
     (case trig of ManualStart _ r \<Rightarrow> [(r, x)] | ManualStop _ r \<Rightarrow> [(r, x)] | _ \<Rightarrow> [])"

definition abs_pass ::
  "config \<Rightarrow> trigger \<Rightarrow> manual_reply \<Rightarrow> (claim list \<times> time) option \<Rightarrow> core \<Rightarrow> core" where
  "abs_pass cfg trig x scan c =
     (let c1 = trigger_effect trig x c
      in case scan of None \<Rightarrow> c1 | Some (cs, t) \<Rightarrow> decide_core cfg cs t c1)"

lemma wp_handle_trigger:
  "wp (handle_trigger E cfg b trig) (\<lambda>_ s'. \<exists>x. sys_replies s' = reply_of trig x @ sys_replies s
     \<and> core_of (sys_arb s') = trigger_effect trig x (core_of (sys_arb s))) s"
proof (cases trig)
  case (ManualStart u r)
  then show ?thesis
    using wp_handle_manual_start [of E cfg u r s]
    by (auto simp: handle_trigger_def reply_of_def trigger_effect_def replied_def elim!: wp_mono)
next
  case (ManualStop u r)
  then show ?thesis
    using wp_handle_manual_stop [of E cfg b u r s]
    by (auto simp: handle_trigger_def reply_of_def trigger_effect_def replied_def elim!: wp_mono)
qed (simp_all add: handle_trigger_def reply_of_def trigger_effect_def wp_simps)

text \<open>A pass is counted, then handles its trigger, scans, and acts on the scan if it succeeded.\<close>

definition counted :: "trigger \<Rightarrow> 'w sys \<Rightarrow> 'w sys" where
  "counted trig s = s\<lparr> sys_arb := (sys_arb s)\<lparr> arb_metrics :=
      record_reconcile_pass (pass_trigger_of trig) (arb_metrics (sys_arb s)) \<rparr> \<rparr>"

lemma counted_simps [simp]:
  "core_of (sys_arb (counted trig s)) = core_of (sys_arb s)"
  "sys_replies (counted trig s) = sys_replies s"
  "sys_host (counted trig s) = sys_host s"
  "needs_resume (sys_arb (counted trig s)) = needs_resume (sys_arb s)"
  by (simp_all add: counted_def)

lemma reconcile_run:
  assumes "run_state (reconcile_with E cfg b pv trig) s = (r, s')"
  obtains s1 sc s2 where
    "run_state (handle_trigger E cfg b trig) (counted trig s) = ((), s1)"
    "run_state (on_host (scan_claims E cfg)) s1 = (sc, s2)"
    "run_state (case sc of Inl e \<Rightarrow> State_Monad.return (Inl e)
       | Inr cs \<Rightarrow> after_scan E cfg b pv cs) s2 = (r, s')"
proof -
  obtain s1 where 1: "run_state (handle_trigger E cfg b trig) (counted trig s) = ((), s1)"
    by (metis old.unit.exhaust prod.collapse)
  obtain sc s2 where 2: "run_state (on_host (scan_claims E cfg)) s1 = (sc, s2)" by fastforce
  have "run_state (case sc of Inl e \<Rightarrow> State_Monad.return (Inl e)
      | Inr cs \<Rightarrow> after_scan E cfg b pv cs) s2 = (r, s')"
    using assms 1 2 by (simp only: reconcile_with_def run_state_bind upd_arb_def run_state_update
        prod.case counted_def)
  with 1 2 show ?thesis by (rule that)
qed

lemma reconcile_refines:
  assumes "run_state (reconcile_with E cfg b pv trig) s = (r, s')"
  shows "\<exists>x scan. core_of (sys_arb s') = abs_pass cfg trig x scan (core_of (sys_arb s))
     \<and> sys_replies s' = reply_of trig x @ sys_replies s
     \<and> (scan = None \<longrightarrow> r \<noteq> Inr ())"
proof -
  obtain s1 sc s2 where 1: "run_state (handle_trigger E cfg b trig) (counted trig s) = ((), s1)"
    and 2: "run_state (on_host (scan_claims E cfg)) s1 = (sc, s2)"
    and rest: "run_state (case sc of Inl e \<Rightarrow> State_Monad.return (Inl e)
       | Inr cs \<Rightarrow> after_scan E cfg b pv cs) s2 = (r, s')"
    using reconcile_run [OF assms] .
  obtain x where x: "sys_replies s1 = reply_of trig x @ sys_replies s"
      "core_of (sys_arb s1) = trigger_effect trig x (core_of (sys_arb s))"
    using wp_run [OF wp_handle_trigger 1] by auto
  have s2: "core_of (sys_arb s2) = core_of (sys_arb s1)" "sys_replies s2 = sys_replies s1"
    using core_run [OF keeps_on_host 2] silent_run [OF silent_on_host 2] by simp_all
  show ?thesis
  proof (cases sc)
    case (Inl e)
    then show ?thesis
      using rest s2 x by (intro exI [of _ x] exI [of _ None]) (auto simp: abs_pass_def)
  next
    case (Inr cs)
    then have "run_state (after_scan E cfg b pv cs) s2 = (r, s')" using rest by simp
    from after_scan_core [OF this] silent_run [OF silent_after_scan this] show ?thesis
      using s2 x by (intro exI [of _ x] exI [of _ "Some (cs, hclock (sys_host s2))"])
        (simp add: abs_pass_def)
  qed
qed

section \<open>The state invariant\<close>

definition settled :: "core \<Rightarrow> bool" where
  "settled c = (case c of (st, cs, p, _) \<Rightarrow>
     (st = Gaming \<or> st = Available) \<and> (st = Available \<longrightarrow> cs = [] \<and> p = None))"

lemma settled_trigger_effect [simp]: "settled (trigger_effect trig x c) = settled c"
  by (cases c) (simp add: settled_def trigger_effect_def start_effect_def release_def hold_def
      split: trigger.split)

lemma settled_decide:
  "settled (decide_core cfg cs t c)"
  by (cases c) (auto simp: settled_def decide_core_def debounce_game_exit_def Let_def
      split: prod.split arb_state.split)

lemma settled_abs_pass: "settled c \<Longrightarrow> settled (abs_pass cfg trig x scan c)"
  by (simp add: abs_pass_def Let_def settled_decide split: option.split prod.split)

section \<open>The metrics\<close>

lemma set_AList_update: "set (AList.update k v m) \<subseteq> insert (k, v) (set m)"
  by (induction m) (auto split: if_splits)

definition metrics_ok :: "metrics \<Rightarrow> bool" where
  "metrics_ok m \<longleftrightarrow>
     distinct (map fst (evictions m)) \<and> distinct (map fst (unit_restarts m))
     \<and> distinct (map fst (eviction_durations m))
     \<and> (\<forall>(k, h)\<in>set (eviction_durations m). \<exists>xs. hist_holds xs h)"

lemma hist_holds_empty: "hist_holds [] empty_histogram"
  by (simp add: hist_holds_def empty_histogram_def)

lemma metrics_ok_eviction: "metrics_ok m \<Longrightarrow> metrics_ok (record_eviction u out m)"
  by (simp add: metrics_ok_def record_eviction_def)

lemma metrics_ok_restart: "metrics_ok m \<Longrightarrow> metrics_ok (record_unit_restart u m)"
  by (simp add: metrics_ok_def record_unit_restart_def)

lemma metrics_ok_pass: "metrics_ok m \<Longrightarrow> metrics_ok (record_reconcile_pass t m)"
  by (simp add: metrics_ok_def record_reconcile_pass_def)

lemma metrics_ok_duration:
  assumes "metrics_ok m"
  shows "metrics_ok (record_eviction_duration u st secs m)"
proof -
  let ?d = "eviction_durations m"
  let ?h = "case map_of ?d (u, st) of None \<Rightarrow> empty_histogram | Some h \<Rightarrow> h"
  have "\<exists>xs. hist_holds xs ?h"
    using assms hist_holds_empty by (auto simp: metrics_ok_def split: option.split dest!: map_of_SomeD)
  then have "\<exists>xs. hist_holds xs (hist_observe secs ?h)"
    using hist_holds_observe by blast
  then have "\<forall>(k, h)\<in>set (alist_upd (u, st) empty_histogram (hist_observe secs) ?d).
      \<exists>xs. hist_holds xs h"
    using assms set_AList_update [of "(u, st)" "hist_observe secs ?h" ?d]
    by (fastforce simp: metrics_ok_def alist_upd_def)
  with assms show ?thesis
    by (simp add: metrics_ok_def record_eviction_duration_def)
qed

lemma metrics_ok_seed:
  assumes "metrics_ok m"
  shows "metrics_ok (seed_unit u m)"
proof -
  have d: "(\<forall>(k, h)\<in>set (alist_default (u, st) empty_histogram d). \<exists>xs. hist_holds xs h)"
    if "\<forall>(k, h)\<in>set d. \<exists>xs. hist_holds xs h" for st and d :: "((string \<times> eviction_stage) \<times> duration_histogram) list"
    using that hist_holds_empty set_AList_update [of "(u, st)" empty_histogram d]
    by (auto simp: alist_default_def split: option.split)
  have "\<forall>(k, h)\<in>set (alist_default (u, Stage_Total) empty_histogram
      (alist_default (u, Stage_Stop) empty_histogram (eviction_durations m))). \<exists>xs. hist_holds xs h"
    by (intro d) (use assms in \<open>simp add: metrics_ok_def\<close>)
  with assms show ?thesis
    by (simp add: metrics_ok_def seed_unit_def ALL_STAGES_def)
qed

lemma metrics_ok_with_config: "metrics_ok (arb_metrics (with_config t cfg))"
proof -
  have base: "metrics_ok (arb_metrics (default_arbiter t))"
    by (simp add: default_arbiter_def empty_metrics_def metrics_ok_def)
  have step: "metrics_ok (arb_metrics (fold (\<lambda>u s. s\<lparr> arb_metrics := seed_unit (unit_name u) (arb_metrics s),
       needs_resume := insert (unit_name u) (needs_resume s) \<rparr>) us a))"
    if "metrics_ok (arb_metrics a)" for us a
    using that by (induction us arbitrary: a) (simp_all add: metrics_ok_seed)
  show ?thesis
    unfolding with_config_def by (rule step [OF base])
qed

interpretation metrics_inv: arbiter_invariant "\<lambda>a. metrics_ok (arb_metrics a)"
proof (unfold_locales, goal_cases)
  case (1 a u reason r tm wall)
  then show ?case
    by (auto simp: record_evicted_def Let_def metrics_ok_eviction metrics_ok_duration split: option.split)
next
  case (2 a t x)
  then show ?case by (cases x) (simp add: note_one_def Let_def)
next
  case (3 a t u)
  then show ?case by (simp add: warn_one_def)
next
  case (6 a sts pv mem)
  then show ?case by (simp add: refreshed_def Let_def split: option.split)
next
  case (12 a n st)
  then show ?case by (simp add: manual_started_def Let_def metrics_ok_restart)
qed (simp_all add: metrics_ok_restart metrics_ok_pass hold_unit_def clear_gaming_def)

end
