(* ===== verification/Pass_Log.thy ===== *)
theory Pass_Log
  imports Pass_Spec
begin

text \<open>
  What a reconcile pass does to the outside world: the sequence of process controls and scans it
  adds to the ghost log. A \<open>grant\<close> is a start or a resume, the two controls that let a tenant use
  the GPU. The lemmas below show, block by block, that every grant of a pass follows a scan of
  that pass that found no game, with no other scan in between, and which units can be granted.
\<close>

section \<open>Grants and scans\<close>

fun grant :: "event \<Rightarrow> bool" where
  "grant (Ev_Control a _ _ _) = (a = ''start'' \<or> a = ''resume'')"
| "grant (Ev_Scan _) = False"

fun is_scan :: "event \<Rightarrow> bool" where
  "is_scan (Ev_Scan _) = True"
| "is_scan (Ev_Control _ _ _ _) = False"

text \<open>The claims of the newest scan of a log; \<open>None\<close> if it failed or there is none.\<close>

fun last_scan :: "event list \<Rightarrow> claim list option" where
  "last_scan [] = None"
| "last_scan (Ev_Scan c # es) = c"
| "last_scan (Ev_Control _ _ _ _ # es) = last_scan es"

fun guarded :: "event list \<Rightarrow> bool" where
  "guarded [] = True"
| "guarded (e # es) = ((grant e \<longrightarrow> last_scan es = Some []) \<and> guarded es)"

lemma last_scan_append: "last_scan fs = Some c \<Longrightarrow> last_scan (fs @ es) = Some c"
  by (induction fs rule: last_scan.induct) auto

lemma guarded_split: "guarded (fs @ e # es) \<Longrightarrow> grant e \<Longrightarrow> last_scan es = Some []"
  by (induction fs) auto

lemma guarded_append: "guarded fs \<Longrightarrow> guarded es \<Longrightarrow> guarded (fs @ es)"
  by (induction fs) (auto simp: last_scan_append)

lemma guarded_plain: "list_all (\<lambda>e. \<not> grant e) es \<Longrightarrow> guarded es"
  by (induction es) auto

lemma last_scan_controls:
  "list_all (\<lambda>e. \<not> is_scan e) fs \<Longrightarrow> last_scan (fs @ es) = last_scan es"
  by (induction fs rule: last_scan.induct) auto

lemma guarded_controls:
  "list_all (\<lambda>e. \<not> is_scan e) fs \<Longrightarrow> last_scan es = Some [] \<Longrightarrow> guarded es \<Longrightarrow> guarded (fs @ es)"
  by (induction fs) (auto simp: last_scan_controls)

lemma acts_not_scan: "list_all (acts A u) es \<Longrightarrow> list_all (\<lambda>e. \<not> is_scan e) es"
  by (auto simp: list_all_iff elim!: acts.elims dest!: bspec)

text \<open>\<open>plain A es\<close>: only controls with the actions \<open>A\<close>, of any unit, and scans.\<close>

fun plain :: "string list \<Rightarrow> event \<Rightarrow> bool" where
  "plain A (Ev_Control a _ _ _) = (a \<in> set A)"
| "plain A (Ev_Scan _) = True"

lemma acts_plain: "acts A u e \<Longrightarrow> set A \<subseteq> set B \<Longrightarrow> plain B e"
  by (cases e) auto

lemma acts_plain_all: "list_all (acts A u) es \<Longrightarrow> set A \<subseteq> set B \<Longrightarrow> list_all (plain B) es"
  by (auto simp: list_all_iff intro: acts_plain)

lemma plain_mono: "list_all (plain A) es \<Longrightarrow> set A \<subseteq> set B \<Longrightarrow> list_all (plain B) es"
  unfolding list_all_iff by (metis plain.elims(2) plain.simps subsetD)

lemma plain_no_grant:
  "list_all (plain A) es \<Longrightarrow> ''start'' \<notin> set A \<Longrightarrow> ''resume'' \<notin> set A \<Longrightarrow> list_all (\<lambda>e. \<not> grant e) es"
  unfolding list_all_iff by (metis grant.elims(2) plain.simps(1))

section \<open>Traces of the blocks of a pass\<close>

definition sys_log :: "'w sys \<Rightarrow> event list" where
  "sys_log s = hlog (sys_host s)"

definition traces :: "('w sys, 'a) state \<Rightarrow> ('a \<Rightarrow> event list \<Rightarrow> bool) \<Rightarrow> bool" where
  "traces m P \<longleftrightarrow> (\<forall>s a s'. run_state m s = (a, s') \<longrightarrow> (\<exists>es. sys_log s' = es @ sys_log s \<and> P a es))"

lemma tracesI:
  "(\<And>s a s'. run_state m s = (a, s') \<Longrightarrow> \<exists>es. sys_log s' = es @ sys_log s \<and> P a es) \<Longrightarrow> traces m P"
  by (auto simp: traces_def)

lemma tracesE:
  assumes "traces m P" and "run_state m s = (a, s')"
  obtains es where "sys_log s' = es @ sys_log s" and "P a es"
  using assms unfolding traces_def by blast

lemma traces_mono: "traces m P \<Longrightarrow> (\<And>a es. P a es \<Longrightarrow> Q a es) \<Longrightarrow> traces m Q"
  unfolding traces_def by meson

lemma traces_return: "P a [] \<Longrightarrow> traces (State_Monad.return a) P"
  by (simp add: traces_def)

lemma traces_bind:
  assumes "traces m P" and "\<And>a es. P a es \<Longrightarrow> traces (f a) (\<lambda>b fs. Q b (fs @ es))"
  shows "traces (m \<bind> f) Q"
proof (rule tracesI)
  fix s b s2
  assume r: "run_state (m \<bind> f) s = (b, s2)"
  obtain a s1 where 1: "run_state m s = (a, s1)" by fastforce
  obtain es where es: "sys_log s1 = es @ sys_log s" "P a es" using assms(1) 1 by (rule tracesE)
  have 2: "run_state (f a) s1 = (b, s2)" using r 1 by simp
  obtain fs where "sys_log s2 = fs @ sys_log s1" "Q b (fs @ es)" using assms(2) [OF es(2)] 2 by (rule tracesE)
  with es show "\<exists>es. sys_log s2 = es @ sys_log s \<and> Q b es" by (intro exI [of _ "fs @ es"]) simp
qed

lemma traces_on_host: "emits m P \<Longrightarrow> traces (on_host m) P"
  by (rule tracesI) (auto simp: on_host_def sys_log_def elim: emitsE split: prod.splits)

lemma traces_upd_arb: "P () [] \<Longrightarrow> traces (upd_arb f) P"
  by (simp add: traces_def upd_arb_def sys_log_def)

lemma traces_get_arb: "(\<And>a. P a []) \<Longrightarrow> traces get_arb P"
  by (simp add: traces_def get_arb_def)

lemma traces_send_reply: "P () [] \<Longrightarrow> traces (send_reply r x) P"
  by (simp add: traces_def send_reply_def sys_log_def)

text \<open>\<open>all_events R m\<close>: every event \<open>m\<close> adds satisfies \<open>R\<close>.\<close>

definition all_events :: "(event \<Rightarrow> bool) \<Rightarrow> ('w sys, 'a) state \<Rightarrow> bool" where
  "all_events R m \<longleftrightarrow> traces m (\<lambda>_ es. list_all R es)"

named_theorems event_intros

lemma all_events_return [event_intros]: "all_events R (State_Monad.return a)"
  by (simp add: all_events_def traces_return)

lemma all_events_bind [event_intros]:
  "all_events R m \<Longrightarrow> (\<And>a. all_events R (f a)) \<Longrightarrow> all_events R (m \<bind> f)"
  unfolding all_events_def by (rule traces_bind) (auto elim!: traces_mono)

lemma all_events_on_host [event_intros]: "grows R m \<Longrightarrow> all_events R (on_host m)"
  unfolding all_events_def by (rule traces_on_host) (simp add: emits_grows)

lemma all_events_upd_arb [event_intros]: "all_events R (upd_arb f)"
  by (simp add: all_events_def traces_upd_arb)

lemma all_events_get_arb [event_intros]: "all_events R get_arb"
  by (simp add: all_events_def traces_get_arb)

lemma all_events_send_reply [event_intros]: "all_events R (send_reply r x)"
  by (simp add: all_events_def traces_send_reply)

lemma all_events_if [event_intros]:
  "all_events R a \<Longrightarrow> all_events R b \<Longrightarrow> all_events R (if c then a else b)"
  by simp

lemma all_events_case_sum [event_intros]:
  "(\<And>e. all_events R (f e)) \<Longrightarrow> (\<And>a. all_events R (g a)) \<Longrightarrow>
   all_events R (case r of Inl e \<Rightarrow> f e | Inr a \<Rightarrow> g a)"
  by (cases r) auto

lemma all_events_case_option [event_intros]:
  "all_events R f \<Longrightarrow> (\<And>a. all_events R (g a)) \<Longrightarrow>
   all_events R (case r of None \<Rightarrow> f | Some a \<Rightarrow> g a)"
  by (cases r) auto

lemma all_events_case_prod [event_intros]:
  "(\<And>a b. all_events R (f a b)) \<Longrightarrow> all_events R (case r of (a, b) \<Rightarrow> f a b)"
  by (cases r) auto

lemma all_events_filter_m [event_intros]:
  "(\<And>x. all_events R (f x)) \<Longrightarrow> all_events R (filter_m f xs)"
  by (induction xs) (auto intro!: event_intros)

lemma grows_acts_plain:
  "grows (acts A u) m \<Longrightarrow> set A \<subseteq> set B \<Longrightarrow> grows (plain B) m"
  by (erule grows_mono) (rule acts_plain)

lemma plain_is_running: "''is-active'' \<in> set A \<Longrightarrow> grows (plain A) (is_running E u)"
  by (rule grows_acts_plain [of "[''is-active'']" "unit_name u"]) (auto intro!: host_intros)

lemma plain_evict_timed:
  "{''is-active'', ''stop'', ''kill''} \<subseteq> set A \<Longrightarrow> grows (plain A) (evict_timed E cfg b u)"
  by (rule grows_acts_plain [OF grows_evict_timed]) simp

lemma grows_vram_used_mb: "grows R (vram_used_mb E b)"
  by (rule grows_quiet) (auto simp: vram_used_mb_def intro!: host_intros)

lemma grows_wall_clock: "grows R (wall_clock E)"
  by (rule grows_quiet) (rule quiet_wall_clock)

abbreviation eviction_actions :: "string list" where
  "eviction_actions \<equiv> [''is-active'', ''stop'', ''kill'']"

lemma plain_evict_one: "all_events (plain eviction_actions) (evict_one E cfg b u reason v)"
  unfolding evict_one_def
  by (intro event_intros grows_vram_used_mb grows_wall_clock plain_evict_timed) simp

lemma plain_evict_units: "all_events (plain eviction_actions) (evict_units E cfg b us reason)"
proof -
  have "all_events (plain eviction_actions) (evict_each E cfg b reason us v)" for v
    by (induction us arbitrary: v) (auto intro!: event_intros plain_evict_one)
  then show ?thesis unfolding evict_units_def by (intro event_intros grows_vram_used_mb)
qed

lemma plain_known_running: "all_events (plain eviction_actions) (known_running E rn u)"
  unfolding known_running_def by (intro event_intros plain_is_running) simp

lemma plain_set_state_now: "all_events R (set_state_now E x)"
  unfolding set_state_now_def by (intro event_intros grows_wall_clock)

lemma plain_transition: "all_events (plain eviction_actions) (transition E cfg b c d us rn)"
  unfolding transition_def
  by (cases "unit_action c d")
    (simp_all add: evict_arm_def restart_arm_def none_arm_def gaming_invariant_def
      preempt_tenants_def event_intros plain_set_state_now plain_evict_units plain_known_running
      grows_now)

section \<open>The grants of a pass\<close>

text \<open>\<open>grants_to N es\<close>: guarded, with every grant to a unit named in \<open>N\<close>, and no busy probe.\<close>

definition grants_to :: "string set \<Rightarrow> event list \<Rightarrow> bool" where
  "grants_to N es \<longleftrightarrow> guarded es \<and> list_all (\<lambda>e. grant e \<longrightarrow> ev_unit e \<in> N) es
     \<and> list_all (plain [''is-active'', ''start'', ''resume'']) es"

lemma grants_to_Nil [simp]: "grants_to N []"
  by (simp add: grants_to_def)

lemma grants_to_append: "grants_to N fs \<Longrightarrow> grants_to N es \<Longrightarrow> grants_to N (fs @ es)"
  by (auto simp: grants_to_def guarded_append)

lemma grants_to_mono: "grants_to N es \<Longrightarrow> N \<subseteq> M \<Longrightarrow> grants_to M es"
  by (auto simp: grants_to_def list_all_iff)

lemma grants_to_probe:
  "list_all (plain [''is-active'']) es \<Longrightarrow> grants_to N es"
proof -
  assume es: "list_all (plain [''is-active'']) es"
  have "list_all (\<lambda>e. \<not> grant e) es" by (rule plain_no_grant [OF es]) simp_all
  moreover from this have "list_all (\<lambda>e. grant e \<longrightarrow> ev_unit e \<in> N) es"
    by (simp add: list_all_iff)
  ultimately show ?thesis
    using plain_mono [OF es, of "[''is-active'', ''start'', ''resume'']"]
    by (simp add: grants_to_def guarded_plain)
qed

text \<open>A grant right after a clear scan.\<close>

lemma grants_to_after_scan:
  assumes "list_all (acts [a] (unit_name u)) fs" and "a \<in> {''start'', ''resume''}" and "unit_name u \<in> N"
  shows "grants_to N (fs @ [Ev_Scan (Some [])])"
proof -
  have "list_all (plain [''is-active'', ''start'', ''resume'']) fs"
    using assms(1,2) by (auto intro: acts_plain_all)
  moreover have "list_all (\<lambda>e. grant e \<longrightarrow> ev_unit e \<in> N) fs"
    using assms(1,3) by (auto simp: list_all_iff elim!: acts.elims dest!: bspec)
  moreover have "guarded (fs @ [Ev_Scan (Some [])])"
    using acts_not_scan [OF assms(1)] by (rule guarded_controls) simp_all
  ultimately show ?thesis by (simp add: grants_to_def)
qed

lemma traces_claim_appeared:
  "traces (claim_appeared E cfg) (\<lambda>r es.
     (\<exists>c. es = [Ev_Scan c] \<and> (r = Inr False \<longrightarrow> c = Some [])))"
  unfolding claim_appeared_def
  by (rule traces_bind [OF traces_on_host [OF emits_scan_claims]], rule traces_return)
    (auto simp: ensure_running_toctou_clear_def split: sum.splits)

lemma grants_to_scan [simp]: "grants_to N [Ev_Scan c]"
  by (simp add: grants_to_def)

lemma traces_probe: "traces (on_host (is_running E u)) (\<lambda>_ es. list_all (plain [''is-active'']) es)"
  by (rule traces_on_host) (simp add: emits_grows plain_is_running)

lemma traces_start:
  "traces (on_host (start E u)) (\<lambda>_ es. list_all (acts [''start''] (unit_name u)) es)"
  by (rule traces_on_host) (simp add: emits_grows grows_start)

lemma traces_resume:
  "traces (on_host (resume E u)) (\<lambda>_ es. list_all (acts [''resume''] (unit_name u)) es)"
  by (rule traces_on_host) (simp add: emits_grows grows_resume)

lemma traces_start_loop:
  "unit_name ` set us \<subseteq> N \<Longrightarrow> traces (start_loop E cfg us) (\<lambda>_ es. grants_to N es)"
proof (induction us)
  case Nil
  then show ?case by (simp add: traces_return)
next
  case (Cons u us)
  then have u: "unit_name u \<in> N" and IH: "traces (start_loop E cfg us) (\<lambda>_ es. grants_to N es)"
    by auto
  have rest: "traces (start_loop E cfg us \<bind> (\<lambda>rest. State_Monad.return (g rest)))
      (\<lambda>_ fs. grants_to N (fs @ es))" if "grants_to N es" for es g
    using that by (intro traces_bind [OF IH] traces_return) (simp add: grants_to_append)
  show ?case
    unfolding start_loop.simps
  proof (rule traces_bind [OF traces_claim_appeared], goal_cases)
    case (1 c es)
    then obtain sc where es: "es = [Ev_Scan sc]" and sc: "c = Inr False \<longrightarrow> sc = Some []" by blast
    show ?case
    proof (cases "c = Inr False")
      case False
      then show ?thesis
        by (cases c) (auto simp: es intro!: traces_return)
    next
      case True
      with sc es have es: "es = [Ev_Scan (Some [])]" by simp
      have "traces (on_host (start E u) \<bind> (\<lambda>r. case r of
           Inl x \<Rightarrow> start_loop E cfg us
         | Inr x \<Rightarrow> upd_arb (\<lambda>a. a\<lparr> arb_metrics := record_unit_restart (unit_name u) (arb_metrics a) \<rparr>)
             \<bind> (\<lambda>_. start_loop E cfg us \<bind> (\<lambda>rest. State_Monad.return (case rest of
                   Inl e \<Rightarrow> Inl e | Inr (names, stopped) \<Rightarrow> Inr (unit_name u # names, stopped))))))
         (\<lambda>_ fs. grants_to N (fs @ es))"
      proof (rule traces_bind [OF traces_start], goal_cases)
        case (1 r fs)
        have g: "grants_to N (fs @ es)"
          unfolding es by (rule grants_to_after_scan [OF 1 _ u]) simp
        show ?case
          using g unfolding append_assoc
          by (cases r)
            (auto intro!: traces_bind [OF traces_upd_arb [where P = "\<lambda>_ es. es = []"]]
              intro: rest traces_mono [OF IH] grants_to_append)
      qed
      then show ?thesis by (simp add: True)
    qed
  qed
qed

lemma traces_resume_loop:
  "unit_name ` set us \<subseteq> N \<Longrightarrow> traces (resume_loop E cfg st us) (\<lambda>_ es. grants_to N es)"
proof (induction us)
  case Nil
  then show ?case by (simp add: traces_return)
next
  case (Cons u us)
  then have u: "unit_name u \<in> N" and IH: "traces (resume_loop E cfg st us) (\<lambda>_ es. grants_to N es)"
    by auto
  have IH': "traces (resume_loop E cfg st us) (\<lambda>_ fs. grants_to N (fs @ es))" if "grants_to N es" for es
    using that by (intro traces_mono [OF IH] grants_to_append)
  have up: "traces (if unit_name u \<in> set st then State_Monad.return True
       else on_host (is_running E u) \<bind> (\<lambda>r. State_Monad.return (r = Inr True)))
      (\<lambda>_ es. grants_to N es)"
    by (auto intro!: traces_return traces_bind [OF traces_probe] grants_to_probe)
  have fin: "traces ((if ok then upd_arb f else State_Monad.return ()) \<bind> (\<lambda>_. resume_loop E cfg st us))
      (\<lambda>_ fs. grants_to N (fs @ es))" if "grants_to N es" for ok f es
    using that
    by (cases ok) (auto intro!: IH' traces_bind [OF traces_upd_arb [where P = "\<lambda>_ es. es = []"]])
  show ?case
    unfolding resume_loop.simps
  proof (rule traces_bind [OF up], goal_cases)
    case (1 up es)
    show ?case
    proof (cases up)
      case False
      then show ?thesis using IH' [OF 1] by simp
    next
      case True
      have "traces (claim_appeared E cfg \<bind> (\<lambda>c. if unwrap_or c True then State_Monad.return ()
          else on_host (resume E u) \<bind> (\<lambda>ok. (if ok then upd_arb (\<lambda>a. a\<lparr> needs_resume := needs_resume a - {unit_name u} \<rparr>)
             else State_Monad.return ()) \<bind> (\<lambda>_. resume_loop E cfg st us))))
        (\<lambda>_ fs. grants_to N (fs @ es))"
      proof (rule traces_bind [OF traces_claim_appeared], goal_cases)
        case (1 c sc)
        then obtain x where sc: "sc = [Ev_Scan x]" and x: "c = Inr False \<longrightarrow> x = Some []" by blast
        show ?case
        proof (cases "unwrap_or c True")
          case True
          then show ?thesis
            using sc \<open>grants_to N es\<close> by (auto intro!: traces_return simp: grants_to_append [of N "[_]", simplified])
        next
          case False
          then have "c = Inr False" by (cases c) auto
          with sc x have sc: "sc = [Ev_Scan (Some [])]" by simp
          show ?thesis
            unfolding if_not_P [OF False]
          proof (rule traces_bind [OF traces_resume], goal_cases)
            case (1 ok fs)
            have "grants_to N ((fs @ sc) @ es)"
              unfolding sc by (intro grants_to_append [OF grants_to_after_scan [OF 1 _ u] \<open>grants_to N es\<close>]) simp
            then show ?case using fin by simp
          qed
        qed
      qed
      then show ?thesis by (simp add: True)
    qed
  qed
qed

section \<open>Busy probes\<close>

fun says_busy :: "event \<Rightarrow> bool" where
  "says_busy (Ev_Control a _ _ (Exited code _ _)) = (a = ''busy'' \<and> code = Some 0)"
| "says_busy _ = False"

lemma emits_is_busy:
  "emits (is_busy E u) (\<lambda>b es. list_all (acts [''busy''] (unit_name u)) es
     \<and> (list_ex says_busy es \<longleftrightarrow> b))"
proof (cases "busy_cmd u")
  case None
  then show ?thesis by (simp add: is_busy_def emits_return)
next
  case (Some cmd)
  have fail: "emits (do { record_hook_failure v hk f; State_Monad.return False })
      (\<lambda>b fs. list_all (acts [''busy''] (unit_name u)) (fs @ es) \<and> (list_ex says_busy (fs @ es) \<longleftrightarrow> b))"
    if "list_all (acts [''busy''] (unit_name u)) es" "\<not> list_ex says_busy es" for v hk f es
    using that by (intro emits_bind_quiet quiet_record_hook_failure emits_return) simp
  show ?thesis
    unfolding is_busy_def Some option.case
  proof (rule emits_bind [OF emits_stop_argv], goal_cases)
    case (1 r es)
    have acts: "list_all (acts [''busy''] (unit_name u)) es" using 1 by auto
    show ?case
    proof (cases r)
      case (Inl e)
      then have "\<not> list_ex says_busy es"
        using 1 by (auto elim!: says_busy.elims)
      then show ?thesis using Inl fail acts by simp
    next
      case (Inr x)
      obtain code sout serr where x: "x = (code, sout, serr)" by (cases x)
      have es: "list_ex says_busy es \<longleftrightarrow> code = Some 0" using 1 Inr x by auto
      show ?thesis
        using es fail [OF acts] acts Inr x
        by (cases "classify_busy_exit code")
          (auto simp: classify_busy_exit_def intro!: emits_return split: option.splits if_splits)
    qed
  qed
qed

definition probed :: "managed_unit list \<Rightarrow> managed_unit list \<Rightarrow> event list \<Rightarrow> bool" where
  "probed us busy es \<longleftrightarrow> list_all (plain [''is-active'', ''busy'']) es \<and> set busy \<subseteq> set us
     \<and> list_all (\<lambda>e. says_busy e \<longrightarrow> ev_unit e \<in> unit_name ` set busy) es"

lemma says_busy_acts: "acts A u e \<Longrightarrow> ''busy'' \<notin> set A \<Longrightarrow> \<not> says_busy e"
  by (cases e rule: says_busy.cases) auto

lemma says_busy_acts_all:
  "list_all (acts A u) es \<Longrightarrow> ''busy'' \<notin> set A \<Longrightarrow> list_all (\<lambda>e. \<not> says_busy e) es"
  by (auto simp: list_all_iff dest: says_busy_acts)

lemma emits_probe_each: "emits (probe_each E hs us) (\<lambda>(busy, _) es. probed us busy es)"
proof (induction us)
  case Nil
  then show ?case by (simp add: probed_def emits_return)
next
  case (Cons u us)
  have skip: "emits (probe_each E hs us) (\<lambda>(busy, _) es. probed (u # us) busy es)"
    by (rule emits_mono [OF Cons.IH]) (auto simp: probed_def)
  have act: "emits (is_running E u) (\<lambda>_ es. list_all (acts [''is-active''] (unit_name u)) es)"
    by (simp add: emits_grows grows_is_running)
  have busy: "emits (if c then State_Monad.return False else is_busy E u)
      (\<lambda>b es. list_all (acts [''busy''] (unit_name u)) es \<and> (list_ex says_busy es \<longrightarrow> b))" for c
    using emits_mono [OF emits_is_busy [of E u]] by (cases c) (simp_all add: emits_return)
  have ask: "emits (is_running E u \<bind> (\<lambda>r. (if ok_of r = Some False then State_Monad.return False
        else is_busy E u) \<bind> (\<lambda>b. probe_each E hs us \<bind> (\<lambda>(busy, rn). State_Monad.return
          (if b then u # busy else busy, f r rn)))))
      (\<lambda>(busy, _) es. probed (u # us) busy es)" for f
  proof (intro emits_bind [OF act] emits_bind [OF busy] emits_bind [OF Cons.IH], goal_cases)
    case (1 r es b fs x gs)
    obtain bs rn where x: "x = (bs, rn)" by fastforce
    have es: "list_all (plain [''is-active'', ''busy'']) es" "list_all (\<lambda>e. \<not> says_busy e) es"
      using acts_plain_all [OF 1(1)] says_busy_acts_all [OF 1(1)] by simp_all
    have fs': "list_all (plain [''is-active'', ''busy'']) fs"
      using acts_plain_all [of _ _ fs] 1(2) by fastforce
    have fs: "list_all (\<lambda>e. ev_unit e = unit_name u) fs"
      using 1(2) by (auto simp: list_all_iff elim!: acts.elims dest!: bspec)
    have "probed (u # us) (if b then u # bs else bs) (gs @ fs @ es)"
      using 1(2,3) es fs fs' unfolding x by (auto simp: probed_def list_all_iff list_ex_iff)
    then show ?case unfolding x by (simp add: emits_return)
  qed
  show ?case
    unfolding probe_each.simps
    by (cases "busy_cmd u = None \<or> unit_name u \<in> hs", simp_all only: if_True if_False)
      (rule skip, rule ask)
qed

lemma emits_probe_busy:
  "emits (probe_busy E cfg hs) (\<lambda>(busy, _) es. probed (resolved_units cfg) busy es)"
  by (simp add: probe_busy_def emits_probe_each)

section \<open>The trace of a whole pass\<close>

lemma filter_m_traces:
  assumes "\<And>x. traces (f x) (\<lambda>_ es. list_all (plain [''is-active'']) es)"
  shows "traces (filter_m f xs) (\<lambda>ys es. set ys \<subseteq> set xs \<and> list_all (plain [''is-active'']) es)"
proof (induction xs)
  case (Cons x xs)
  show ?case
    unfolding filter_m.simps
    by (intro traces_bind [OF assms] traces_bind [OF Cons.IH] traces_return) auto
qed (simp add: traces_return)

definition target_names :: "config \<Rightarrow> arb_state \<Rightarrow> string set \<Rightarrow> managed_unit list \<Rightarrow> string set" where
  "target_names cfg desired hs pre = unit_name ` set (resume_targets desired cfg hs pre)"

lemma target_names_avoid:
  assumes "n \<in> target_names cfg d hs pre"
  shows "d = Available" and "n \<notin> hs" and "n \<notin> unit_name ` set pre"
proof -
  obtain u where u: "n = unit_name u" "u \<in> set (resume_targets d cfg hs pre)"
    using assms unfolding target_names_def by blast
  then show "d = Available" "n \<notin> hs" "n \<notin> unit_name ` set pre"
    unfolding set_resume_targets by (simp_all split: if_splits)
qed

lemma ensure_running_trace:
  assumes "run_state (ensure_running E cfg desired pre) s = (r, s')"
  shows "\<exists>es. sys_log s' = es @ sys_log s \<and> grants_to (target_names cfg desired (held (sys_arb s)) pre) es"
proof -
  let ?N = "target_names cfg desired (held (sys_arb s)) pre"
  let ?T = "ensure_running_targets desired cfg (held (sys_arb s)) pre"
  have cand: "traces (start_candidates E ?T)
      (\<lambda>ys es. set ys \<subseteq> set ?T \<and> list_all (plain [''is-active'']) es)"
    unfolding start_candidates_def
    by (rule filter_m_traces) (auto intro!: traces_bind [OF traces_probe] traces_return)
  have T: "unit_name ` set ?T \<subseteq> ?N"
    by (auto simp: ensure_running_targets_def target_names_def)
  let ?f = "\<lambda>a. start_candidates E (ensure_running_targets desired cfg (held a) pre) \<bind> (\<lambda>ts.
      start_loop E cfg ts \<bind> (\<lambda>r. case r of
         Inl e \<Rightarrow> State_Monad.return (Inl e)
       | Inr (started, stopped) \<Rightarrow>
           (if stopped then State_Monad.return ()
            else resume_loop E cfg started (filter (\<lambda>u. unit_name u \<in> needs_resume a)
              (resume_targets desired cfg (held a) pre)))
           \<bind> (\<lambda>_. State_Monad.return (Inr ()))))"
  have "traces (?f (sys_arb s)) (\<lambda>_ es. grants_to ?N es)"
  proof (rule traces_bind [OF cand], goal_cases)
    case (1 ts es)
    then have ts: "unit_name ` set ts \<subseteq> ?N" using T by blast
    show ?case
    proof (rule traces_bind [OF traces_start_loop [OF ts]], goal_cases)
      case (1 x fs)
      have g: "grants_to ?N (fs @ es)"
        using 1 \<open>set ts \<subseteq> _ \<and> _\<close> by (auto intro: grants_to_append grants_to_probe)
      have res: "traces (if st then State_Monad.return ()
          else resume_loop E cfg ns (filter (\<lambda>u. unit_name u \<in> needs_resume (sys_arb s))
             (resume_targets desired cfg (held (sys_arb s)) pre))) (\<lambda>_ es. grants_to ?N es)" for st ns
        by (auto intro!: traces_return traces_resume_loop simp: target_names_def)
      show ?case
        using g
        by (cases x) (auto intro!: traces_return traces_bind [OF res] grants_to_append)
    qed
  qed
  moreover have "run_state (?f (sys_arb s)) s = (r, s')"
    using assms by (simp add: ensure_running_def get_arb_def Let_def)
  ultimately show ?thesis by (auto elim: tracesE)
qed

lemma refresh_trace: "all_events (plain [''is-active'']) (refresh_substate E cfg pv b)"
proof -
  have u: "grows (plain [''is-active'']) (unit_substate E c hs evs u)" for c hs evs u
    unfolding unit_substate_def Let_def
    by (intro host_intros plain_is_running grows_quiet [OF quiet_loaded_models] quiet_case_prod)
      (auto intro!: host_intros grows_quiet [OF quiet_loaded_models] split: prod.split)
  have t: "grows (plain [''is-active'']) (State_Monad.traverse_list (unit_substate E c hs evs) us)" for c hs evs us
    by (induction us) (auto intro!: host_intros u)
  show ?thesis
    unfolding refresh_substate_def
    by (intro event_intros t grows_quiet quiet_query_compute_procs quiet_attribute_units
        quiet_query_memory)
qed

text \<open>
  \<open>ladder\<close>: no grant goes to a unit below a tenant that answered busy in the same trace.
  \<open>lawful\<close>: the trace of a pass that acts on the state \<open>desired\<close> with the holds \<open>hs\<close>.
\<close>

definition ladder :: "config \<Rightarrow> event list \<Rightarrow> bool" where
  "ladder cfg es \<longleftrightarrow> list_all (\<lambda>b. says_busy b \<longrightarrow> list_all (\<lambda>g. grant g \<longrightarrow>
     list_ex (\<lambda>v. unit_name v = ev_unit b \<and>
       list_all (\<lambda>u. unit_name u = ev_unit g \<longrightarrow> priority v \<le> priority u) (resolved_units cfg))
       (resolved_units cfg)) es) es"

definition lawful :: "config \<Rightarrow> arb_state \<Rightarrow> string set \<Rightarrow> event list \<Rightarrow> bool" where
  "lawful cfg desired hs es \<longleftrightarrow> guarded es \<and> ladder cfg es \<and>
     list_all (\<lambda>e. grant e \<longrightarrow> desired = Available \<and> ev_unit e \<notin> hs) es"

lemma not_busy_plain:
  "list_all (plain A) es \<Longrightarrow> ''busy'' \<notin> set A \<Longrightarrow> list_all (\<lambda>e. \<not> says_busy e) es"
  unfolding list_all_iff by (metis says_busy.elims(2) plain.simps(1))

lemma demand_covers:
  assumes "v \<in> set busy"
  shows "\<exists>d. pass_demand cs cfg busy desired = Some d \<and> priority v \<le> d"
proof -
  obtain d where d: "effective_demand cs cfg busy = Some d" "priority v \<le> d"
    using assms effective_demand_None [of cs cfg busy] effective_demand_ge [of cs cfg busy _ v] by fastforce
  then show ?thesis
    by (auto simp: pass_demand_def Let_def le_max_iff_disj)
qed

lemma lawful_pass:
  assumes probe: "probed (resolved_units cfg) busy ps"
    and quiet_part: "list_all (plain [''is-active'', ''stop'', ''kill'']) ts"
    and grants: "grants_to (target_names cfg desired hs
        (preempted_units cfg (pass_demand cs cfg busy desired))) gs"
    and rest: "list_all (plain [''is-active'']) rs"
  shows "lawful cfg desired hs (rs @ gs @ ts @ ps)"
proof -
  let ?pre = "preempted_units cfg (pass_demand cs cfg busy desired)"
  let ?es = "rs @ gs @ ts @ ps"
  have no: "list_all (\<lambda>e. \<not> grant e) rs" "list_all (\<lambda>e. \<not> grant e) ts" "list_all (\<lambda>e. \<not> grant e) ps"
    using plain_no_grant [OF rest] plain_no_grant [OF quiet_part]
      plain_no_grant [of "[''is-active'', ''busy'']" ps] probe by (simp_all add: probed_def)
  have from_gs: "g \<in> set gs" if "g \<in> set ?es" "grant g" for g
    using that no by (auto simp: list_all_iff)
  have tgt: "ev_unit g \<in> target_names cfg desired hs ?pre" if "g \<in> set ?es" "grant g" for g
    using from_gs [OF that] that(2) grants by (auto simp: grants_to_def list_all_iff)
  have from_ps: "b \<in> set ps" if "b \<in> set ?es" "says_busy b" for b
    using that not_busy_plain [OF rest] not_busy_plain [OF quiet_part] grants
      not_busy_plain [of "[''is-active'', ''start'', ''resume'']" gs]
    by (auto simp: list_all_iff grants_to_def)
  have "guarded ?es"
    using grants by (simp add: grants_to_def guarded_append guarded_plain no)
  moreover have "ladder cfg ?es"
    unfolding ladder_def list_all_iff list_ex_iff
  proof (intro ballI impI)
    fix b g
    assume b: "b \<in> set ?es" "says_busy b" and g: "g \<in> set ?es" "grant g"
    obtain v where v: "v \<in> set busy" "unit_name v = ev_unit b"
      using probe from_ps [OF b] b(2) by (auto simp: probed_def list_all_iff)
    then have vu: "v \<in> set (resolved_units cfg)" using probe by (auto simp: probed_def)
    obtain d where d: "pass_demand cs cfg busy desired = Some d" "priority v \<le> d"
      using demand_covers [OF v(1)] by blast
    have "priority v \<le> priority u" if "u \<in> set (resolved_units cfg)" "unit_name u = ev_unit g" for u
    proof (rule ccontr)
      assume "\<not> priority v \<le> priority u"
      then have "u \<in> set ?pre" using that d by (simp add: set_preempted_units)
      then have "ev_unit g \<in> unit_name ` set ?pre" using that(2) by (metis imageI)
      then show False
        using target_names_avoid(3) [OF tgt [OF g]] by blast
    qed
    with v vu show "\<exists>v\<in>set (resolved_units cfg). unit_name v = ev_unit b \<and>
        (\<forall>u\<in>set (resolved_units cfg). unit_name u = ev_unit g \<longrightarrow> priority v \<le> priority u)" by blast
  qed
  moreover have "list_all (\<lambda>e. grant e \<longrightarrow> desired = Available \<and> ev_unit e \<notin> hs) ?es"
    using target_names_avoid(1,2) [OF tgt] by (auto simp: list_all_iff)
  ultimately show ?thesis by (simp add: lawful_def)
qed

lemma traces_obtain:
  assumes "all_events R m" and "run_state m s = (a, s')"
  obtains es where "sys_log s' = es @ sys_log s" and "list_all R es"
  using assms unfolding all_events_def by (rule tracesE)

lemma held_core: "core_of a = core_of b \<Longrightarrow> held a = held b"
  by (simp add: core_of_def)

lemma after_decision_trace:
  assumes "run_state (after_decision E cfg b pv cs cur desired (held (sys_arb s))) s = (r, s')"
  shows "\<exists>es. sys_log s' = es @ sys_log s \<and> lawful cfg desired (held (sys_arb s)) es"
proof -
  let ?hs = "held (sys_arb s)"
  obtain busy rn s1 where 1: "run_state (on_host (probe_busy E cfg ?hs)) s = ((busy, rn), s1)"
    by (metis prod.collapse)
  let ?pre = "preempted_units cfg (pass_demand cs cfg busy desired)"
  obtain s2 where 2: "run_state (transition E cfg b cur desired ?pre rn) s1 = ((), s2)"
    by (metis old.unit.exhaust prod.collapse)
  obtain x s3 where 3: "run_state (ensure_running E cfg desired ?pre) s2 = (x, s3)" by fastforce
  have 4: "run_state (case x of Inl e \<Rightarrow> State_Monad.return (Inl e)
      | Inr _ \<Rightarrow> refresh_substate E cfg pv b \<bind> (\<lambda>_. State_Monad.return (Inr ()))) s3 = (r, s')"
    using assms 1 2 3 by (simp only: after_decision_def run_state_bind prod.case Let_def)
  obtain ps where ps: "sys_log s1 = ps @ sys_log s" "probed (resolved_units cfg) busy ps"
    using tracesE [OF traces_on_host [OF emits_probe_busy] 1] by auto
  obtain ts where ts: "sys_log s2 = ts @ sys_log s1" "list_all (plain [''is-active'', ''stop'', ''kill'']) ts"
    using traces_obtain [OF plain_transition 2] .
  have h: "held (sys_arb s2) = ?hs"
    using 2 moves_transition [of desired E cfg b cur ?pre rn] core_run [OF keeps_on_host 1]
    by (auto simp: moves_to_def core_of_def with_state_def dest!: spec [of _ s1])
  obtain gs where gs: "sys_log s3 = gs @ sys_log s2" "grants_to (target_names cfg desired ?hs ?pre) gs"
    using ensure_running_trace [OF 3] h by auto
  have tail: "all_events (plain [''is-active'']) (case x of Inl e \<Rightarrow> State_Monad.return (Inl e)
      | Inr _ \<Rightarrow> refresh_substate E cfg pv b \<bind> (\<lambda>_. State_Monad.return (Inr ())))"
    by (intro event_intros refresh_trace)
  obtain rs where rs: "sys_log s' = rs @ sys_log s3" "list_all (plain [''is-active'']) rs"
    using traces_obtain [OF tail 4] .
  show ?thesis
    using lawful_pass [OF ps(2) ts(2) gs(2) rs(2)] ps(1) ts(1) gs(1) rs(1)
    by (intro exI [of _ "rs @ gs @ ts @ ps"]) simp
qed

section \<open>The trace of a trigger\<close>

lemma plain_preempting_tenant:
  "all_events (plain [''is-active'', ''busy'']) (preempting_tenant E cfg u)"
proof -
  have "grows (plain [''is-active'', ''busy'']) (probe_busy E cfg hs)" for hs
    unfolding emits_grows [symmetric]
    by (rule emits_mono [OF emits_probe_busy]) (auto simp: probed_def)
  then show ?thesis
    unfolding preempting_tenant_def by (intro event_intros)
qed

lemma traces_manual_start_check:
  "traces (manual_start_check E cfg u r) (\<lambda>g es. guarded es \<and>
     (case g of Gate_Proceed _ \<Rightarrow> last_scan es = Some [] | _ \<Rightarrow> True))"
  (is "traces _ ?P")
proof -
  have reply: "traces (send_reply r x \<bind> (\<lambda>_. State_Monad.return g)) (\<lambda>g fs. ?P g (fs @ es))"
    if "guarded es" "\<And>q. g \<noteq> Gate_Proceed q" for x g es
    using that by (intro traces_bind [OF traces_send_reply [where P = "\<lambda>_ es. es = []"]] traces_return)
      (auto split: manual_start_gate.split)
  have pre: "traces (preempting_tenant E cfg u) (\<lambda>_ es. list_all (plain [''is-active'', ''busy'']) es)"
    using plain_preempting_tenant by (simp add: all_events_def)
  have main: "traces (preempting_tenant E cfg u \<bind> (\<lambda>v. if v \<noteq> None then
        send_reply r (Inl PreemptedByTenant) \<bind> (\<lambda>_. State_Monad.return Gate_Refused)
      else claim_appeared E cfg \<bind> (\<lambda>c. case c of
          Inr False \<Rightarrow> State_Monad.return (Gate_Proceed r)
        | Inr True \<Rightarrow> send_reply r (Inl GpuHeldByGame) \<bind> (\<lambda>_. State_Monad.return Gate_Refused)
        | Inl e \<Rightarrow> send_reply r (Inl Failed) \<bind> (\<lambda>_. State_Monad.return Gate_Failed)))) ?P"
  proof (rule traces_bind [OF pre], goal_cases)
    case (1 v es)
    then have es: "guarded es"
      by (intro guarded_plain plain_no_grant [of "[''is-active'', ''busy'']"]) simp_all
    show ?case
    proof (cases v)
      case (Some x)
      then show ?thesis using reply [OF es, of Gate_Refused "Inl PreemptedByTenant"] by simp
    next
      case None
      have "traces (claim_appeared E cfg \<bind> (\<lambda>c. case c of
          Inr False \<Rightarrow> State_Monad.return (Gate_Proceed r)
        | Inr True \<Rightarrow> send_reply r (Inl GpuHeldByGame) \<bind> (\<lambda>_. State_Monad.return Gate_Refused)
        | Inl e \<Rightarrow> send_reply r (Inl Failed) \<bind> (\<lambda>_. State_Monad.return Gate_Failed)))
        (\<lambda>g fs. ?P g (fs @ es))"
      proof (rule traces_bind [OF traces_claim_appeared], goal_cases)
        case (1 c sc)
        then obtain x where x: "sc = [Ev_Scan x]" "c = Inr False \<longrightarrow> x = Some []" by blast
        have g: "guarded (sc @ es)" using x es by simp
        have R: "traces (send_reply r y \<bind> (\<lambda>_. State_Monad.return g)) (\<lambda>g fs. ?P g ((fs @ sc) @ es))"
          if "\<And>q. g \<noteq> Gate_Proceed q" for y g
          unfolding append_assoc by (rule reply [OF g that])
        show ?case
          using x g R [of Gate_Refused "Inl GpuHeldByGame"] R [of Gate_Failed "Inl Failed"]
          by (auto intro!: traces_return split: sum.split bool.split)
      qed
      then show ?thesis by (simp add: None)
    qed
  qed
  have held: "traces (if c then send_reply r (Inl GpuHeldByGame) \<bind> (\<lambda>_. State_Monad.return Gate_Refused)
      else preempting_tenant E cfg u \<bind> (\<lambda>v. if v \<noteq> None then
        send_reply r (Inl PreemptedByTenant) \<bind> (\<lambda>_. State_Monad.return Gate_Refused)
      else claim_appeared E cfg \<bind> (\<lambda>c. case c of
          Inr False \<Rightarrow> State_Monad.return (Gate_Proceed r)
        | Inr True \<Rightarrow> send_reply r (Inl GpuHeldByGame) \<bind> (\<lambda>_. State_Monad.return Gate_Refused)
        | Inl e \<Rightarrow> send_reply r (Inl Failed) \<bind> (\<lambda>_. State_Monad.return Gate_Failed))))
      ?P" for c
    using main reply [of "[]" Gate_Refused "Inl GpuHeldByGame", unfolded append_Nil2] by (cases c) simp_all
  show ?thesis
    unfolding manual_start_check_def
    by (rule traces_bind [OF traces_get_arb [where P = "\<lambda>_ es. es = []"]], simp)
      (simp only: append_Nil2 held)
qed

lemma emits_manual_start:
  "emits (manual_start E cfg u) (\<lambda>_ es. list_all (\<lambda>e. \<not> is_scan e) es)"
proof (cases "resolve_unit cfg u")
  case (Inl e)
  then show ?thesis by (simp add: manual_start_def emits_return)
next
  case (Inr v)
  have "grows (acts [''is-active'', ''start''] (unit_name v)) (manual_start E cfg u)"
    unfolding manual_start_def Inr sum.case by (intro host_intros) simp_all
  then show ?thesis
    unfolding emits_grows [symmetric] by (rule emits_mono) (rule acts_not_scan)
qed

lemma traces_handle_manual_start: "traces (handle_manual_start E cfg u r) (\<lambda>_ es. guarded es)"
  unfolding handle_manual_start_def
proof (rule traces_bind [OF traces_manual_start_check], goal_cases)
  case (1 g es)
  show ?case
  proof (cases g)
    case (Gate_Proceed q)
    with 1 have es: "guarded es" "last_scan es = Some []" by simp_all
    have "traces (on_host (manual_start E cfg u) \<bind> (\<lambda>x. case x of
         Inr started \<Rightarrow> upd_arb (manual_started u started) \<bind> (\<lambda>_. send_reply q (Inr ()))
       | Inl e \<Rightarrow> send_reply q (Inl Failed))) (\<lambda>_ fs. guarded (fs @ es))"
    proof (rule traces_bind [OF traces_on_host [OF emits_manual_start]], goal_cases)
      case (1 x fs)
      then have "guarded (fs @ es)" using es by (intro guarded_controls)
      then show ?case
        by (cases x) (auto intro!: traces_send_reply
            traces_bind [OF traces_upd_arb [where P = "\<lambda>_ es. es = []"]])
    qed
    then show ?thesis by (simp add: Gate_Proceed)
  qed (use 1 in \<open>simp_all add: traces_return\<close>)
qed

definition is_manual_start :: "trigger \<Rightarrow> bool" where
  "is_manual_start trig = (case trig of ManualStart _ _ \<Rightarrow> True | _ \<Rightarrow> False)"

lemma plain_handle_trigger:
  "\<not> is_manual_start trig \<Longrightarrow> all_events (plain eviction_actions) (handle_trigger E cfg b trig)"
  by (cases trig)
    (auto simp: is_manual_start_def handle_trigger_def handle_manual_stop_def
      intro!: event_intros grows_vram_used_mb plain_evict_one)

lemma traces_handle_trigger:
  "traces (handle_trigger E cfg b trig) (\<lambda>_ es. guarded es
     \<and> (\<not> is_manual_start trig \<longrightarrow> list_all (plain eviction_actions) es))"
proof (cases "is_manual_start trig")
  case True
  then show ?thesis
    using traces_handle_manual_start
    by (cases trig) (simp_all add: is_manual_start_def handle_trigger_def)
next
  case False
  show ?thesis
    using plain_handle_trigger [OF False] unfolding all_events_def
    by (rule traces_mono) (use False in \<open>auto intro!: guarded_plain plain_no_grant [of eviction_actions]\<close>)
qed

section \<open>The trace of a pass\<close>

lemma decide_run:
  "run_state (decide cfg cs) s = ((cur_state (sys_arb s), d, hs), s1) \<Longrightarrow>
     hs = held (sys_arb s) \<and> held (sys_arb s1) = hs \<and> sys_log s1 = sys_log s"
  by (auto simp: decide_def on_host_def get_arb_def upd_arb_def now_def sys_log_def split: prod.splits)

lemma after_scan_trace:
  assumes "run_state (after_scan E cfg b pv cs) s = (r, s')"
  shows "\<exists>es. sys_log s' = es @ sys_log s
     \<and> lawful cfg (cur_state (sys_arb s')) (held (sys_arb s)) es"
proof -
  obtain c d hs s1 where 1: "run_state (decide cfg cs) s = ((c, d, hs), s1)"
    by (metis prod.collapse)
  have c: "c = cur_state (sys_arb s)" and d: "d = fst (decide_core cfg cs (hclock (sys_host s)) (core_of (sys_arb s)))"
    using 1 by (auto simp: decide_def on_host_def get_arb_def upd_arb_def now_def decide_core_def
        core_of_def split: prod.splits)
  have s1: "hs = held (sys_arb s1)" "held (sys_arb s1) = held (sys_arb s)" "sys_log s1 = sys_log s"
    using decide_run [OF 1 [unfolded c]] by simp_all
  have 2: "run_state (after_decision E cfg b pv cs c d (held (sys_arb s1))) s1 = (r, s')"
    using assms 1 s1(1) by (simp only: after_scan_def run_state_bind prod.case)
  have "cur_state (sys_arb s') = d"
    using after_scan_core [OF assms] d
    by (metis core_of_def fst_conv)
  with after_decision_trace [OF 2] s1 show ?thesis by simp
qed

lemma lawful_append:
  assumes "lawful cfg d hs es" and "list_all (\<lambda>e. \<not> grant e \<and> \<not> says_busy e) fs"
  shows "lawful cfg d hs (es @ fs)"
proof -
  have "guarded fs" using assms(2) by (auto intro: guarded_plain simp: list_all_iff)
  then show ?thesis
    using assms by (auto simp: lawful_def ladder_def list_all_iff intro: guarded_append)
qed

lemma lawful_plain: "list_all (\<lambda>e. \<not> grant e) es \<Longrightarrow> lawful cfg d hs es"
  by (auto simp: lawful_def ladder_def guarded_plain list_all_iff)

lemma counted_log [simp]: "sys_log (counted trig s) = sys_log s"
  by (simp add: sys_log_def)

lemma trigger_trace:
  assumes "run_state (handle_trigger E cfg b trig) s = ((), s1)"
  obtains ts where "sys_log s1 = ts @ sys_log s" and "guarded ts"
    and "\<not> is_manual_start trig \<Longrightarrow> list_all (plain eviction_actions) ts"
  using tracesE [OF traces_handle_trigger assms] by blast

lemma scan_trace:
  assumes "run_state (on_host (scan_claims E cfg)) s1 = (sc, s2)"
  shows "sys_log s2 = Ev_Scan (ok_of sc) # sys_log s1"
  using tracesE [OF traces_on_host [OF emits_scan_claims] assms] by auto

lemma reconcile_trace:
  assumes "run_state (reconcile_with E cfg b pv trig) s = (r, s')"
  shows "\<exists>es. sys_log s' = es @ sys_log s \<and> guarded es
     \<and> (\<not> is_manual_start trig \<longrightarrow> lawful cfg (cur_state (sys_arb s')) (held (sys_arb s')) es)"
proof -
  obtain s1 sc s2 where 1: "run_state (handle_trigger E cfg b trig) (counted trig s) = ((), s1)"
    and 2: "run_state (on_host (scan_claims E cfg)) s1 = (sc, s2)"
    and rest: "run_state (case sc of Inl e \<Rightarrow> State_Monad.return (Inl e)
       | Inr cs \<Rightarrow> after_scan E cfg b pv cs) s2 = (r, s')"
    using reconcile_run [OF assms] .
  obtain ts where ts: "sys_log s1 = ts @ sys_log s" "guarded ts"
      "\<not> is_manual_start trig \<Longrightarrow> list_all (plain eviction_actions) ts"
    using trigger_trace [OF 1] by auto
  have no: "list_all (\<lambda>e. \<not> grant e \<and> \<not> says_busy e) (Ev_Scan c # ts)" if "\<not> is_manual_start trig" for c
    using ts(3) that plain_no_grant [of eviction_actions ts] not_busy_plain [of eviction_actions ts]
    by (simp add: list_all_iff)
  note s2 = scan_trace [OF 2]
  show ?thesis
  proof (cases sc)
    case (Inl e)
    then have "s' = s2" using rest by simp
    then show ?thesis
      using s2 ts no by (intro exI [of _ "Ev_Scan (ok_of sc) # ts"]) (auto intro!: lawful_plain simp: list_all_iff)
  next
    case (Inr cs)
    then have run: "run_state (after_scan E cfg b pv cs) s2 = (r, s')" using rest by simp
    obtain es where es: "sys_log s' = es @ sys_log s2"
        "lawful cfg (cur_state (sys_arb s')) (held (sys_arb s2)) es"
      using after_scan_trace [OF run] by blast
    have "held (sys_arb s') = held (sys_arb s2)"
      using after_scan_core [OF run] by (auto simp: decide_core_def core_of_def split: prod.splits)
    then show ?thesis
      using es s2 ts no [of "ok_of sc"]
      by (intro exI [of _ "es @ Ev_Scan (ok_of sc) # ts"])
        (auto intro!: guarded_append simp: lawful_def [of _ _ _ es] intro: lawful_append)
  qed
qed

end
