(* ===== verification/Daemon.thy ===== *)
theory Daemon
  imports Pass_Log Procmon
begin

text \<open>
  The daemon wiring of \<open>src/main.rs\<close>: the startup pass, the trigger channel, the reconcile task
  with its \<open>select!\<close> and the debounce of process events, and shutdown, as a step relation. The
  tasks interleave freely: between two steps of the reconcile task any number of triggers can be
  accepted, time can pass and the world can change. A pass is one step: the reconcile task runs
  it to the end before it looks at its triggers again.
\<close>

section \<open>State\<close>

definition DEBOUNCE :: time where
  "DEBOUNCE = from_millis 150"

definition TRIGGER_CHANNEL_DEPTH :: nat where
  "TRIGGER_CHANNEL_DEPTH = 64"

text \<open>
  \<open>d_debounce\<close> is the deadline while the task sits in \<open>debounce_proc_events\<close>. \<open>d_sent\<close> is a
  ghost: the reply channels of the manual triggers the channel accepted.
\<close>

record 'w daemon =
  d_sys :: "'w sys"
  d_queue :: "trigger list"
  d_debounce :: "time option"
  d_cancelled :: bool
  d_running :: bool
  d_sent :: "nat list"

fun reply_ids :: "trigger \<Rightarrow> nat list" where
  "reply_ids (ManualStart _ r) = [r]"
| "reply_ids (ManualStop _ r) = [r]"
| "reply_ids _ = []"

text \<open>What the tasks that hold a sender put into the channel: the HTTP handlers and the listener.\<close>

fun sendable :: "trigger \<Rightarrow> bool" where
  "sendable ProcEvent = True"
| "sendable (ManualStart _ _) = True"
| "sendable (ManualStop _ _) = True"
| "sendable _ = False"

definition run_pass ::
  "'w os \<Rightarrow> config \<Rightarrow> gpu_backend \<Rightarrow> presence_view \<Rightarrow> trigger \<Rightarrow> 'w daemon \<Rightarrow> 'w daemon" where
  "run_pass E cfg b pv t d =
     d\<lparr> d_sys := snd (run_state (reconcile_with E cfg b pv t) (d_sys d)) \<rparr>"

definition daemon_clock :: "'w daemon \<Rightarrow> time" where
  "daemon_clock d = hclock (sys_host (d_sys d))"

section \<open>Startup\<close>

definition initial_sys :: "'w os \<Rightarrow> config \<Rightarrow> 'w host \<Rightarrow> 'w sys" where
  "initial_sys E cfg h =
     \<lparr> sys_host = h, sys_arb = with_config (os_wall E (hworld h)) cfg, sys_replies = [] \<rparr>"

definition boot ::
  "'w os \<Rightarrow> config \<Rightarrow> presence_view \<Rightarrow> 'w host \<Rightarrow> (gpu_backend \<times> 'w daemon) option" where
  "boot E cfg pv h =
     (case run_state (resolve_backend E (gpu_backend_kind cfg)) h of
        (b, h1) \<Rightarrow>
          if \<not> enabled cfg then None
          else Some (b, run_pass E cfg b pv Startup
            \<lparr> d_sys = initial_sys E cfg h1, d_queue = [], d_debounce = None, d_cancelled = False,
               d_running = True, d_sent = [] \<rparr>))"

section \<open>Steps\<close>

text \<open>
  The first three rules are the environment's: a sender (HTTP, the process listener) gets a trigger
  accepted, which ends with the task that holds the receiver, the world moves on, a shutdown signal
  arrives. The others are the reconcile task's:
  the backstop timer, a deliberate trigger, a burst of process events (opened, absorbed, cut short
  by a deliberate trigger, expired), and the exit.
\<close>

inductive daemon_step ::
  "'w os \<Rightarrow> config \<Rightarrow> gpu_backend \<Rightarrow> 'w daemon \<Rightarrow> 'w daemon \<Rightarrow> bool"
  for E :: "'w os" and cfg :: config and b :: gpu_backend where
  Enqueue: "d_running d \<Longrightarrow> length (d_queue d) < TRIGGER_CHANNEL_DEPTH \<Longrightarrow> sendable t \<Longrightarrow>
     daemon_step E cfg b d (d\<lparr> d_queue := d_queue d @ [t], d_sent := reply_ids t @ d_sent d \<rparr>)"
| World: "daemon_step E cfg b d (d\<lparr> d_sys := (d_sys d)\<lparr> sys_host := (sys_host (d_sys d))
     \<lparr> hclock := hclock (sys_host (d_sys d)) + n, hworld := w \<rparr> \<rparr> \<rparr>)"
| Cancel: "daemon_step E cfg b d (d\<lparr> d_cancelled := True \<rparr>)"
| Tick: "d_running d \<Longrightarrow> d_debounce d = None \<Longrightarrow>
     daemon_step E cfg b d (run_pass E cfg b pv Timer d)"
| Receive: "d_running d \<Longrightarrow> d_debounce d = None \<Longrightarrow> d_queue d = t # q \<Longrightarrow> t \<noteq> ProcEvent \<Longrightarrow>
     daemon_step E cfg b d (run_pass E cfg b pv t (d\<lparr> d_queue := q \<rparr>))"
| Burst: "d_running d \<Longrightarrow> d_debounce d = None \<Longrightarrow> d_queue d = ProcEvent # q \<Longrightarrow>
     daemon_step E cfg b d (d\<lparr> d_queue := q, d_debounce := Some (daemon_clock d + DEBOUNCE) \<rparr>)"
| Absorb: "d_running d \<Longrightarrow> d_debounce d = Some dl \<Longrightarrow> d_queue d = ProcEvent # q \<Longrightarrow>
     daemon_step E cfg b d (d\<lparr> d_queue := q \<rparr>)"
| Carry: "d_running d \<Longrightarrow> d_debounce d = Some dl \<Longrightarrow> d_queue d = t # q \<Longrightarrow> t \<noteq> ProcEvent \<Longrightarrow>
     daemon_step E cfg b d (run_pass E cfg b pv t (d\<lparr> d_queue := q, d_debounce := None \<rparr>))"
| Expire: "d_running d \<Longrightarrow> d_debounce d = Some dl \<Longrightarrow> dl \<le> daemon_clock d \<Longrightarrow>
     daemon_step E cfg b d (run_pass E cfg b pv ProcEvent (d\<lparr> d_debounce := None \<rparr>))"
| Exit: "d_running d \<Longrightarrow> d_debounce d = None \<Longrightarrow> d_cancelled d \<Longrightarrow>
     daemon_step E cfg b d (d\<lparr> d_running := False \<rparr>)"

inductive reachable ::
  "'w os \<Rightarrow> config \<Rightarrow> gpu_backend \<Rightarrow> 'w daemon \<Rightarrow> bool"
  for E :: "'w os" and cfg :: config and b :: gpu_backend where
  Boot: "hlog h = [] \<Longrightarrow> boot E cfg pv h = Some (b, d) \<Longrightarrow> reachable E cfg b d"
| Step: "reachable E cfg b d \<Longrightarrow> daemon_step E cfg b d d' \<Longrightarrow> reachable E cfg b d'"

inductive_cases daemon_stepE: "daemon_step E cfg b d d'"
inductive_simps reachable_simps: "reachable E cfg b d"

section \<open>Invariants of every run\<close>

lemma run_pass_simps [simp]:
  "d_queue (run_pass E cfg b pv t d) = d_queue d"
  "d_sent (run_pass E cfg b pv t d) = d_sent d"
  "d_debounce (run_pass E cfg b pv t d) = d_debounce d"
  "d_running (run_pass E cfg b pv t d) = d_running d"
  "d_cancelled (run_pass E cfg b pv t d) = d_cancelled d"
  "d_sys (run_pass E cfg b pv t d) = snd (run_state (reconcile_with E cfg b pv t) (d_sys d))"
  by (simp_all add: run_pass_def)

text \<open>
  A property of the system state that a pass and the outside world preserve, and that holds before
  the startup pass, holds in every reachable state.
\<close>

locale daemon_invariant =
  fixes I :: "'w sys \<Rightarrow> bool" and E :: "'w os" and cfg :: config
  assumes initial: "hlog h = [] \<Longrightarrow> I (initial_sys E cfg h)"
    and pass: "I s \<Longrightarrow> I (snd (run_state (reconcile_with E cfg b pv t) s))"
    and world: "I s \<Longrightarrow> I (s\<lparr> sys_host := (sys_host s)\<lparr> hclock := c, hworld := w \<rparr> \<rparr>)"
begin

lemma step: "daemon_step E cfg b d d' \<Longrightarrow> I (d_sys d) \<Longrightarrow> I (d_sys d')"
  by (cases rule: daemon_step.cases) (auto intro: pass world)

end

lemma quiet_amdgpu_among [host_intros]: "quiet (amdgpu_among E ns)"
  by (induction ns) (auto intro!: host_intros)

lemma quiet_resolve_backend: "quiet (resolve_backend E k)"
proof -
  have "quiet (State_Monad.get :: ('w host, 'w host) state)" by (simp add: quiet_def)
  then show ?thesis
    by (cases k) (auto simp: resolve_backend_def amdgpu_card_present_def intro!: host_intros)
qed

context daemon_invariant
begin

lemma reachable_inv: "reachable E cfg b d \<Longrightarrow> I (d_sys d)"
proof (induction rule: reachable.induct)
  case (Boot h pv d)
  obtain b' h1 where r: "run_state (resolve_backend E (gpu_backend_kind cfg)) h = (b', h1)" by fastforce
  then have "hlog h1 = []"
    using quiet_resolve_backend [of E "gpu_backend_kind cfg"] Boot(1) by (metis quiet_def snd_conv)
  with Boot(2) r show ?case
    by (auto simp: boot_def split: if_splits intro!: pass initial)
next
  case (Step d d')
  then show ?case by (blast intro: step)
qed

end

lemma core_initial: "core_of (with_config t cfg) = (Available, [], None, {})"
  by (simp add: core_of_def)

interpretation daemon_guarded: daemon_invariant "\<lambda>s. guarded (sys_log s)" E cfg
proof (unfold_locales, goal_cases)
  case (1 h)
  then show ?case by (simp add: initial_sys_def sys_log_def)
next
  case (2 s b pv t)
  obtain r s' where "run_state (reconcile_with E cfg b pv t) s = (r, s')" by fastforce
  with reconcile_trace [OF this] 2 show ?case by (auto intro: guarded_append)
next
  case (3 s c w)
  then show ?case by (simp add: sys_log_def)
qed

interpretation daemon_settled: daemon_invariant "\<lambda>s. settled (core_of (sys_arb s))" E cfg
proof (unfold_locales, goal_cases)
  case (1 h)
  show ?case by (simp add: initial_sys_def core_initial settled_def)
next
  case (2 s b pv t)
  obtain r s' where "run_state (reconcile_with E cfg b pv t) s = (r, s')" by fastforce
  with reconcile_refines [OF this] 2 show ?case by (auto intro: settled_abs_pass)
next
  case (3 s c w)
  then show ?case by simp
qed

interpretation daemon_metrics: daemon_invariant "\<lambda>s. metrics_ok (arb_metrics (sys_arb s))" E cfg
proof (unfold_locales, goal_cases)
  case (1 h)
  show ?case by (simp add: initial_sys_def metrics_ok_with_config)
next
  case (2 s b pv t)
  obtain r s' where run: "run_state (reconcile_with E cfg b pv t) s = (r, s')" by fastforce
  have "on_arb (\<lambda>a. metrics_ok (arb_metrics a)) s'"
    by (rule keeps_run [OF metrics_inv.pass _ run]) (use 2 in \<open>simp add: on_arb_def\<close>)
  with run show ?case by (simp add: on_arb_def)
next
  case (3 s c w)
  then show ?case by simp
qed

section \<open>Every manual trigger is answered once, in order\<close>

text \<open>Both \<open>d_sent\<close> and the replies are newest first: what was accepted is what was answered, then the queue.\<close>

definition accounted :: "'w daemon \<Rightarrow> bool" where
  "accounted d \<longleftrightarrow>
     d_sent d = rev (concat (map reply_ids (d_queue d))) @ map fst (sys_replies (d_sys d))"

lemma reply_of_ids: "map fst (reply_of t x) = reply_ids t"
  by (cases t) (simp_all add: reply_of_def)

lemma rev_reply_ids [simp]: "rev (reply_ids t) = reply_ids t"
  by (cases t) simp_all

lemma pass_replies:
  "map fst (sys_replies (snd (run_state (reconcile_with E cfg b pv t) s)))
     = reply_ids t @ map fst (sys_replies s)"
proof -
  obtain r s' where "run_state (reconcile_with E cfg b pv t) s = (r, s')" by fastforce
  with reconcile_refines [OF this] show ?thesis by (auto simp: reply_of_ids)
qed

lemma accounted_step: "daemon_step E cfg b d d' \<Longrightarrow> accounted d \<Longrightarrow> accounted d'"
  by (cases rule: daemon_step.cases) (auto simp: accounted_def pass_replies)

lemma reachable_accounted: "reachable E cfg b d \<Longrightarrow> accounted d"
proof (induction rule: reachable.induct)
  case (Boot h pv d)
  then show ?case
    by (auto simp: boot_def accounted_def pass_replies initial_sys_def split: prod.splits if_splits)
next
  case (Step d d')
  then show ?case by (blast intro: accounted_step)
qed

lemma sendable_step:
  "daemon_step E cfg b d d' \<Longrightarrow> list_all sendable (d_queue d) \<Longrightarrow> list_all sendable (d_queue d')"
  by (cases rule: daemon_step.cases) auto

lemma reachable_sendable: "reachable E cfg b d \<Longrightarrow> list_all sendable (d_queue d)"
proof (induction rule: reachable.induct)
  case (Boot h pv d)
  then show ?case by (auto simp: boot_def split: prod.splits if_splits)
next
  case (Step d d')
  then show ?case by (blast intro: sendable_step)
qed

lemma queue_bounded_step:
  "daemon_step E cfg b d d' \<Longrightarrow> length (d_queue d) \<le> TRIGGER_CHANNEL_DEPTH \<Longrightarrow>
     length (d_queue d') \<le> TRIGGER_CHANNEL_DEPTH"
  by (cases rule: daemon_step.cases) auto

lemma reachable_queue_bounded: "reachable E cfg b d \<Longrightarrow> length (d_queue d) \<le> TRIGGER_CHANNEL_DEPTH"
proof (induction rule: reachable.induct)
  case (Boot h pv d)
  then show ?case by (auto simp: boot_def split: prod.splits if_splits)
next
  case (Step d d')
  then show ?case by (blast intro: queue_bounded_step)
qed

end
