(* ===== verification/Sample_Pass.thy ===== *)
theory Sample_Pass
  imports Pass_Log Sample_Host "HOL-Library.Code_Target_Nat" "HOL-Library.Code_Target_Int"
begin

text \<open>
  Concrete passes on the sample host: the default configuration on Linux, and one with two
  tenants, a training job that reports itself busy above a model server with a resume hook.
\<close>

definition sample_cfg :: config where
  "sample_cfg = default_config Linux"

definition sample_sys :: "sample_world \<Rightarrow> arb_state \<Rightarrow> sample_world sys" where
  "sample_sys w st =
     \<lparr> sys_host = sample_host w, sys_arb = (with_config 0 sample_cfg)\<lparr> cur_state := st \<rparr>, sys_replies = [] \<rparr>"

definition sample_tenants :: "managed_unit list" where
  "sample_tenants =
     [(hd default_managed_units)\<lparr> unit_name := ''train.service'', priority := 60,
        busy_cmd := Some (ArgvCmd [''always'']) \<rparr>,
      (hd default_managed_units)\<lparr> resume_cmd := Some (ArgvCmd [''always'']) \<rparr>]"

definition tenant_cfg :: "managed_unit list \<Rightarrow> config" where
  "tenant_cfg us = sample_cfg\<lparr> managed_units := us \<rparr>"

definition sample_pass ::
  "config \<Rightarrow> trigger \<Rightarrow> sample_world sys \<Rightarrow> (reconcile_error + unit) \<times> sample_world sys" where
  "sample_pass cfg trig s = run_state (reconcile_with (sample_os Linux) cfg Nvidia default_presence trig) s"

lemma sample_pass_run:
  "run_state (reconcile_with (sample_os Linux) cfg Nvidia default_presence trig) s
     = (fst (sample_pass cfg trig s), snd (sample_pass cfg trig s))"
  by (simp add: sample_pass_def)

definition owing_sys :: "sample_world sys" where
  "owing_sys = (sample_sys (idle_world [''ollama.service''] []) Available)
     \<lparr> sys_arb := (with_config 0 sample_cfg)\<lparr> needs_resume := {''ollama.service''} \<rparr> \<rparr>"

lemma sample_log [simp]: "sys_log (sample_sys (idle_world up stuck) st) = []" "sys_log owing_sys = []"
  by (simp_all add: sample_sys_def owing_sys_def sample_host_def sys_log_def)

end
