(* ===== verification/Pass_Properties.thy ===== *)
theory Pass_Properties
  imports Sample_Pass
begin

text \<open>
  Properties of one reconcile pass: its refinement of the abstract controller, which units it may
  let on the GPU, what it does when a game starts and while one runs, the manual triggers, the
  owed resumes and the counters.
\<close>

section \<open>Refinement\<close>

text \<open>
  C3: A pass refines the abstract controller. Its effect on the state, the claims, the exit window
  and the holds is the trigger's effect under the reply it got, followed by the debounced decision
  on the claims of a scan it made in this pass (the first thing it did, unless a manual trigger
  came first), or nothing more if the scan failed, which the pass reports. A manual trigger gets
  exactly one reply, any other none.
\<close>

theorem pass_refines_controller:
  assumes "run_state (reconcile_with E cfg b pv trig) s = (r, s')"
  shows "\<exists>x scan es ts. core_of (sys_arb s') = abs_pass cfg trig x scan (core_of (sys_arb s))
     \<and> sys_replies s' = reply_of trig x @ sys_replies s
     \<and> sys_log s' = es @ Ev_Scan (map_option fst scan) # ts @ sys_log s
     \<and> (reply_of trig x = [] \<longrightarrow> ts = []) \<and> (scan = None \<longrightarrow> r \<noteq> Inr ())"
proof -
  obtain s1 sc s2 where 1: "run_state (handle_trigger E cfg b trig) (counted trig s) = ((), s1)"
    and 2: "run_state (on_host (scan_claims E cfg)) s1 = (sc, s2)"
    and rest: "run_state (case sc of Inl e \<Rightarrow> State_Monad.return (Inl e)
       | Inr cs \<Rightarrow> after_scan E cfg b pv cs) s2 = (r, s')"
    using reconcile_run [OF assms] .
  obtain x where x: "sys_replies s1 = reply_of trig x @ sys_replies s"
      "core_of (sys_arb s1) = trigger_effect trig x (core_of (sys_arb s))"
    using wp_run [OF wp_handle_trigger 1] by auto
  obtain ts where ts: "sys_log s1 = ts @ sys_log s" "reply_of trig x = [] \<longrightarrow> ts = []"
  proof (cases "reply_of trig x = []")
    case True
    then have "s1 = counted trig s"
      using 1 by (cases trig) (simp_all add: handle_trigger_def reply_of_def)
    then show ?thesis using that [of "[]"] by simp
  next
    case False
    then show ?thesis using that trigger_trace [OF 1] by (metis counted_log)
  qed
  have s2: "core_of (sys_arb s2) = core_of (sys_arb s1)" "sys_replies s2 = sys_replies s1"
      "sys_log s2 = Ev_Scan (ok_of sc) # ts @ sys_log s"
    using core_run [OF keeps_on_host 2] silent_run [OF silent_on_host 2] scan_trace [OF 2] ts(1)
    by simp_all
  show ?thesis
  proof (cases sc)
    case (Inl e)
    then show ?thesis
      using rest s2 x ts(2)
      by (intro exI [of _ x] exI [of _ None] exI [of _ "[]"] exI [of _ ts]) (auto simp: abs_pass_def)
  next
    case (Inr cs)
    then have run: "run_state (after_scan E cfg b pv cs) s2 = (r, s')" using rest by simp
    obtain es where "sys_log s' = es @ sys_log s2" using after_scan_trace [OF run] by blast
    with after_scan_core [OF run] silent_run [OF silent_after_scan run] show ?thesis
      using s2 x ts(2) Inr
      by (intro exI [of _ x] exI [of _ "Some (cs, hclock (sys_host s2))"] exI [of _ es] exI [of _ ts])
        (simp add: abs_pass_def)
  qed
qed

theorem pass_refines_controller_witness:
  "\<exists>x scan. core_of (sys_arb (snd (sample_pass sample_cfg Timer (sample_sys (game_world [] []) Available))))
       = abs_pass sample_cfg Timer x scan (Available, [], None, {})
     \<and> cur_state (sys_arb (snd (sample_pass sample_cfg Timer (sample_sys (game_world [] []) Available)))) = Gaming"
proof -
  have "core_of (sys_arb (sample_sys (game_world [] []) Available)) = (Available, [], None, {})"
    by code_simp
  moreover have "cur_state (sys_arb (snd (sample_pass sample_cfg Timer
      (sample_sys (game_world [] []) Available)))) = Gaming"
    by code_simp
  ultimately show ?thesis
    using pass_refines_controller [OF sample_pass_run, of sample_cfg Timer "sample_sys (game_world [] []) Available"]
    by auto
qed

section \<open>Grants\<close>



section \<open>While a game runs\<close>

lemma filter_m_selects:
  assumes "\<And>x. x \<in> set xs \<Longrightarrow> traces (f x) (\<lambda>c es. list_all R es \<and> (c \<longrightarrow> Q x))"
  shows "traces (filter_m f xs) (\<lambda>ys es. set ys \<subseteq> {x \<in> set xs. Q x} \<and> list_all R es)"
  using assms
proof (induction xs)
  case (Cons x xs)
  have IH: "traces (filter_m f xs) (\<lambda>ys es. set ys \<subseteq> {x \<in> set xs. Q x} \<and> list_all R es)"
    using Cons by simp
  show ?case
    unfolding filter_m.simps
    by (rule traces_bind [OF Cons.prems [of x]], simp, rule traces_bind [OF IH], rule traces_return) auto
qed (simp add: traces_return)

text \<open>\<open>about us e\<close>: a probe, stop or kill of one of the units \<open>us\<close>.\<close>

definition about :: "managed_unit set \<Rightarrow> event \<Rightarrow> bool" where
  "about us e \<longleftrightarrow> (\<exists>u\<in>us. acts eviction_actions (unit_name u) e)"

lemma about_evict_units:
  assumes "set us \<subseteq> A"
  shows "all_events (about A) (evict_units E cfg b us reason)"
proof -
  have one: "all_events (about A) (evict_one E cfg b u reason v)" if "u \<in> A" for u v
  proof -
    have "grows (about A) (evict_timed E cfg b u)"
      by (rule grows_mono [OF grows_evict_timed]) (use that in \<open>auto simp: about_def\<close>)
    then show ?thesis
      unfolding evict_one_def by (intro event_intros grows_vram_used_mb grows_wall_clock)
  qed
  have "all_events (about A) (evict_each E cfg b reason us v)" for v
    using assms by (induction us arbitrary: v) (auto intro!: event_intros one)
  then show ?thesis
    unfolding evict_units_def by (intro event_intros grows_vram_used_mb)
qed

lemma about_known_running: "u \<in> A \<Longrightarrow> all_events (about A) (known_running E rn u)"
proof -
  assume u: "u \<in> A"
  have "grows (about A) (is_running E u)"
    by (rule grows_mono [OF grows_is_running [of "[''is-active'']"]]) (use u in \<open>auto simp: about_def intro!: bexI [of _ u] acts_mono [of "[''is-active'']"]\<close>)
  then show ?thesis unfolding known_running_def by (intro event_intros)
qed

text \<open>
  While a game runs, the gaming invariant acts only on preempted units whose backoff has
  expired: a unit inside its backoff is not even probed.
\<close>

theorem gaming_invariant_respects_backoff:
  "\<exists>es. sys_log (snd (run_state (gaming_invariant E cfg b preempted rn) s)) = es @ sys_log s
     \<and> list_all (about {u \<in> set preempted. \<not> backed_off (inv_backoff (sys_arb s)) (hclock (sys_host s)) u}) es"
proof -
  let ?t = "hclock (sys_host s)" and ?bo = "inv_backoff (sys_arb s)"
  let ?A = "{u \<in> set preempted. \<not> backed_off ?bo ?t u}"
  let ?f = "\<lambda>u. if backed_off ?bo ?t u then State_Monad.return False
      else known_running E rn u \<bind> (\<lambda>r. State_Monad.return (r \<noteq> Some False))"
  let ?g = "\<lambda>came_back. if came_back = [] then State_Monad.return ()
      else upd_arb (fold (warn_one ?t) came_back) \<bind> (\<lambda>_.
        evict_units E cfg b came_back ''gaming invariant'' \<bind> (\<lambda>results.
        upd_arb (note_invariant_backoff came_back results ?t) \<bind> (\<lambda>_.
        if list_ex (\<lambda>r. r = None) results then upd_arb (\<lambda>a. a\<lparr> degraded := True \<rparr>)
        else State_Monad.return ())))"
  have sel: "traces (filter_m ?f preempted) (\<lambda>ys es. set ys \<subseteq> {u \<in> set preempted. u \<in> ?A} \<and> list_all (about ?A) es)"
  proof (rule filter_m_selects)
    fix u assume "u \<in> set preempted"
    show "traces (?f u) (\<lambda>c es. list_all (about ?A) es \<and> (c \<longrightarrow> u \<in> ?A))"
    proof (cases "backed_off ?bo ?t u")
      case True
      then show ?thesis by (simp add: traces_return)
    next
      case False
      then have "all_events (about ?A) (known_running E rn u)"
        using \<open>u \<in> set preempted\<close> by (intro about_known_running) simp
      then show ?thesis
        using False \<open>u \<in> set preempted\<close> unfolding all_events_def
        by (auto intro!: traces_bind traces_return)
    qed
  qed
  have act: "all_events (about ?A) (?g ys)" if "set ys \<subseteq> ?A" for ys
    using that by (intro event_intros about_evict_units)
  have "traces (filter_m ?f preempted \<bind> ?g) (\<lambda>_ es. list_all (about ?A) es)"
  proof (rule traces_bind [OF sel], goal_cases)
    case (1 ys es)
    have "set ys \<subseteq> ?A" using 1 by blast
    from act [OF this] 1 show ?case
      unfolding all_events_def by (auto elim: traces_mono)
  qed
  moreover have "run_state (gaming_invariant E cfg b preempted rn) s = run_state (filter_m ?f preempted \<bind> ?g) s"
    by (simp add: gaming_invariant_def on_host_def now_def get_arb_def)
  ultimately show ?thesis
    by (metis (no_types, lifting) prod.collapse tracesE)
qed

section \<open>When a game starts\<close>

interpretation owing: transitions "\<lambda>a. N \<subseteq> needs_resume a"
proof (unfold_locales, goal_cases)
  case (1 a u reason r tm wall)
  then show ?case by (auto simp: record_evicted_def Let_def split: option.split)
next
  case (2 a t x)
  then show ?case by (cases x) (simp add: note_one_def Let_def)
next
  case (6 a sts pv mem)
  then show ?case by (simp add: refreshed_def Let_def split: option.split)
qed (auto simp: warn_one_def hold_unit_def manual_started_def clear_gaming_def Let_def)

lemma owing_evict_one:
  "wp (evict_one E cfg b u reason v) (\<lambda>_ s'. unit_name u \<in> needs_resume (sys_arb s')) s"
  unfolding evict_one_def wp_simps
  by (rule wp_mono [OF wp_True]) (auto simp: wp_simps record_evicted_def Let_def intro!: wp_mono [OF wp_True]
      split: option.split prod.split)

lemma owing_evict_each:
  "wp (evict_each E cfg b reason us v) (\<lambda>_ s'. unit_name ` set us \<subseteq> needs_resume (sys_arb s')) s"
proof (induction us arbitrary: v s)
  case (Cons u us)
  have keep: "wp (evict_each E cfg b reason us w) (\<lambda>_ s2. unit_name u \<in> needs_resume (sys_arb s2)) s1"
    if "unit_name u \<in> needs_resume (sys_arb s1)" for w s1
    using keeps_wp [OF owing.evict_each [of "{unit_name u}"], of s1 E cfg b reason us w] that
    by (simp add: on_arb_def [abs_def])
  show ?case
    unfolding evict_each.simps wp_bind
  proof (rule wp_mono [OF owing_evict_one], clarsimp simp: wp_simps, goal_cases)
    case (1 r w s1)
    show ?case
      by (rule wp_mono [OF wp_conj [OF keep [OF 1] Cons.IH]]) (simp add: wp_simps)
  qed
qed (simp add: wp_simps)

text \<open>Every unit of the batch whose eviction did not fail was seen stopped.\<close>

definition seen_stopped :: "event list \<Rightarrow> managed_unit \<Rightarrow> bool" where
  "seen_stopped es u \<longleftrightarrow> list_ex (\<lambda>e. answers (unit_name u) e = Some False) es"

lemma seen_stopped_append [simp]: "seen_stopped (fs @ es) u \<longleftrightarrow> seen_stopped fs u \<or> seen_stopped es u"
  by (simp add: seen_stopped_def)

lemma evict_trace_seen_stopped:
  assumes "evict_trace u (Inr out) es"
  shows "seen_stopped es u"
  using evict_trace_Inr [OF assms] by (cases es) (auto simp: seen_stopped_def)

lemma traces_evict_one:
  "traces (evict_one E cfg b u reason v) (\<lambda>x es. ok_of (fst x) \<noteq> None \<longrightarrow> seen_stopped es u)"
proof -
  let ?P = "\<lambda>x es. ok_of (fst x) \<noteq> None \<longrightarrow> seen_stopped es u"
  have quiet: "traces (on_host m) (\<lambda>_ es. True)" if "quiet m" for m :: "('w host, 'x) state"
    by (rule traces_on_host) (rule emits_quiet [OF that], simp)
  have fin: "traces (on_host (wall_clock E) \<bind> (\<lambda>wall. upd_arb (g wall)
      \<bind> (\<lambda>_. State_Monad.return (r, w)))) (\<lambda>x fs. ?P x (fs @ es))"
    if "ok_of r \<noteq> None \<longrightarrow> seen_stopped es u" for g r w es
    using that
    by (intro traces_bind [OF quiet [OF quiet_wall_clock]]
        traces_bind [OF traces_upd_arb [where P = "\<lambda>_ es. True"]] traces_return) auto
  show ?thesis
    unfolding evict_one_def
  proof (rule traces_bind [OF traces_on_host [OF emits_evict_timed]], goal_cases)
    case (1 x es)
    obtain r tm where x: "x = (r, tm)" by fastforce
    from 1 have r: "ok_of r \<noteq> None \<longrightarrow> seen_stopped es u"
      using evict_trace_seen_stopped by (cases r) (auto simp: x)
    have "traces (if r = Inr AlreadyClear then State_Monad.return v else on_host (vram_used_mb E b))
        (\<lambda>_ es. True)"
      by (auto intro!: traces_return quiet host_intros simp: vram_used_mb_def)
    then show ?case
      unfolding x prod.case
    proof (rule traces_bind, goal_cases)
      case (1 w fs)
      show ?case unfolding append_assoc by (rule fin) (use r in simp)
    qed
  qed
qed

lemma traces_evict_each:
  "traces (evict_each E cfg b reason us v)
     (\<lambda>rs es. length rs = length us \<and> (\<not> list_ex (\<lambda>r. r = None) rs \<longrightarrow> list_all (seen_stopped es) us))"
proof (induction us arbitrary: v)
  case (Cons u us)
  show ?case
    unfolding evict_each.simps
  proof (rule traces_bind [OF traces_evict_one], goal_cases)
    case (1 x es)
    obtain r w where x: "x = (r, w)" by fastforce
    show ?case
      unfolding x prod.case
    proof (rule traces_bind [OF Cons.IH], rule traces_return, goal_cases)
      case (1 rs fs)
      then show ?case
        using \<open>ok_of (fst x) \<noteq> None \<longrightarrow> seen_stopped es u\<close>
        by (auto simp: x list_all_iff)
    qed
  qed
qed (simp add: traces_return)

lemma degraded_set_now:
  "keeps (on_arb (\<lambda>a. degraded a = d)) (set_state_now E x)"
  by (auto simp: set_state_now_def intro!: keeps_intros keeps_upd_arb)

text \<open>
  The eviction arm ends in \<open>Gaming\<close> whatever the evictions did, every unit it evicted is owed a resume,
  and unless it reports itself degraded, every one of them was seen stopped.
\<close>

lemma evict_arm_frees:
  assumes "run_state (evict_arm E cfg b us) s = ((), s')"
  shows "cur_state (sys_arb s') = Gaming \<and> unit_name ` set us \<subseteq> needs_resume (sys_arb s') \<and>
    (\<exists>es. sys_log s' = es @ sys_log s \<and>
       list_all (\<lambda>u. degraded (sys_arb s') \<or> seen_stopped es u) us)"
proof -
  obtain s1 where 1: "run_state (set_state_now E Evicting) s = ((), s1)"
    by (metis old.unit.exhaust prod.collapse)
  obtain rs s2 where 2: "run_state (evict_units E cfg b us ''game'') s1 = (rs, s2)" by fastforce
  define s3 where "s3 = s2\<lparr> sys_arb := (note_invariant_backoff us rs (hclock (sys_host s2)) (sys_arb s2))
      \<lparr> degraded := list_ex (\<lambda>r. r = None) rs \<rparr> \<rparr>"
  have 3: "run_state (set_state_now E Gaming) s3 = ((), s')"
    using assms 1 2 by (simp add: evict_arm_def on_host_def now_def upd_arb_def s3_def)
  have "cur_state (sys_arb s') = Gaming"
    using moves_set_state_now [of Gaming E] 3
    by (auto simp: moves_to_def core_of_def with_state_def dest!: spec [of _ s3])
  moreover have "degraded (sys_arb s') = list_ex (\<lambda>r. r = None) rs"
    using keeps_run [OF degraded_set_now _ 3, of "list_ex (\<lambda>r. r = None) rs"]
    by (simp add: on_arb_def s3_def)
  moreover have "unit_name ` set us \<subseteq> needs_resume (sys_arb s')"
  proof -
    have "wp (evict_units E cfg b us ''game'') (\<lambda>_ s. unit_name ` set us \<subseteq> needs_resume (sys_arb s)) s1"
      unfolding evict_units_def wp_simps
      by (rule wp_mono [OF wp_True]) (rule owing_evict_each)
    from wp_run [OF this 2] have "on_arb (\<lambda>a. unit_name ` set us \<subseteq> needs_resume a) s3"
      using owing.note_fold [of "unit_name ` set us" "sys_arb s2" "hclock (sys_host s2)" "zip us rs"]
      by (simp add: s3_def on_arb_def note_invariant_backoff_def)
    from keeps_run [OF owing.set_now this 3] show ?thesis by (simp add: on_arb_def)
  qed
  moreover have "\<exists>es. sys_log s' = es @ sys_log s \<and>
      (\<not> list_ex (\<lambda>r. r = None) rs \<longrightarrow> list_all (seen_stopped es) us)"
  proof -
    have q: "traces (on_host m) (\<lambda>_ es. es = [])" if "quiet m" for m :: "('a host, 'x) state"
      by (rule traces_on_host) (rule emits_quiet [OF that], simp)
    have st: "traces (set_state_now E x) (\<lambda>_ es. es = [])" for x
      unfolding set_state_now_def
      by (intro traces_bind [OF q [OF quiet_wall_clock]] traces_upd_arb) simp
    have ev: "traces (evict_units E cfg b us ''game'')
        (\<lambda>rs es. \<not> list_ex (\<lambda>r. r = None) rs \<longrightarrow> list_all (seen_stopped es) us)"
      unfolding evict_units_def
      by (rule traces_bind [OF q]) (auto simp: vram_used_mb_def intro!: host_intros traces_mono [OF traces_evict_each])
    have "sys_log s1 = sys_log s" "sys_log s' = sys_log s3"
      using tracesE [OF st 1] tracesE [OF st 3] by auto
    moreover have "sys_log s3 = sys_log s2" by (simp add: s3_def sys_log_def)
    ultimately show ?thesis using tracesE [OF ev 2] by metis
  qed
  ultimately show ?thesis by (auto simp: list_all_iff)
qed

section \<open>Manual triggers\<close>

text \<open>
  A manual start while a game holds the GPU does nothing but reply that it does: no probe, no
  scan, no start, and the hold stays.
\<close>

theorem manual_start_refused_during_game:
  assumes "cur_state (sys_arb s) \<noteq> Available"
  shows "run_state (handle_manual_start E cfg unit reply) s
    = ((), s\<lparr> sys_replies := (reply, Inl GpuHeldByGame) # sys_replies s \<rparr>)"
proof -
  have "cur_state (sys_arb s) = Gaming \<or> cur_state (sys_arb s) = Evicting"
    using assms by (cases "cur_state (sys_arb s)") auto
  then show ?thesis
    by (simp add: handle_manual_start_def manual_start_check_def get_arb_def send_reply_def)
qed

theorem manual_start_refused_during_game_witness:
  "run_state (handle_manual_start (sample_os Linux) sample_cfg ''ollama.service'' 7)
     (sample_sys (game_world [] []) Gaming)
   = ((), (sample_sys (game_world [] []) Gaming)\<lparr> sys_replies := [(7, Inl GpuHeldByGame)] \<rparr>)"
proof -
  have "cur_state (sys_arb (sample_sys (game_world [] []) Gaming)) \<noteq> Available"
    by (simp add: sample_sys_def)
  from manual_start_refused_during_game [OF this] show ?thesis
    by (simp add: sample_sys_def)
qed

interpretation evictions_owe: eviction_bookkeeping
  "\<lambda>a. n \<in> held a \<and> N \<subseteq> needs_resume a \<and> core_of a = c"
proof (unfold_locales, goal_cases)
  case (1 a u reason r tm wall)
  then show ?case
    using owing.evicted [of N a u reason r tm wall] core_record_evicted [of u reason r tm wall a]
    by (auto simp: core_of_def)
next
  case (2 a t x)
  then show ?case
    using owing.noted [of N a t x] core_note_one [of t x a] by (auto simp: core_of_def)
next
  case (6 a sts pv mem)
  then show ?case
    using owing.refresh [of N a sts pv mem] core_refreshed [of sts pv mem a] by (auto simp: core_of_def)
qed (simp_all add: warn_one_def core_of_def)

text \<open>
  A manual stop always leaves the unit held and owed a resume, whether or not the eviction
  worked and even if the unit is unknown, changes neither the state nor the claims, and sends
  exactly one reply.
\<close>

lemma manual_stop_holds:
  assumes "run_state (handle_manual_stop E cfg b unit reply) s = ((), s')"
  shows "unit \<in> held (sys_arb s') \<and> unit \<in> needs_resume (sys_arb s')
    \<and> cur_state (sys_arb s') = cur_state (sys_arb s) \<and> claims (sys_arb s') = claims (sys_arb s)
    \<and> (\<exists>x. sys_replies s' = (reply, x) # sys_replies s)"
proof -
  let ?a = "hold_unit unit (sys_arb s)"
  let ?I = "on_arb (\<lambda>a. unit \<in> held a \<and> {unit} \<subseteq> needs_resume a \<and> core_of a = core_of ?a)"
  have I0: "?I (s\<lparr> sys_arb := ?a \<rparr>)" by (simp add: on_arb_def hold_unit_def)
  have K: "keeps ?I (case resolve_unit cfg unit of
         Inr u \<Rightarrow> on_host (vram_used_mb E b) \<bind> (\<lambda>v. evict_one E cfg b u ''manual stop'' v
           \<bind> (\<lambda>(r, _). State_Monad.return r))
       | Inl e \<Rightarrow> State_Monad.return (Inl e))"
    by (intro keeps_intros evictions_owe.evict_one)
  have "wp (handle_manual_stop E cfg b unit reply) (\<lambda>_ s'. ?I s') s"
    unfolding handle_manual_stop_def wp_bind wp_upd_arb
    by (rule wp_mono [OF keeps_wp [OF K I0]]) (simp add: wp_send_reply on_arb_def)
  from wp_run [OF this assms] have "?I s'" .
  then show ?thesis
    using wp_run [OF wp_handle_manual_stop assms]
    by (auto simp: on_arb_def replied_def hold_unit_def core_of_def hold_def)
qed

section \<open>Counters\<close>

interpretation pass_counts: controller_invariant "\<lambda>a. reconcile_passes (arb_metrics a) = c"
proof (unfold_locales, goal_cases)
  case (1 a u reason r tm wall)
  then show ?case
    by (auto simp: record_evicted_def Let_def record_eviction_def record_eviction_duration_def
        split: option.split)
next
  case (2 a t x)
  then show ?case by (cases x) (simp add: note_one_def Let_def)
next
  case (6 a sts pv mem)
  then show ?case by (simp add: refreshed_def Let_def split: option.split)
qed (simp_all add: warn_one_def hold_unit_def manual_started_def clear_gaming_def Let_def
    record_unit_restart_def)

lemma pass_counts_own_trigger:
  "pass_count (reconcile_passes (arb_metrics (sys_arb (snd (run_state (reconcile_with E cfg b pv trig) s))))) k
     = pass_count (reconcile_passes (arb_metrics (sys_arb s))) k + (if k = pass_trigger_of trig then 1 else 0)"
proof -
  obtain r s' where run: "run_state (reconcile_with E cfg b pv trig) s = (r, s')" by fastforce
  let ?c = "reconcile_passes (record_reconcile_pass (pass_trigger_of trig) (arb_metrics (sys_arb s)))"
  let ?I = "on_arb (\<lambda>a. reconcile_passes (arb_metrics a) = ?c)"
  obtain s1 sc s2 where 1: "run_state (handle_trigger E cfg b trig) (counted trig s) = ((), s1)"
    and 2: "run_state (on_host (scan_claims E cfg)) s1 = (sc, s2)"
    and rest: "run_state (case sc of Inl e \<Rightarrow> State_Monad.return (Inl e)
       | Inr cs \<Rightarrow> after_scan E cfg b pv cs) s2 = (r, s')"
    using reconcile_run [OF run] .
  have "?I (counted trig s)" by (simp add: on_arb_def counted_def)
  from keeps_run [OF pass_counts.trigger this 1] have "?I s1" .
  from keeps_run [OF keeps_on_host this 2] have "?I s2" .
  then have "?I s'"
    using keeps_run [OF _ _ rest, of ?I] by (auto intro!: keeps_intros pass_counts.decided_pass)
  then show ?thesis
    using passes.get_bump [of "pass_trigger_of trig" "arb_metrics (sys_arb s)" k] run
    by (simp add: on_arb_def)
qed

text \<open>Every pass, failed or not, adds one to the counter of its own trigger and to no other.\<close>

theorem pass_counted_once:
  "pass_count (reconcile_passes (arb_metrics (sys_arb (snd (run_state (reconcile_with E cfg b pv trig) s))))) k
     = pass_count (reconcile_passes (arb_metrics (sys_arb s))) k + (if k = pass_trigger_of trig then 1 else 0)"
  by (rule pass_counts_own_trigger)

text \<open>
  One eviction adds one to the counter of its unit and outcome, nothing when the unit was
  already clear, and to no other counter.
\<close>

theorem eviction_counted_once:
  assumes "run_state (evict_one E cfg b u reason v) s = ((r, w), s')"
  shows "eviction_count (arb_metrics (sys_arb s')) (n, out)
    = eviction_count (arb_metrics (sys_arb s)) (n, out)
      + (if n = unit_name u \<and> eviction_metric_outcome r = Some out then 1 else 0)"
proof -
  have dur: "eviction_count (record_eviction_duration u' st x m) k = eviction_count m k" for u' st x m k
    by (simp add: eviction_count_def record_eviction_duration_def)
  have upd: "eviction_count (arb_metrics (record_evicted u reason r tm wall a)) (n, out)
      = eviction_count (arb_metrics a) (n, out)
        + (if n = unit_name u \<and> eviction_metric_outcome r = Some out then 1 else 0)" for r tm wall a
  proof (cases "eviction_metric_outcome r")
    case None
    then show ?thesis by (simp add: record_evicted_def Let_def dur split: option.split)
  next
    case (Some o')
    then show ?thesis
      using evicted.get_bump [of "(unit_name u, o')" "arb_metrics a" "(n, out)"]
      by (auto simp: record_evicted_def Let_def dur split: option.split)
  qed
  let ?Q = "\<lambda>x s'. eviction_count (arb_metrics (sys_arb s')) (n, out)
    = eviction_count (arb_metrics (sys_arb s)) (n, out)
      + (if n = unit_name u \<and> eviction_metric_outcome (fst x) = Some out then 1 else 0)"
  have fin: "wp (on_host (wall_clock E)) (\<lambda>wall. wp (upd_arb (record_evicted u reason r tm wall))
      (\<lambda>_. ?Q (r, w))) s1" if "sys_arb s1 = sys_arb s" for r tm and w :: "u64 option" and s1
    using that by (simp add: wp_simps upd)
  have "wp (evict_one E cfg b u reason v) ?Q s"
    unfolding evict_one_def wp_bind wp_on_host [of "evict_timed E cfg b u"]
  proof (rule wp_mono [OF wp_True], goal_cases)
    case (1 x h1)
    obtain r tm where x: "x = (r, tm)" by fastforce
    show ?case
      unfolding x prod.case wp_bind wp_return
      apply (cases "r = Inr AlreadyClear")
       apply (simp only: refl if_True wp_return)
       apply (rule fin, simp)
      apply (simp only: if_False wp_on_host [of "vram_used_mb E b"])
      apply (rule wp_mono [OF wp_True], rule fin, simp)
      done
  qed
  from wp_run [OF this assms] show ?thesis by simp
qed

lemma evict_one_result:
  "fst (fst (run_state (evict_one E cfg b u reason v) s)) = fst (fst (run_state (evict_timed E cfg b u) (sys_host s)))"
  by (simp add: evict_one_def on_host_def run_state_bind split: prod.splits)

theorem eviction_counted_once_witness:
  "eviction_count (arb_metrics (sys_arb (snd (run_state (evict_one (sample_os Linux) sample_cfg Nvidia
       (hd default_managed_units) ''game'' None) (sample_sys (game_world [''ollama.service''] []) Available)))))
     (''ollama.service'', Graceful) = 1"
proof -
  let ?s = "sample_sys (game_world [''ollama.service''] []) Available"
  let ?x = "run_state (evict_one (sample_os Linux) sample_cfg Nvidia (hd default_managed_units) ''game'' None) ?s"
  have "fst (fst (run_state (evict_timed (sample_os Linux) sample_cfg Nvidia (hd default_managed_units)) (sys_host ?s))) = Inr Freed"
    by code_simp
  then have "eviction_metric_outcome (fst (fst ?x)) = Some Graceful"
    by (simp add: evict_one_result)
  moreover have "?x = ((fst (fst ?x), snd (fst ?x)), snd ?x)"
    by simp
  note eviction_counted_once [OF this, of "''ollama.service''" Graceful]
  moreover have "eviction_count (arb_metrics (sys_arb ?s)) (''ollama.service'', Graceful) = 0"
    by code_simp
  moreover have "unit_name (hd default_managed_units) = ''ollama.service''"
    by code_simp
  ultimately show ?thesis by simp
qed

section \<open>Owed resumes\<close>

fun resumed_ok :: "string \<Rightarrow> event \<Rightarrow> bool" where
  "resumed_ok n (Ev_Control a v _ (Exited code _ _)) = (a = ''resume'' \<and> v = n \<and> code = Some 0)"
| "resumed_ok n _ = False"

text \<open>The unit has no resume hook, or its hook ran and exited 0.\<close>

definition excused :: "event list \<Rightarrow> managed_unit \<Rightarrow> bool" where
  "excused es u \<longleftrightarrow> resume_cmd u = None \<or> list_ex (resumed_ok (unit_name u)) es"

lemma excused_append: "excused es u \<Longrightarrow> excused (fs @ es) u" "excused fs u \<Longrightarrow> excused (fs @ es) u"
  by (auto simp: excused_def)

text \<open>\<open>discharges A m\<close>: \<open>m\<close> drops an owed resume only of a unit of \<open>A\<close>, and only with an excuse.\<close>

definition settled_debts :: "managed_unit set \<Rightarrow> 'w sys \<Rightarrow> event list \<Rightarrow> 'w sys \<Rightarrow> bool" where
  "settled_debts A s es s' \<longleftrightarrow> (\<forall>n\<in>needs_resume (sys_arb s) - needs_resume (sys_arb s').
     \<exists>u\<in>A. unit_name u = n \<and> excused es u)"

definition discharges :: "managed_unit set \<Rightarrow> ('w sys, 'a) state \<Rightarrow> bool" where
  "discharges A m \<longleftrightarrow> (\<forall>s a s'. run_state m s = (a, s') \<longrightarrow>
     (\<exists>es. sys_log s' = es @ sys_log s \<and> settled_debts A s es s'))"

named_theorems discharge_intros

lemma dischargesE:
  assumes "discharges A m" and "run_state m s = (a, s')"
  obtains es where "sys_log s' = es @ sys_log s" and "settled_debts A s es s'"
  using assms unfolding discharges_def by blast

lemma discharges_bind [discharge_intros]:
  assumes "discharges A m" and "\<And>a. discharges A (f a)"
  shows "discharges A (m \<bind> f)"
  unfolding discharges_def
proof (intro allI impI)
  fix s b s2
  assume r: "run_state (m \<bind> f) s = (b, s2)"
  obtain a s1 where 1: "run_state m s = (a, s1)" by fastforce
  obtain es where es: "sys_log s1 = es @ sys_log s" "settled_debts A s es s1"
    using assms(1) 1 by (rule dischargesE)
  have "run_state (f a) s1 = (b, s2)" using r 1 by simp
  with assms(2) obtain fs where fs: "sys_log s2 = fs @ sys_log s1" "settled_debts A s1 fs s2"
    by (rule dischargesE)
  have "settled_debts A s (fs @ es) s2"
    unfolding settled_debts_def
  proof
    fix n assume n: "n \<in> needs_resume (sys_arb s) - needs_resume (sys_arb s2)"
    show "\<exists>u\<in>A. unit_name u = n \<and> excused (fs @ es) u"
    proof (cases "n \<in> needs_resume (sys_arb s1)")
      case True
      with n fs(2) show ?thesis by (auto simp: settled_debts_def intro: excused_append)
    next
      case False
      with n es(2) show ?thesis by (auto simp: settled_debts_def intro: excused_append)
    qed
  qed
  with es fs show "\<exists>es. sys_log s2 = es @ sys_log s \<and> settled_debts A s es s2"
    by (intro exI [of _ "fs @ es"]) simp
qed

text \<open>A block that drops none.\<close>

lemma discharges_keeps:
  assumes "\<And>N. keeps (on_arb (\<lambda>a. N \<subseteq> needs_resume a)) m" and "traces m (\<lambda>_ _. True)"
  shows "discharges A m"
  unfolding discharges_def
proof (intro allI impI)
  fix s a s'
  assume r: "run_state m s = (a, s')"
  have "needs_resume (sys_arb s) \<subseteq> needs_resume (sys_arb s')"
    using keeps_run [OF assms(1) _ r, of "needs_resume (sys_arb s)"] by (simp add: on_arb_def)
  moreover obtain es where "sys_log s' = es @ sys_log s" using assms(2) r by (rule tracesE)
  ultimately show "\<exists>es. sys_log s' = es @ sys_log s \<and> settled_debts A s es s'"
    by (auto simp: settled_debts_def)
qed

lemma traces_any: "all_events R m \<Longrightarrow> traces m (\<lambda>_ _. True)"
  unfolding all_events_def by (erule traces_mono) simp

lemma discharges_on_host [discharge_intros]: "grows (\<lambda>_. True) m \<Longrightarrow> discharges A (on_host m)"
  by (rule discharges_keeps [OF keeps_on_host])
    (rule traces_any, rule all_events_on_host)

lemma discharges_return [discharge_intros]: "discharges A (State_Monad.return a)"
  by (rule discharges_keeps [OF keeps_return traces_return]) simp

lemma discharges_get_arb [discharge_intros]: "discharges A get_arb"
  by (rule discharges_keeps [OF keeps_get_arb traces_get_arb]) simp

lemma discharges_upd [discharge_intros]:
  "(\<And>a. needs_resume a \<subseteq> needs_resume (f a)) \<Longrightarrow> discharges A (upd_arb f)"
  by (rule discharges_keeps [OF keeps_upd_arb traces_upd_arb]) auto

lemma discharges_if [discharge_intros]:
  "discharges A m \<Longrightarrow> discharges A m' \<Longrightarrow> discharges A (if c then m else m')"
  by simp

lemma discharges_case_sum [discharge_intros]:
  "(\<And>e. discharges A (f e)) \<Longrightarrow> (\<And>a. discharges A (g a)) \<Longrightarrow>
   discharges A (case r of Inl e \<Rightarrow> f e | Inr a \<Rightarrow> g a)"
  by (cases r) auto

lemma discharges_case_prod [discharge_intros]:
  "(\<And>a b. discharges A (f a b)) \<Longrightarrow> discharges A (case r of (a, b) \<Rightarrow> f a b)"
  by (cases r) auto

lemma emits_resume_ok: "emits (resume E u) (\<lambda>ok es. ok \<longrightarrow> excused es u)"
proof (cases "resume_cmd u")
  case None
  then show ?thesis by (simp add: resume_def emits_return excused_def)
next
  case (Some cmd)
  have fail: "emits (record_hook_failure v hk f \<bind> (\<lambda>_. State_Monad.return False))
      (\<lambda>ok fs. ok \<longrightarrow> excused (fs @ es) u)" for v hk f es
    by (intro emits_bind_quiet quiet_record_hook_failure emits_return) simp
  show ?thesis
    unfolding resume_def Some option.case
  proof (rule emits_bind [OF emits_stop_argv], goal_cases)
    case (1 r es)
    show ?case
    proof (cases r)
      case (Inl e)
      then show ?thesis using fail by simp
    next
      case (Inr x)
      obtain code sout serr where x: "x = (code, sout, serr)" by (cases x)
      have "excused es u" if "code = Some 0"
        using 1 Inr x that by (auto simp: excused_def)
      then show ?thesis using fail Inr x by (auto intro: emits_return)
    qed
  qed
qed

lemma discharges_resume:
  assumes "u \<in> A"
  shows "discharges A (on_host (resume E u) \<bind> (\<lambda>ok.
     if ok then upd_arb (\<lambda>a. a\<lparr> needs_resume := needs_resume a - {unit_name u} \<rparr>)
     else State_Monad.return ()))"
  unfolding discharges_def
proof (intro allI impI)
  fix s and a :: unit and s'
  assume r: "run_state (on_host (resume E u) \<bind> (\<lambda>ok.
     if ok then upd_arb (\<lambda>a. a\<lparr> needs_resume := needs_resume a - {unit_name u} \<rparr>)
     else State_Monad.return ())) s = (a, s')"
  obtain ok s1 where 1: "run_state (on_host (resume E u)) s = (ok, s1)" by fastforce
  obtain es where es: "sys_log s1 = es @ sys_log s" "ok \<longrightarrow> excused es u"
    using tracesE [OF traces_on_host [OF emits_resume_ok] 1] by auto
  have "sys_arb s1 = sys_arb s" using 1 by (auto simp: on_host_def split: prod.splits)
  then have "sys_log s' = es @ sys_log s \<and> settled_debts A s es s'"
    using r 1 es assms by (cases ok) (auto simp: upd_arb_def sys_log_def settled_debts_def)
  then show "\<exists>es. sys_log s' = es @ sys_log s \<and> settled_debts A s es s'" by blast
qed

lemma grows_any [simp]: "grows (acts B v) m \<Longrightarrow> grows (\<lambda>_. True) m"
  by (erule grows_mono) simp

lemma discharges_claim_appeared [discharge_intros]: "discharges A (claim_appeared E cfg)"
  by (rule discharges_keeps [OF keeps_claim_appeared traces_mono [OF traces_claim_appeared]]) simp

lemma grows_probe_any: "grows (\<lambda>_. True) (is_running E u)"
  by (rule grows_any [OF grows_is_running [of "[''is-active'']"]]) simp_all

lemma discharges_resume_loop: "set us \<subseteq> A \<Longrightarrow> discharges A (resume_loop E cfg st us)"
proof (induction us)
  case (Cons u us)
  let ?rm = "\<lambda>ok. if ok then upd_arb (\<lambda>a. a\<lparr> needs_resume := needs_resume a - {unit_name u} \<rparr>)
    else State_Monad.return ()"
  have "discharges A ((on_host (resume E u) \<bind> ?rm) \<bind> (\<lambda>_. resume_loop E cfg st us))"
    using Cons by (intro discharges_bind discharges_resume) simp_all
  then have step: "discharges A (on_host (resume E u) \<bind> (\<lambda>ok. ?rm ok \<bind> (\<lambda>_. resume_loop E cfg st us)))"
    by (simp only: State_Monad.bind_assoc)
  show ?case
    unfolding resume_loop.simps
    using Cons by (intro discharge_intros step grows_probe_any) simp_all
qed (simp add: discharges_return)

lemma grows_scan_any: "grows (\<lambda>_. True) (scan_claims E cfg)"
  unfolding emits_grows [symmetric] by (rule emits_mono [OF emits_scan_claims]) (simp add: list_all_iff)

lemma grows_probe_busy_any: "grows (\<lambda>_. True) (probe_busy E cfg hs)"
  unfolding emits_grows [symmetric] by (rule emits_mono [OF emits_probe_busy]) (simp add: list_all_iff)

lemma discharges_start_candidates [discharge_intros]: "discharges A (start_candidates E us)"
proof (rule discharges_keeps [OF keeps_start_candidates])
  have "traces (start_candidates E us) (\<lambda>ys es. set ys \<subseteq> set us \<and> list_all (plain [''is-active'']) es)"
    unfolding start_candidates_def
    by (rule filter_m_traces) (auto intro!: traces_bind [OF traces_probe] traces_return)
  then show "traces (start_candidates E us) (\<lambda>_ _. True)" by (rule traces_mono) simp
qed

lemma discharges_ensure_running:
  "discharges (set (resolved_units cfg)) (ensure_running E cfg desired pre)"
proof -
  have targets: "set (filter P (resume_targets desired cfg hs pre)) \<subseteq> set (resolved_units cfg)" for P hs
    by (auto simp: set_resume_targets split: if_splits)
  have starts: "discharges A (start_loop E cfg us)" for A us
    by (rule discharges_keeps [OF owing.starts traces_mono [OF traces_start_loop [OF subset_refl]]]) simp
  show ?thesis
    unfolding ensure_running_def Let_def
    by (intro discharge_intros starts discharges_resume_loop targets)
qed

lemma discharges_pass:
  "discharges (set (resolved_units cfg)) (reconcile_with E cfg b pv trig)"
proof -
  have trigger: "discharges A (handle_trigger E cfg b trig)" for A
    by (rule discharges_keeps [OF owing.trigger traces_mono [OF traces_handle_trigger]]) simp
  have moves: "discharges A (transition E cfg b c d us rn)" for A c d us rn
    by (rule discharges_keeps [OF owing.moves traces_any [OF plain_transition]])
  have refresh: "discharges A (refresh_substate E cfg pv b)" for A
    by (rule discharges_keeps [OF owing.refreshes traces_any [OF refresh_trace]])
  have counts: "needs_resume a \<subseteq> needs_resume (a\<lparr> arb_metrics := m \<rparr>)"
    "needs_resume a \<subseteq> needs_resume (a\<lparr> game_exit_pending_since := p, claims := cs \<rparr>)" for a m p cs
    by simp_all
  show ?thesis
    unfolding reconcile_with_def after_scan_def after_decision_def decide_def Let_def
    by (intro discharge_intros trigger moves refresh discharges_ensure_running counts
        grows_scan_any grows_probe_busy_any grows_now)
qed

text \<open>
  C8: No resume is lost. A pass forgets that a unit is owed a resume only if the unit is managed
  and its resume hook ran in this pass and exited 0 (or it has none): a failed hook, a claim that
  stopped the loop, a hold or a preempting tenant all leave it owed.
\<close>

theorem resume_stays_owed_until_run:
  assumes "run_state (reconcile_with E cfg b pv trig) s = (r, s')"
    and "n \<in> needs_resume (sys_arb s)" and "n \<notin> needs_resume (sys_arb s')"
  shows "\<exists>es u. sys_log s' = es @ sys_log s \<and> u \<in> set (managed_units cfg) \<and> unit_name u = n \<and> excused es u"
proof -
  obtain es where "sys_log s' = es @ sys_log s" "settled_debts (set (resolved_units cfg)) s es s'"
    using discharges_pass assms(1) by (rule dischargesE)
  with assms(2,3) show ?thesis
    by (auto simp: settled_debts_def resolved_units_def)
qed

theorem resume_stays_owed_until_run_witness:
  "list_ex (resumed_ok ''ollama.service'')
     (sys_log (snd (sample_pass (tenant_cfg [sample_tenants ! 1]) Startup owing_sys)))"
proof -
  have "''ollama.service'' \<in> needs_resume (sys_arb owing_sys)"
    by (simp add: owing_sys_def)
  moreover have "''ollama.service'' \<notin> needs_resume
      (sys_arb (snd (sample_pass (tenant_cfg [sample_tenants ! 1]) Startup owing_sys)))"
    by code_simp
  ultimately show ?thesis
    using resume_stays_owed_until_run [OF sample_pass_run, of "''ollama.service''" owing_sys
        "tenant_cfg [sample_tenants ! 1]" Startup]
    by (auto simp: tenant_cfg_def sample_tenants_def excused_def)
qed

section \<open>Busy tenants\<close>

text \<open>The commands a busy probe may issue: for units with a hook that the operator does not hold.\<close>

definition asks :: "managed_unit set \<Rightarrow> string set \<Rightarrow> event \<Rightarrow> bool" where
  "asks us hs e \<longleftrightarrow> (\<exists>u\<in>us. busy_cmd u \<noteq> None \<and> unit_name u \<notin> hs
     \<and> acts [''is-active'', ''busy''] (unit_name u) e)"

definition said_busy :: "event list \<Rightarrow> managed_unit \<Rightarrow> bool" where
  "said_busy es u \<longleftrightarrow> list_ex (\<lambda>e. says_busy e \<and> ev_unit e = unit_name u) es"

lemma emits_probe_each_asks:
  "emits (probe_each E hs us) (\<lambda>(busy, _) es. list_all (asks (set us) hs) es \<and> list_all (said_busy es) busy)"
proof (induction us)
  case Nil
  then show ?case by (simp add: emits_return)
next
  case (Cons u us)
  have mono: "list_all (asks (set us) hs) es \<Longrightarrow> list_all (asks (insert u (set us)) hs) es" for es
    by (auto simp: list_all_iff asks_def)
  show ?case
  proof (cases "busy_cmd u = None \<or> unit_name u \<in> hs")
    case True
    show ?thesis
      unfolding probe_each.simps if_P [OF True]
      by (rule emits_mono [OF Cons.IH]) (clarsimp simp: mono)
  next
    case False
    have one: "list_all (asks (insert u (set us)) hs) es" if "list_all (acts A (unit_name u)) es"
        "set A \<subseteq> {''is-active'', ''busy''}" for A es
    proof -
      have "acts [''is-active'', ''busy''] (unit_name u) e" if "e \<in> set es" for e
        using acts_mono [of A "unit_name u" e] that \<open>list_all (acts A (unit_name u)) es\<close>
          \<open>set A \<subseteq> _\<close> by (simp add: list_all_iff)
      with False show ?thesis by (simp add: list_all_iff asks_def)
    qed
    have act: "emits (is_running E u) (\<lambda>_ es. list_all (acts [''is-active''] (unit_name u)) es)"
      by (simp add: emits_grows grows_is_running)
    have busy: "emits (if c then State_Monad.return False else is_busy E u)
        (\<lambda>b es. list_all (acts [''busy''] (unit_name u)) es \<and> (b \<longrightarrow> list_ex says_busy es))" for c
      using emits_mono [OF emits_is_busy [of E u]] by (cases c) (simp_all add: emits_return)
    show ?thesis
      unfolding probe_each.simps if_not_P [OF False]
    proof (intro emits_bind [OF act] emits_bind [OF busy] emits_bind [OF Cons.IH], goal_cases)
      case (1 r es c fs x gs)
      obtain bs rn where x: "x = (bs, rn)" by fastforce
      have "list_all (asks (insert u (set us)) hs) (gs @ fs @ es)"
        using one [of "[''is-active'']" es] one [of "[''busy'']" fs] mono [of gs] 1 x by simp
      moreover have "said_busy (gs @ fs @ es) u" if c
      proof -
        obtain e where e: "e \<in> set fs" "says_busy e" using 1(2) \<open>c\<close> by (auto simp: list_ex_iff)
        then have "ev_unit e = unit_name u"
          using 1(2) by (auto simp: list_all_iff elim!: acts.elims dest!: bspec)
        with e show ?thesis by (auto simp: said_busy_def list_ex_iff)
      qed
      moreover have "list_all (said_busy (gs @ fs @ es)) bs"
        using 1(3) x by (auto simp: list_all_iff said_busy_def)
      ultimately show ?case unfolding x by (auto intro!: emits_return)
    qed
  qed
qed

text \<open>
  Demand is never invented: a tenant counts as busy only if its own hook ran and exited 0
  during this probe. A unit that is held or has no hook is not asked at all.
\<close>

theorem busy_only_if_hook_said_so:
  assumes "run_state (probe_busy E cfg hs) h = ((busy, rn), h')"
  shows "\<exists>es. hlog h' = es @ hlog h \<and> list_all (asks (set (managed_units cfg)) hs) es
    \<and> list_all (said_busy es) busy"
  using emitsE [OF emits_probe_each_asks assms [unfolded probe_busy_def]] by (auto simp: resolved_units_def)

theorem busy_only_if_hook_said_so_witness:
  "list_ex (\<lambda>e. says_busy e \<and> ev_unit e = ''train.service'')
     (hlog (snd (run_state (probe_busy (sample_os Linux) (tenant_cfg sample_tenants) {})
       (sample_host (idle_world [''train.service''] [])))))"
proof -
  let ?x = "run_state (probe_busy (sample_os Linux) (tenant_cfg sample_tenants) {})
     (sample_host (idle_world [''train.service''] []))"
  have "map unit_name (fst (fst ?x)) = [''train.service'']"
    by code_simp
  moreover have "?x = ((fst (fst ?x), snd (fst ?x)), snd ?x)"
    by simp
  note busy_only_if_hook_said_so [OF this]
  ultimately show ?thesis
    by (auto simp: list_all_iff said_busy_def map_eq_Cons_conv sample_host_def)
qed

end
