(* ===== verification/Daemon_Laws.thy ===== *)
theory Daemon_Laws
  imports Daemon Pass_Properties
begin

text \<open>
  Laws of whole runs of the daemon: the abstract controller that every run simulates, the counters
  of \<open>/metrics\<close> against the history of the run, and the holds of the operator.
\<close>

section \<open>The abstract controller\<close>

text \<open>
  The controller the daemon implements: from the available state with no claim and no hold, each
  step is one pass, under any trigger, any reply and any scan, with the instant it was taken.
\<close>

inductive controller :: "config \<Rightarrow> core \<Rightarrow> bool" for cfg :: config where
  Start: "controller cfg (Available, [], None, {})"
| Pass: "controller cfg c \<Longrightarrow> controller cfg (abs_pass cfg trig x scan c)"

interpretation daemon_controlled: daemon_invariant "\<lambda>s. controller cfg (core_of (sys_arb s))" E cfg
proof (unfold_locales, goal_cases)
  case (1 h)
  show ?case by (simp add: initial_sys_def core_initial controller.Start)
next
  case (2 s b pv t)
  obtain r s' where "run_state (reconcile_with E cfg b pv t) s = (r, s')" by fastforce
  with reconcile_refines [OF this] 2 show ?case by (auto intro: controller.Pass)
next
  case (3 s c w)
  then show ?case by simp
qed

lemma controller_settled: "controller cfg c \<Longrightarrow> settled c"
  by (induction rule: controller.induct) (simp add: settled_def, rule settled_abs_pass)

section \<open>The counters\<close>

definition sample_count :: "metrics \<Rightarrow> string \<times> eviction_stage \<Rightarrow> nat" where
  "sample_count m k = (case map_of (eviction_durations m) k of None \<Rightarrow> 0 | Some h \<Rightarrow> hist_count h)"

definition metrics_le :: "metrics \<Rightarrow> metrics \<Rightarrow> bool" where
  "metrics_le m m' \<longleftrightarrow> (\<forall>k. eviction_count m k \<le> eviction_count m' k)
     \<and> (\<forall>u. restart_count m u \<le> restart_count m' u)
     \<and> (\<forall>t. pass_count (reconcile_passes m) t \<le> pass_count (reconcile_passes m') t)
     \<and> (\<forall>k. sample_count m k \<le> sample_count m' k)"

lemma metrics_le_refl: "metrics_le m m"
  by (simp add: metrics_le_def)

lemma metrics_le_eviction:
  assumes "metrics_le m m'"
  shows "metrics_le m (record_eviction u out m')"
proof -
  have "eviction_count m' k \<le> eviction_count (record_eviction u out m') k" for k
    using evicted.get_bump [of "(u, out)" m' k] by simp
  then have "eviction_count m k \<le> eviction_count (record_eviction u out m') k" for k
    using assms unfolding metrics_le_def by (meson order_trans)
  with assms show ?thesis
    by (simp add: metrics_le_def record_eviction_def restart_count_def sample_count_def)
qed

lemma metrics_le_restart:
  assumes "metrics_le m m'"
  shows "metrics_le m (record_unit_restart u m')"
proof -
  have "restart_count m k \<le> restart_count (record_unit_restart u m') k" for k
    using assms restarts.get_bump [of u m' k] by (simp add: metrics_le_def trans_le_add1)
  with assms show ?thesis
    by (simp add: metrics_le_def record_unit_restart_def eviction_count_def sample_count_def)
qed

lemma metrics_le_pass:
  assumes "metrics_le m m'"
  shows "metrics_le m (record_reconcile_pass t m')"
proof -
  have "pass_count (reconcile_passes m) k \<le> pass_count (reconcile_passes (record_reconcile_pass t m')) k" for k
    using assms passes.get_bump [of t m' k] by (simp add: metrics_le_def trans_le_add1)
  with assms show ?thesis
    by (simp add: metrics_le_def record_reconcile_pass_def eviction_count_def restart_count_def sample_count_def)
qed

lemma metrics_le_duration:
  assumes "metrics_le m m'"
  shows "metrics_le m (record_eviction_duration u st x m')"
proof -
  have "sample_count m' k \<le> sample_count (record_eviction_duration u st x m') k" for k
    by (auto simp: sample_count_def record_eviction_duration_def map_of_alist_upd hist_observe_def
        empty_histogram_def Let_def split: option.splits)
  then have "sample_count m k \<le> sample_count (record_eviction_duration u st x m') k" for k
    using assms unfolding metrics_le_def by (meson order_trans)
  with assms show ?thesis
    by (simp add: metrics_le_def record_eviction_duration_def eviction_count_def restart_count_def)
qed

lemmas metrics_le_intros = metrics_le_eviction metrics_le_restart metrics_le_pass metrics_le_duration

interpretation metrics_grow: arbiter_invariant "\<lambda>a. metrics_le m (arb_metrics a)"
proof (unfold_locales, goal_cases)
  case (1 a u reason r tm wall)
  then show ?case
    by (auto simp: record_evicted_def Let_def intro!: metrics_le_intros split: option.split)
next
  case (2 a t x)
  then show ?case by (cases x) (simp add: note_one_def Let_def)
next
  case (3 a t u)
  then show ?case by (simp add: warn_one_def)
next
  case (6 a sts pv mem)
  then show ?case by (simp add: refreshed_def Let_def split: option.split)
next
  case (12 a n st)
  then show ?case by (simp add: manual_started_def Let_def metrics_le_restart)
qed (simp_all add: metrics_le_restart metrics_le_pass hold_unit_def clear_gaming_def)

lemma pass_grows_metrics:
  "metrics_le (arb_metrics (sys_arb s)) (arb_metrics (sys_arb (snd (run_state (reconcile_with E cfg b pv t) s))))"
proof -
  obtain r s' where run: "run_state (reconcile_with E cfg b pv t) s = (r, s')" by fastforce
  have "on_arb (\<lambda>a. metrics_le (arb_metrics (sys_arb s)) (arb_metrics a)) s'"
    by (rule keeps_run [OF metrics_grow.pass _ run]) (simp add: on_arb_def metrics_le_refl)
  with run show ?thesis by (simp add: on_arb_def)
qed

lemma step_grows_metrics:
  "daemon_step E cfg b d d' \<Longrightarrow> metrics_le (arb_metrics (sys_arb (d_sys d))) (arb_metrics (sys_arb (d_sys d')))"
  by (cases rule: daemon_step.cases) (auto simp: metrics_le_refl intro: pass_grows_metrics)

text \<open>The pass counters against the history: one manual pass per reply, one startup pass.\<close>

definition tallied :: "'w daemon \<Rightarrow> bool" where
  "tallied d \<longleftrightarrow> (let c = reconcile_passes (arb_metrics (sys_arb (d_sys d))) in
     pass_count c PT_Manual = length (sys_replies (d_sys d)) \<and> pass_count c PT_Startup = 1)"

lemma tallied_frame [simp]:
  "tallied (d\<lparr> d_queue := q \<rparr>) = tallied d"
  "tallied (d\<lparr> d_sent := ids \<rparr>) = tallied d"
  "tallied (d\<lparr> d_debounce := dl \<rparr>) = tallied d"
  "tallied (d\<lparr> d_cancelled := c \<rparr>) = tallied d"
  "tallied (d\<lparr> d_running := c \<rparr>) = tallied d"
  "tallied (d\<lparr> d_sys := (d_sys d)\<lparr> sys_host := h \<rparr> \<rparr>) = tallied d"
  by (simp_all add: tallied_def)

lemma pass_tally:
  "length (sys_replies (snd (run_state (reconcile_with E cfg b pv t) s)))
     = length (sys_replies s) + length (reply_ids t)"
  using arg_cong [OF pass_replies, of length E cfg b pv t s] by simp

lemma tallied_pass:
  assumes "tallied d" and "t \<noteq> Startup" and "d_sys d' = d_sys d"
  shows "tallied (run_pass E cfg b pv t d')"
  using assms
  by (cases t) (simp_all add: tallied_def Let_def pass_counts_own_trigger pass_tally del: pass_count.simps)

lemma tallied_step:
  assumes "daemon_step E cfg b d d'" and "tallied d" and "list_all sendable (d_queue d)"
  shows "tallied d'"
  using assms(1)
proof (cases rule: daemon_step.cases)
  case (Receive t q pv)
  with assms show ?thesis by (auto intro!: tallied_pass)
next
  case (Carry dl t q pv)
  with assms show ?thesis by (auto intro!: tallied_pass)
qed (use assms(2) in \<open>auto intro!: tallied_pass\<close>)

lemma pass_count_initial: "pass_count (reconcile_passes (arb_metrics (with_config t cfg))) k = 0"
proof -
  have "reconcile_passes (arb_metrics (fold (\<lambda>u s. s\<lparr> arb_metrics := seed_unit (unit_name u) (arb_metrics s),
       needs_resume := insert (unit_name u) (needs_resume s) \<rparr>) us a)) = reconcile_passes (arb_metrics a)"
    for us :: "managed_unit list" and a :: arbiter
    by (induction us arbitrary: a) (simp_all add: seed_unit_def)
  then show ?thesis
    by (cases k) (simp_all add: with_config_def default_arbiter_def empty_metrics_def)
qed

lemma reachable_tallied: "reachable E cfg b d \<Longrightarrow> tallied d"
proof (induction rule: reachable.induct)
  case (Boot h pv d)
  then show ?case
    by (auto simp: boot_def tallied_def Let_def pass_counts_own_trigger pass_tally initial_sys_def
        pass_count_initial simp del: pass_count.simps split: prod.splits if_splits)
next
  case (Step d d')
  then show ?case by (blast intro: tallied_step reachable_sendable)
qed

section \<open>The holds\<close>

text \<open>Only a manual start of the unit, answered with success, releases its hold.\<close>

lemma pass_holds:
  assumes "n \<in> held (sys_arb s)" and "n \<notin> held (sys_arb (snd (run_state (reconcile_with E cfg b pv t) s)))"
  shows "\<exists>reply. t = ManualStart n reply
    \<and> sys_replies (snd (run_state (reconcile_with E cfg b pv t) s)) = (reply, Inr ()) # sys_replies s"
proof -
  obtain r s' where run: "run_state (reconcile_with E cfg b pv t) s = (r, s')" by fastforce
  obtain x scan where "core_of (sys_arb s') = abs_pass cfg t x scan (core_of (sys_arb s))"
      "sys_replies s' = reply_of t x @ sys_replies s"
    using reconcile_refines [OF run] by blast
  with assms run show ?thesis
    by (cases t)
      (auto simp: core_of_def abs_pass_def trigger_effect_def start_effect_def release_def hold_def
        decide_core_def reply_of_def Let_def split: option.splits prod.splits if_splits)
qed

lemma run_pass_holds:
  assumes "n \<in> held (sys_arb (d_sys d))" and "n \<notin> held (sys_arb (d_sys (run_pass E cfg b pv t d0)))"
    and "d_sys d0 = d_sys d"
  shows "\<exists>reply. t = ManualStart n reply
    \<and> sys_replies (d_sys (run_pass E cfg b pv t d0)) = (reply, Inr ()) # sys_replies (d_sys d)"
  using pass_holds [of n "d_sys d" E cfg b pv t] assms by simp

section \<open>A run of the sample daemon\<close>

definition sample_boot :: "sample_world \<Rightarrow> (gpu_backend \<times> sample_world daemon) option" where
  "sample_boot w = boot (sample_os Linux) sample_cfg default_presence (sample_host w)"

definition sample_daemon :: "sample_world \<Rightarrow> sample_world daemon" where
  "sample_daemon w = snd (the (sample_boot w))"

lemma sample_reachable:
  assumes "map_option fst (sample_boot w) = Some Nvidia"
  shows "reachable (sample_os Linux) sample_cfg Nvidia (sample_daemon w)"
proof -
  have "boot (sample_os Linux) sample_cfg default_presence (sample_host w) = Some (Nvidia, sample_daemon w)"
    using assms by (cases "sample_boot w") (auto simp: sample_boot_def sample_daemon_def)
  then show ?thesis by (rule reachable.Boot [rotated]) (simp add: sample_host_def)
qed

lemma idle_reachable: "reachable (sample_os Linux) sample_cfg Nvidia (sample_daemon (idle_world [] []))"
  by (rule sample_reachable) code_simp

lemma game_reachable: "reachable (sample_os Linux) sample_cfg Nvidia (sample_daemon (game_world [] []))"
  by (rule sample_reachable) code_simp

text \<open>The idle daemon with a held unit, about to handle the manual start of it.\<close>

definition held_daemon :: "sample_world daemon" where
  "held_daemon =
     \<lparr> d_sys = (sample_sys (idle_world [] []) Available)
         \<lparr> sys_arb := (with_config 0 sample_cfg)\<lparr> held := {''ollama.service''} \<rparr> \<rparr>,
        d_queue = [ManualStart ''ollama.service'' 5], d_debounce = None, d_cancelled = False,
        d_running = True, d_sent = [5] \<rparr>"

end
