(* ===== verification/Operator_Properties.thy ===== *)
theory Operator_Properties
  imports Http Daemon_Laws Pass_Properties
begin

text \<open>
  The operator's path through the components: a request on the control socket (\<open>src/http.rs\<close>) becomes
  a manual trigger, a reconcile pass (\<open>src/reconcile.rs\<close>) handles and answers it, and the answer
  becomes the status code of the response.
\<close>

text \<open>What the handler receives on its reply channel once the pass is over.\<close>

definition answer_in :: "'w sys \<Rightarrow> nat \<Rightarrow> reply_outcome" where
  "answer_in s reply =
     (case map_of (sys_replies s) reply of None \<Rightarrow> Reply_Dropped | Some r \<Rightarrow> Replied r)"

lemma rest_of_pass_silent:
  assumes "run_state (on_host (scan_claims E cfg)) s1 = (sc, s2)"
    and "run_state (case sc of Inl e \<Rightarrow> State_Monad.return (Inl e)
       | Inr cs \<Rightarrow> after_scan E cfg b pv cs) s2 = (r, s')"
  shows "sys_replies s' = sys_replies s1"
proof (cases sc)
  case (Inl e)
  with assms silent_run [OF silent_on_host assms(1)] show ?thesis by simp
next
  case (Inr cs)
  with assms(2) have "run_state (after_scan E cfg b pv cs) s2 = (r, s')" by simp
  with silent_run [OF silent_after_scan this] silent_run [OF silent_on_host assms(1)] show ?thesis by simp
qed

lemma start_pass_refused:
  assumes "run_state (reconcile_with E cfg b pv (ManualStart unit reply)) s = (r, s')"
    and "cur_state (sys_arb s) \<noteq> Available"
  shows "sys_replies s' = (reply, Inl GpuHeldByGame) # sys_replies s"
proof -
  obtain s1 sc s2 where 1: "run_state (handle_trigger E cfg b (ManualStart unit reply))
        (counted (ManualStart unit reply) s) = ((), s1)"
    and rest: "run_state (on_host (scan_claims E cfg)) s1 = (sc, s2)"
      "run_state (case sc of Inl e \<Rightarrow> State_Monad.return (Inl e)
         | Inr cs \<Rightarrow> after_scan E cfg b pv cs) s2 = (r, s')"
    using reconcile_run [OF assms(1)] .
  have "cur_state (sys_arb (counted (ManualStart unit reply) s)) \<noteq> Available"
    using assms(2) by (simp add: counted_def)
  from manual_start_refused_during_game [OF this, of E cfg unit reply] 1
  have "sys_replies s1 = (reply, Inl GpuHeldByGame) # sys_replies s"
    by (auto simp: handle_trigger_def)
  with rest_of_pass_silent [OF rest] show ?thesis by simp
qed

lemma held_abs_pass: "snd (snd (snd (abs_pass cfg t x scan c))) = snd (snd (snd (trigger_effect t x c)))"
  by (cases "trigger_effect t x c")
    (simp add: abs_pass_def decide_core_def Let_def split: option.split prod.split)

lemma rest_of_pass_log:
  assumes "run_state (on_host (scan_claims E cfg)) s1 = (sc, s2)"
    and "run_state (case sc of Inl e \<Rightarrow> State_Monad.return (Inl e)
       | Inr cs \<Rightarrow> after_scan E cfg b pv cs) s2 = (r, s')"
  shows "\<exists>rs. sys_log s' = rs @ sys_log s1"
proof (cases sc)
  case (Inl e)
  with assms scan_trace [OF assms(1)] show ?thesis by simp
next
  case (Inr cs)
  with assms(2) have "run_state (after_scan E cfg b pv cs) s2 = (r, s')" by simp
  with after_scan_trace [OF this] scan_trace [OF assms(1)] show ?thesis by auto
qed

lemma stop_pass_holds:
  assumes "run_state (reconcile_with E cfg b pv (ManualStop unit reply)) s = (r, s')"
  shows "held (sys_arb s') = insert unit (held (sys_arb s))"
proof -
  obtain x scan where x: "core_of (sys_arb s') = abs_pass cfg (ManualStop unit reply) x scan (core_of (sys_arb s))"
    using reconcile_refines [OF assms] by blast
  have "held (sys_arb s') = snd (snd (snd (core_of (sys_arb s'))))" by (simp add: core_of_def)
  also have "\<dots> = insert unit (held (sys_arb s))"
    unfolding x held_abs_pass by (simp add: trigger_effect_def hold_def core_of_def)
  finally show ?thesis .
qed

lemma start_pass:
  assumes "run_state (reconcile_with E cfg b pv (ManualStart unit reply)) s = (r, s')"
  obtains x where "sys_replies s' = (reply, x) # sys_replies s"
    "held (sys_arb s') = (if x = Inr () then held (sys_arb s) - {unit} else held (sys_arb s))"
proof -
  obtain x scan where x: "core_of (sys_arb s') = abs_pass cfg (ManualStart unit reply) x scan (core_of (sys_arb s))"
      "sys_replies s' = reply_of (ManualStart unit reply) x @ sys_replies s"
    using reconcile_refines [OF assms] by blast
  have "held (sys_arb s') = snd (snd (snd (core_of (sys_arb s'))))" by (simp add: core_of_def)
  also have "\<dots> = (if x = Inr () then held (sys_arb s) - {unit} else held (sys_arb s))"
    unfolding x(1) held_abs_pass
    by (simp add: trigger_effect_def start_effect_def release_def core_of_def)
  finally have "held (sys_arb s') = (if x = Inr () then held (sys_arb s) - {unit} else held (sys_arb s))" .
  with x(2) show thesis by (intro that [of x]) (simp_all add: reply_of_def)
qed

text \<open>A unit endpoint of the socket always answers.\<close>

lemma uds_request_answers:
  "\<exists>code msg sent. uds_request cfg chan reply POST [''units'', unit, ''start''] = (Some (code, msg), sent)"
  "\<exists>code msg sent. uds_request cfg chan reply POST [''units'', unit, ''stop''] = (Some (code, msg), sent)"
  by (simp_all add: uds_request_def uds_router_def write_routes_def apfst_def map_prod_def split_def)

text \<open>
  C17: A start request on the control socket is answered truthfully. For a managed unit
  \<open>POST /units/<unit>/start\<close> hands the reconcile task one start trigger and is answered 200, 409 or 500; it is answered 409 whenever
  the pass found the daemon not \<open>Available\<close>; and the unit's hold is released exactly when the answer
  is 200, no other hold being touched.
\<close>

theorem operator_start_answered:
  assumes "run_state (reconcile_with E cfg b pv (ManualStart unit reply)) s = (r, s')"
    and "uds_request cfg (\<lambda>_. Some (answer_in s' reply)) reply POST [''units'', unit, ''start''] = (Some (code, msg), sent)"
    and "is_managed cfg unit"
  shows "code \<in> {200, 409, 500} \<and> sent = [ManualStart unit reply]
     \<and> (cur_state (sys_arb s) \<noteq> Available \<longrightarrow> code = 409)
     \<and> held (sys_arb s') = (if code = 200 then held (sys_arb s) - {unit} else held (sys_arb s))"
proof -
  obtain x where x: "sys_replies s' = (reply, x) # sys_replies s"
      "held (sys_arb s') = (if x = Inr () then held (sys_arb s) - {unit} else held (sys_arb s))"
    using start_pass [OF assms(1)] .
  obtain u where u: "guard_unit cfg unit = Inr u" "unit_name u = unit"
    using assms(3) guard_unit_managed guard_unit_Inr by metis
  have game: "x = Inl GpuHeldByGame" if "cur_state (sys_arb s) \<noteq> Available"
    using start_pass_refused [OF assms(1) that] x(1) by simp
  have resp: "enqueue_and_await (\<lambda>_. Some (Replied x)) unit (ManualStart unit reply) ''start'' = ((code, msg), sent)"
    using assms(2) u x(1)
    by (simp add: uds_request_def uds_router_def write_routes_def do_start_uds_def start_validated_def
        answer_in_def apfst_def map_prod_def split_def prod_eq_iff)
  consider "x = Inr ()" | "x = Inl Failed" | "x = Inl GpuHeldByGame" | "x = Inl PreemptedByTenant"
  proof (cases x)
    case (Inl e)
    with that show thesis by (cases e) simp_all
  qed (use that in simp)
  then show ?thesis
    using resp game x(2) by cases (auto simp: enqueue_and_await_def Let_def)
qed

theorem operator_start_answered_witness:
  "map_option fst (fst (uds_request sample_cfg (\<lambda>_. Some (answer_in (snd (run_state
     (reconcile_with (sample_os Linux) sample_cfg Nvidia default_presence (ManualStart ''ollama.service'' 7))
     (sample_sys (game_world [] []) Gaming))) 7)) 7 POST [''units'', ''ollama.service'', ''start''])) = Some 409"
proof -
  let ?s = "sample_sys (game_world [] []) Gaming"
  let ?p = "reconcile_with (sample_os Linux) sample_cfg Nvidia default_presence (ManualStart ''ollama.service'' 7)"
  obtain r s' where run: "run_state ?p ?s = (r, s')" by fastforce
  obtain code msg sent where resp: "uds_request sample_cfg (\<lambda>_. Some (answer_in s' 7)) 7 POST
      [''units'', ''ollama.service'', ''start''] = (Some (code, msg), sent)"
    using uds_request_answers by blast
  have "is_managed sample_cfg ''ollama.service''" by code_simp
  from operator_start_answered [OF run resp this] have "code = 409"
    by (simp add: sample_sys_def)
  with run resp show ?thesis by simp
qed

section \<open>Stopping a unit\<close>

text \<open>
  After a manual stop the unit is held and owed a resume. The rest of the pass keeps both: a resume is
  attempted, and with it a debt forgotten, only for units that are not held.
\<close>

interpretation held_debts: movements "\<lambda>a. n \<in> held a \<and> n \<in> needs_resume a"
proof (unfold_locales, goal_cases)
  case (1 a u reason r tm wall)
  then show ?case by (auto simp: record_evicted_def Let_def split: option.split)
next
  case (2 a t x)
  then show ?case by (cases x) (simp add: note_one_def Let_def)
next
  case (6 a sts pv mem)
  then show ?case by (simp add: refreshed_def Let_def split: option.split)
qed (auto simp: warn_one_def clear_gaming_def Let_def)

lemma held_debts_resumes:
  "n \<notin> unit_name ` set us \<Longrightarrow> keeps (on_arb (\<lambda>a. n \<in> held a \<and> n \<in> needs_resume a)) (resume_loop E cfg st us)"
  by (induction us) (auto intro!: keeps_intros keeps_upd_arb)

lemma held_debts_ensures:
  "keeps (on_arb (\<lambda>a. n \<in> held a \<and> n \<in> needs_resume a)) (ensure_running E cfg desired pre)"
proof (rule keepsI)
  let ?I = "on_arb (\<lambda>a. n \<in> held a \<and> n \<in> needs_resume a)"
  fix s :: "'a sys"
  assume s: "?I s"
  let ?owed = "filter (\<lambda>u. unit_name u \<in> needs_resume (sys_arb s)) (resume_targets desired cfg (held (sys_arb s)) pre)"
  have n: "n \<notin> unit_name ` set ?owed"
    using s by (auto simp: set_resume_targets on_arb_def split: if_splits)
  have "keeps ?I (start_candidates E (ensure_running_targets desired cfg (held (sys_arb s)) pre) \<bind> (\<lambda>to_start.
      start_loop E cfg to_start \<bind> (\<lambda>r. case r of Inl e \<Rightarrow> State_Monad.return (Inl e)
        | Inr (started, stopped) \<Rightarrow>
            (if stopped then State_Monad.return () else resume_loop E cfg started ?owed)
              \<bind> (\<lambda>_. State_Monad.return (Inr ())))))"
    by (intro keeps_intros held_debts.starts held_debts_resumes [OF n])
  from keeps_wp [OF this s] show "wp (ensure_running E cfg desired pre) (\<lambda>_. ?I) s"
    by (simp add: ensure_running_def wp_simps Let_def)
qed

lemma held_debts_pass:
  "keeps (on_arb (\<lambda>a. n \<in> held a \<and> n \<in> needs_resume a)) (after_scan E cfg b pv cs)"
  unfolding after_scan_def after_decision_def Let_def
  by (intro keeps_intros held_debts.decision held_debts.moves held_debts_ensures held_debts.refreshes)

lemma resolve_managed:
  assumes "is_managed cfg unit"
  shows "\<exists>u. resolve_unit cfg unit = Inr u \<and> unit_name u = unit"
proof -
  obtain u where u: "guard_unit cfg unit = Inr u" "unit_name u = unit"
    using assms guard_unit_managed guard_unit_Inr by metis
  then have "find (\<lambda>u. unit_name u = unit) (resolved_units cfg) = Some u"
    by (simp add: guard_unit_def split: option.splits)
  with u show ?thesis by (simp add: resolve_unit_def)
qed

text \<open>The trigger's block: what is sent back is whether the eviction worked, which saw the unit stopped.\<close>

lemma manual_stop_block:
  assumes run: "run_state (handle_manual_stop E cfg b unit reply) s = ((), s')" and "is_managed cfg unit"
  shows "\<exists>x es. sys_replies s' = (reply, x) # sys_replies s \<and> x \<in> {Inr (), Inl Failed}
    \<and> sys_log s' = es @ sys_log s \<and> (x = Inr () \<longrightarrow> list_ex (\<lambda>e. answers unit e = Some False) es)"
proof -
  obtain u where u: "resolve_unit cfg unit = Inr u" "unit_name u = unit"
    using assms(2) resolve_managed by blast
  let ?s = "s\<lparr> sys_arb := hold_unit unit (sys_arb s) \<rparr>"
  obtain v s1 where 1: "run_state (on_host (vram_used_mb E b)) ?s = (v, s1)" by fastforce
  obtain y w s2 where 2: "run_state (evict_one E cfg b u ''manual stop'' v) s1 = ((y, w), s2)"
    by (metis prod.collapse)
  have s': "s' = s2\<lparr> sys_replies := (reply, case y of Inr _ \<Rightarrow> Inr () | Inl _ \<Rightarrow> Inl Failed) # sys_replies s2 \<rparr>"
    using run u 1 2 by (simp add: handle_manual_stop_def upd_arb_def send_reply_def)
  have "sys_log s1 = sys_log s"
    using tracesE [OF traces_on_host [OF emits_quiet [of "vram_used_mb E b" "\<lambda>_ es. es = []"]] 1]
    by (force simp: vram_used_mb_def sys_log_def intro!: host_intros)
  moreover obtain es where "sys_log s2 = es @ sys_log s1" "ok_of y \<noteq> None \<longrightarrow> seen_stopped es u"
    using tracesE [OF traces_evict_one 2] by auto
  moreover have "sys_replies s2 = sys_replies s"
    using silent_run [OF silent_on_host 1] silent_run [OF silent_evict_one 2] by simp
  ultimately show ?thesis
    using u(2) s' by (cases y) (auto simp: seen_stopped_def sys_log_def)
qed

text \<open>
  C18: A stop request on the control socket is answered truthfully and sticks. For a managed unit
  \<open>POST /units/<unit>/stop\<close> hands the reconcile task one stop trigger and is answered 200 or 500; 200
  only if a run-state probe of the unit in this pass answered not active. Whatever the answer, the
  pass ends with the unit held and owed a resume, with no other hold changed, and has neither
  started nor resumed it.
\<close>

theorem operator_stop_answered:
  assumes "run_state (reconcile_with E cfg b pv (ManualStop unit reply)) s = (r, s')"
    and "uds_request cfg (\<lambda>_. Some (answer_in s' reply)) reply POST [''units'', unit, ''stop''] = (Some (code, msg), sent)"
    and "is_managed cfg unit"
  shows "code \<in> {200, 500} \<and> sent = [ManualStop unit reply]
     \<and> held (sys_arb s') = insert unit (held (sys_arb s)) \<and> unit \<in> needs_resume (sys_arb s')
     \<and> (\<exists>es. sys_log s' = es @ sys_log s \<and> list_all (\<lambda>e. \<not> (grant e \<and> ev_unit e = unit)) es
          \<and> (code = 200 \<longrightarrow> list_ex (\<lambda>e. answers unit e = Some False) es))"
proof -
  let ?t = "ManualStop unit reply"
  obtain s1 sc s2 where 1: "run_state (handle_trigger E cfg b ?t) (counted ?t s) = ((), s1)"
    and 2: "run_state (on_host (scan_claims E cfg)) s1 = (sc, s2)"
    and rest: "run_state (case sc of Inl e \<Rightarrow> State_Monad.return (Inl e)
         | Inr cs \<Rightarrow> after_scan E cfg b pv cs) s2 = (r, s')"
    using reconcile_run [OF assms(1)] .
  have stop: "run_state (handle_manual_stop E cfg b unit reply) (counted ?t s) = ((), s1)"
    using 1 by (simp add: handle_trigger_def)
  obtain x ts where x: "sys_replies s1 = (reply, x) # sys_replies s" "x \<in> {Inr (), Inl Failed}"
      "sys_log s1 = ts @ sys_log s" "x = Inr () \<longrightarrow> list_ex (\<lambda>e. answers unit e = Some False) ts"
    using manual_stop_block [OF stop assms(3)] by auto
  have reply: "sys_replies s' = (reply, x) # sys_replies s"
    using rest_of_pass_silent [OF 2 rest] x(1) by simp
  let ?I = "on_arb (\<lambda>a. unit \<in> held a \<and> unit \<in> needs_resume a)"
  have "?I s1" using manual_stop_holds [OF stop] by (simp add: on_arb_def)
  from keeps_run [OF keeps_on_host this 2] have "?I s2" .
  moreover have "keeps ?I (case sc of Inl e \<Rightarrow> State_Monad.return (Inl e) | Inr cs \<Rightarrow> after_scan E cfg b pv cs)"
    by (cases sc) (simp_all add: keeps_return held_debts_pass)
  ultimately have "?I s'" using keeps_run [OF _ _ rest] by metis
  then have owed: "unit \<in> held (sys_arb s')" "unit \<in> needs_resume (sys_arb s')" by (simp_all add: on_arb_def)
  have held: "held (sys_arb s') = insert unit (held (sys_arb s))"
    using stop_pass_holds [OF assms(1)] .
  obtain es where es: "sys_log s' = es @ sys_log s" "list_all (\<lambda>e. \<not> (grant e \<and> ev_unit e = unit)) es"
    using reconcile_trace [OF assms(1)] owed(1)
    by (auto simp: lawful_def is_manual_start_def list_all_iff)
  obtain rs where "sys_log s' = rs @ sys_log s1" using rest_of_pass_log [OF 2 rest] ..
  with x(3) es(1) have "es = rs @ ts" by simp
  then have seen: "x = Inr () \<Longrightarrow> list_ex (\<lambda>e. answers unit e = Some False) es" using x(4) by simp
  obtain u where u: "guard_unit cfg unit = Inr u" "unit_name u = unit"
    using assms(3) guard_unit_managed guard_unit_Inr by metis
  have "enqueue_and_await (\<lambda>_. Some (Replied x)) unit ?t ''stop'' = ((code, msg), sent)"
    using assms(2) u reply
    by (simp add: uds_request_def uds_router_def write_routes_def do_stop_uds_def stop_validated_def
        answer_in_def apfst_def map_prod_def split_def prod_eq_iff)
  then have "code = (if x = Inr () then 200 else 500) \<and> sent = [?t]"
    using x(2) by (auto simp: enqueue_and_await_def Let_def)
  then show ?thesis using es seen owed held by auto
qed

theorem operator_stop_answered_witness:
  "list_ex (\<lambda>e. answers ''ollama.service'' e = Some False) (sys_log (snd (sample_pass sample_cfg
     (ManualStop ''ollama.service'' 7) (sample_sys (idle_world [] []) Available))))"
proof -
  let ?s = "sample_sys (idle_world [] []) Available" and ?t = "ManualStop ''ollama.service'' 7"
  let ?r = "sample_pass sample_cfg ?t ?s"
  obtain code msg sent where resp: "uds_request sample_cfg (\<lambda>_. Some (answer_in (snd ?r) 7)) 7 POST
      [''units'', ''ollama.service'', ''stop''] = (Some (code, msg), sent)"
    using uds_request_answers by blast
  have m: "is_managed sample_cfg ''ollama.service''" by code_simp
  have "sys_replies (snd ?r) = [(7, Inr ())]" by code_simp
  moreover obtain u where "guard_unit sample_cfg ''ollama.service'' = Inr u"
    using m guard_unit_managed by metis
  ultimately have "code = 200"
    using resp by (auto simp: answer_in_def uds_request_def uds_router_def write_routes_def do_stop_uds_def
        stop_validated_def enqueue_and_await_def Let_def apfst_def map_prod_def split: sum.splits)
  with operator_stop_answered [OF sample_pass_run resp m] show ?thesis by auto
qed

end
