(* ===== verification/Restore_Properties.thy ===== *)
theory Restore_Properties
  imports Pass_Properties
begin

text \<open>
  What a pass must do, beside what it must not: on the edge into a game it frees the GPU, and back in
  \<open>Available\<close> it restores the tenants. Block by block, what the probes, the candidates and the start
  loop leave in the ghost log; then the properties of a whole pass.
\<close>

section \<open>Definitions\<close>



fun game_scan :: "event \<Rightarrow> bool" where
  "game_scan (Ev_Scan (Some (c # cs))) = True"
| "game_scan _ = False"



section \<open>The start loop\<close>










section \<open>The ensure-running step\<close>

lemma game_scan_append: "list_ex game_scan es \<Longrightarrow> list_ex game_scan (fs @ es)"
  by simp


section \<open>The pass\<close>




lemma probe_busy_trace:
  assumes "run_state (on_host (probe_busy E cfg hs)) s = ((busy, rn), s')"
  shows "\<exists>es. sys_log s' = es @ sys_log s \<and> list_all (said_busy es) busy
    \<and> set busy \<subseteq> set (resolved_units cfg)"
proof -
  have "traces (on_host (probe_busy E cfg hs)) (\<lambda>(busy, _) es. list_all (said_busy es) busy)"
    unfolding probe_busy_def
    by (rule traces_on_host, rule emits_mono [OF emits_probe_each_asks]) auto
  moreover have "traces (on_host (probe_busy E cfg hs)) (\<lambda>(busy, _) es. probed (resolved_units cfg) busy es)"
    by (rule traces_on_host [OF emits_probe_busy])
  ultimately show ?thesis
    using assms by (fastforce simp: probed_def traces_def)
qed





section \<open>A game gets the GPU\<close>

text \<open>Outside \<open>Available\<close> nothing is started or resumed.\<close>

lemma ensure_running_idle: "d \<noteq> Available \<Longrightarrow> run_state (ensure_running E cfg d pre) s = (Inr (), s)"
  by (simp add: ensure_running_def ensure_running_targets_def resume_targets_def start_candidates_def
      get_arb_def Let_def)

lemma refreshed_debts [simp]:
  "needs_resume (refreshed sts pv m a) = needs_resume a"
  "degraded (refreshed sts pv m a) = degraded a"
  by (simp_all add: refreshed_def Let_def split: option.split)

lemma keeps_refresh_debts:
  "keeps (on_arb (\<lambda>a. needs_resume a = N \<and> degraded a = d)) (refresh_substate E cfg pv b)"
  unfolding refresh_substate_def
  by (auto intro!: keeps_intros keeps_upd_arb split: option.split)

lemma fst_trigger_effect [simp]: "fst (trigger_effect trig x c) = fst c"
  by (cases c) (simp add: trigger_effect_def start_effect_def hold_def release_def split: trigger.splits)

lemma game_preempts:
  assumes "u \<in> set (resolved_units cfg)" and "priority u < game_priority cfg"
  shows "u \<in> set (preempted_units cfg (pass_demand cs cfg busy Gaming))"
proof (cases "effective_demand cs cfg busy")
  case None
  then show ?thesis using assms by (simp add: pass_demand_def opt_max_def set_preempted_units)
next
  case (Some d)
  then show ?thesis
    using assms by (simp add: pass_demand_def opt_max_def set_preempted_units less_max_iff_disj)
qed

lemma after_decision_frees:
  assumes run: "run_state (after_decision E cfg b pv cs Available Gaming hs) s = (r, s')"
    and u: "u \<in> set (resolved_units cfg)" "priority u < game_priority cfg"
  shows "unit_name u \<in> needs_resume (sys_arb s')
    \<and> (\<exists>es. sys_log s' = es @ sys_log s \<and> (degraded (sys_arb s') \<or> seen_stopped es u))"
proof -
  obtain busy rn s1 where 1: "run_state (on_host (probe_busy E cfg hs)) s = ((busy, rn), s1)"
    by (metis prod.collapse)
  let ?pre = "preempted_units cfg (pass_demand cs cfg busy Gaming)"
  obtain s2 where 2: "run_state (evict_arm E cfg b ?pre) s1 = ((), s2)"
    by (metis old.unit.exhaust prod.collapse)
  have "run_state (transition E cfg b Available Gaming ?pre rn) s1 = ((), s2)"
    using 2 by (simp add: transition_def)
  then have 3: "run_state (refresh_substate E cfg pv b) s2 = ((), s')"
    using run 1 ensure_running_idle [of Gaming E cfg ?pre s2]
    by (simp add: after_decision_def Let_def split: prod.splits)
  note freed = evict_arm_frees [OF 2]
  have "on_arb (\<lambda>a. needs_resume a = needs_resume (sys_arb s2) \<and> degraded a = degraded (sys_arb s2)) s'"
    by (rule keeps_run [OF keeps_refresh_debts _ 3]) (simp add: on_arb_def)
  then have same: "needs_resume (sys_arb s') = needs_resume (sys_arb s2)" "degraded (sys_arb s') = degraded (sys_arb s2)"
    by (simp_all add: on_arb_def)
  have pre: "u \<in> set ?pre" by (rule game_preempts [OF u])
  obtain ps where ps: "sys_log s1 = ps @ sys_log s" using probe_busy_trace [OF 1] by blast
  obtain es where es: "sys_log s2 = es @ sys_log s1" "degraded (sys_arb s2) \<or> seen_stopped es u"
    using freed pre by (auto simp: list_all_iff)
  obtain rs where rs: "sys_log s' = rs @ sys_log s2"
    using traces_obtain [OF refresh_trace 3] .
  have "unit_name u \<in> needs_resume (sys_arb s')" using freed pre same by blast
  moreover have "sys_log s' = (rs @ es @ ps) @ sys_log s" using ps es rs by simp
  ultimately show ?thesis
    using es(2) same by (intro conjI exI [of _ "rs @ es @ ps"]) auto
qed

text \<open>
  C7: A game gets the GPU. When a pass takes the daemon from \<open>Available\<close> to \<open>Gaming\<close>, its scan saw a
  game, every unit the game outranks is owed a resume, and unless the daemon reports itself degraded,
  a run-state probe of that unit in this very pass, after the scan, answered that it is not active.
\<close>

theorem pass_frees_gpu:
  assumes "run_state (reconcile_with E cfg b pv trig) s = (r, s')"
    and "cur_state (sys_arb s) = Available" and "cur_state (sys_arb s') = Gaming"
    and "u \<in> set (resolved_units cfg)" and "priority u < game_priority cfg"
  shows "\<exists>es ts c. sys_log s' = es @ Ev_Scan (Some c) # ts @ sys_log s \<and> c \<noteq> []
    \<and> claims (sys_arb s') = c \<and> unit_name u \<in> needs_resume (sys_arb s')
    \<and> (degraded (sys_arb s') \<or> seen_stopped es u)"
proof -
  obtain s1 sc s2 where 1: "run_state (handle_trigger E cfg b trig) (counted trig s) = ((), s1)"
    and 2: "run_state (on_host (scan_claims E cfg)) s1 = (sc, s2)"
    and rest: "run_state (case sc of Inl e \<Rightarrow> State_Monad.return (Inl e)
       | Inr cs \<Rightarrow> after_scan E cfg b pv cs) s2 = (r, s')"
    using reconcile_run [OF assms(1)] .
  obtain ts where ts: "sys_log s1 = ts @ sys_log s" using trigger_trace [OF 1] by auto
  have core1: "fst (core_of (sys_arb s1)) = Available"
    using wp_run [OF wp_handle_trigger 1] assms(2)
    by (auto simp: counted_simps) (simp add: core_of_def)
  then have cur: "cur_state (sys_arb s2) = Available"
    using core_run [OF keeps_on_host 2] by (auto simp: core_of_def)
  obtain cs where sc: "sc = Inr cs" and run: "run_state (after_scan E cfg b pv cs) s2 = (r, s')"
  proof (cases sc)
    case (Inl e)
    then have "s' = s2" using rest by simp
    with cur assms(3) show ?thesis by simp
  qed (use rest that in simp)
  note core = after_scan_core [OF run]
  obtain p where d: "debounce_game_exit Available (resolve_state cs)
        (game_exit_pending_since (sys_arb s2)) (from_secs (game_exit_grace_s cfg)) (hclock (sys_host s2))
      = (Gaming, p)" and c': "claims (sys_arb s') = cs"
    using core assms(3) cur by (auto simp: decide_core_def core_of_def split: prod.splits)
  have cs: "cs \<noteq> []"
    using d by (auto simp: debounce_game_exit_def resolve_state_def)
  define s3 where "s3 = s2\<lparr> sys_arb := (sys_arb s2)\<lparr> game_exit_pending_since := p, claims := cs \<rparr> \<rparr>"
  have "run_state (decide cfg cs) s2 = ((Available, Gaming, held (sys_arb s2)), s3)"
    using d cur by (simp add: decide_def on_host_def get_arb_def upd_arb_def now_def s3_def)
  then have "run_state (after_decision E cfg b pv cs Available Gaming (held (sys_arb s2))) s3 = (r, s')"
    using run by (simp add: after_scan_def)
  from after_decision_frees [OF this assms(4,5)]
  obtain es where "unit_name u \<in> needs_resume (sys_arb s')" "sys_log s' = es @ sys_log s3"
      "degraded (sys_arb s') \<or> seen_stopped es u" by blast
  moreover have "sys_log s3 = Ev_Scan (Some cs) # ts @ sys_log s"
    using scan_trace [OF 2] ts sc by (simp add: s3_def sys_log_def)
  ultimately show ?thesis
    using cs c' by (intro exI [of _ es] exI [of _ ts] exI [of _ cs]) simp
qed

theorem pass_frees_gpu_witness:
  "list_ex (\<lambda>e. answers ''ollama.service'' e = Some False)
     (sys_log (snd (sample_pass sample_cfg Timer (sample_sys (game_world [] []) Available))))"
proof -
  let ?s = "sample_sys (game_world [] []) Available" and ?u = "hd default_managed_units"
  let ?r = "sample_pass sample_cfg Timer ?s"
  have "case ?r of (_, s') \<Rightarrow> cur_state (sys_arb s') = Gaming \<and> \<not> degraded (sys_arb s')"
    by code_simp
  moreover have "cur_state (sys_arb ?s) = Available" "unit_name ?u = ''ollama.service''"
      "?u \<in> set (resolved_units sample_cfg)" "priority ?u < game_priority sample_cfg"
    by code_simp+
  ultimately show ?thesis
    using pass_frees_gpu [OF sample_pass_run [of sample_cfg Timer ?s], of ?u]
    by (auto simp: seen_stopped_def split_def)
qed

end
