(* ===== verification/Startup.thy ===== *)
theory Startup
  imports Daemon Control_Socket Presence
begin

text \<open>
  \<open>async_main\<close> of \<open>src/main.rs\<close> up to the point where the daemon serves: load the configuration,
  resolve the back end, leave if disabled, run the startup pass, bind the TCP port, take the control
  socket. What the TCP bind answers is a parameter; the socket is taken with nobody else around
  (the races are those of the control socket's own theory). Spawning the tasks has no effect of
  its own: from here on they are the steps of the daemon.
\<close>

section \<open>Definitions\<close>

text \<open>The view a pass copies into the shared state.\<close>

definition presence_view_of :: "presence_monitor \<Rightarrow> presence_view" where
  "presence_view_of m =
     \<lparr> last_input_unix = pm_last_input m, devices = pm_device_count m, monitor_up = pm_healthy m \<rparr>"

datatype start_error = SE_Config config_error | SE_Http http_error

text \<open>A failed start carries the host as it was left: the startup pass may have acted on it.\<close>

datatype 'w start_outcome =
    Start_Error start_error "'w host"
  | Start_Disabled
  | Serving config gpu_backend "'w daemon" "uds_world option"

definition take_socket ::
  "platform \<Rightarrow> config \<Rightarrow> uds_faults \<Rightarrow> node option \<Rightarrow> http_error + uds_world option" where
  "take_socket p cfg F n =
     (if p = Windows \<or> socket_path cfg = [] then Inr None
      else let w = bind_uds F n
           in case pc_of w 0 of Uds_Done (Inl e) \<Rightarrow> Inl e | _ \<Rightarrow> Inr (Some w))"

text \<open>
  The seed of the presence monitor: the wall clock once the back end is resolved, so that a fresh
  daemon does not look abandoned.
\<close>

definition start_unix :: "'w os \<Rightarrow> config \<Rightarrow> 'w host \<Rightarrow> int" where
  "start_unix E cfg h =
     now_unix (os_wall E (hworld (snd (run_state (resolve_backend E (gpu_backend_kind cfg)) h))))"

definition async_main ::
  "'w os \<Rightarrow> (string \<Rightarrow> string + config) \<Rightarrow> (string \<Rightarrow> io_error + string) \<Rightarrow> string \<Rightarrow>
   (config \<Rightarrow> io_error option) \<Rightarrow> uds_faults \<Rightarrow> node option \<Rightarrow> 'w host \<Rightarrow> 'w start_outcome" where
  "async_main E toml read path tcp F n h =
     (case load (os_platform E) toml read path of
        Inl e \<Rightarrow> Start_Error (SE_Config e) h
      | Inr cfg \<Rightarrow>
          (case boot E cfg (presence_view_of (presence_new (start_unix E cfg h))) h of
             None \<Rightarrow> Start_Disabled
           | Some (b, d) \<Rightarrow>
               (case http_bind (tcp cfg) of
                  Inl e \<Rightarrow> Start_Error (SE_Http e) (sys_host (d_sys d))
                | Inr _ \<Rightarrow>
                    (case take_socket (os_platform E) cfg F n of
                       Inl e \<Rightarrow> Start_Error (SE_Http e) (sys_host (d_sys d))
                     | Inr sock \<Rightarrow> Serving cfg b d sock))))"

section \<open>Lemmas\<close>

text \<open>One call alone: it ends, and it wins exactly when nothing live was in the way and nothing failed.\<close>

lemma uds_run_Cons: "uds_run F (i # sched) w = uds_run F sched (uds_step F i w)"
  by (simp add: uds_run_def)

lemma uds_run_Done: "pc_of w i = Uds_Done r \<Longrightarrow> uds_run F (replicate k i) w = w"
  by (induction k) (simp_all add: uds_run_def uds_step_def)

definition taken :: "uds_world \<Rightarrow> node option \<Rightarrow> http_error + unit \<Rightarrow> bool" where
  "taken w n r \<longleftrightarrow> pc_of w 0 = Uds_Done r \<and> staged w 0 = None
     \<and> (if r = Inr () then at_path w = Some (Sock 0 True) else at_path w = n \<or> at_path w = None)
     \<and> (socket_is_live (connect n) \<longrightarrow> r \<noteq> Inr () \<and> at_path w = n)"

lemma run_Suc: "uds_run F (replicate (Suc k) 0) w = uds_run F (replicate k 0) (uds_step F 0 w)"
  by (simp add: uds_run_def)

lemma taken_Done:
  assumes "taken w n r"
  shows "\<exists>r. taken (uds_run F (replicate k 0) w) n r"
proof -
  have "pc_of w 0 = Uds_Done r" using assms by (simp add: taken_def)
  then show ?thesis using assms by (auto simp: uds_run_Done)
qed

text \<open>From each point of the call on, the rest of it ends as stated.\<close>

definition ends :: "nat \<Rightarrow> uds_faults \<Rightarrow> node option \<Rightarrow> uds_world \<Rightarrow> bool" where
  "ends k F n w \<longleftrightarrow> (\<exists>r. taken (uds_run F (replicate k 0) w) n r)"

lemma ends_Suc: "ends (Suc k) F n w = ends k F n (uds_step F 0 w)"
  by (simp only: ends_def run_Suc)

lemma ends_Done: "taken w n r \<Longrightarrow> ends k F n w"
  unfolding ends_def by (rule taken_Done)

lemma ends_Clean:
  assumes "pc_of w 0 = Uds_Clean r" "\<not> socket_is_live (connect n)"
    and "if r = Inr () then at_path w = Some (Sock 0 True) else at_path w = n \<or> at_path w = None"
  shows "ends (Suc k) F n w"
  unfolding ends_Suc using assms
  by (intro ends_Done [where r = "uds_result r"])
    (auto simp: uds_step_def taken_def goto_def uds_result_def split: sum.split if_splits)

lemma ends_Move:
  assumes "pc_of w 0 = Uds_Move" "\<not> socket_is_live (connect n)" "at_path w = n \<or> at_path w = None"
    and "staged w 0 = Some (Some (Sock 0 True))"
  shows "ends (Suc (Suc k)) F n w"
  unfolding ends_Suc [of "Suc k"] using assms
  by (intro ends_Clean [where r = "fst (rename_no_replace F 0 w)"])
    (auto simp: uds_step_def goto_def rename_no_replace_def split: option.split)

lemma ends_Chmod:
  assumes "pc_of w 0 = Uds_Chmod" "\<not> socket_is_live (connect n)" "at_path w = n \<or> at_path w = None"
  shows "ends (Suc (Suc (Suc k))) F n w"
proof (cases "f_chmod F 0")
  case None
  with assms show ?thesis
    unfolding ends_Suc [of "Suc (Suc k)"] by (intro ends_Move) (auto simp: uds_step_def goto_def)
next
  case (Some e)
  with assms show ?thesis
    unfolding ends_Suc [of "Suc (Suc k)"]
    by (intro ends_Clean [where r = "Inl e"]) (auto simp: uds_step_def goto_def)
qed

lemma ends_Bind:
  assumes "pc_of w 0 = Uds_Bind" "\<not> socket_is_live (connect n)" "at_path w = n \<or> at_path w = None"
  shows "ends (Suc (Suc (Suc (Suc k)))) F n w"
proof (cases "f_bind F 0")
  case None
  with assms show ?thesis
    unfolding ends_Suc [of "Suc (Suc (Suc k))"] by (intro ends_Chmod) (auto simp: uds_step_def goto_def)
next
  case (Some e)
  with assms show ?thesis
    unfolding ends_Suc [of "Suc (Suc (Suc k))"]
    by (intro ends_Clean [where r = "Inl e"]) (auto simp: uds_step_def goto_def)
qed

lemma ends_Stage:
  assumes "pc_of w 0 = Uds_Stage" "\<not> socket_is_live (connect n)" "at_path w = n \<or> at_path w = None"
    and "staged w 0 = None"
  shows "ends (Suc (Suc (Suc (Suc (Suc k))))) F n w"
proof (cases "f_stage F 0")
  case None
  with assms show ?thesis
    unfolding ends_Suc [of "Suc (Suc (Suc (Suc k)))"] by (intro ends_Bind) (auto simp: uds_step_def goto_def)
next
  case (Some e)
  with assms show ?thesis
    unfolding ends_Suc [of "Suc (Suc (Suc (Suc k)))"]
    by (intro ends_Done [where r = "Inl (Http_Io e)"]) (auto simp: uds_step_def goto_def taken_def)
qed

lemma ends_Remove:
  assumes "pc_of w 0 = Uds_Remove" "\<not> socket_is_live (connect n)" "at_path w = n" "staged w 0 = None"
  shows "ends (Suc (Suc (Suc (Suc (Suc (Suc k)))))) F n w"
proof (cases "f_remove F 0")
  case None
  with assms show ?thesis
    unfolding ends_Suc [of "Suc (Suc (Suc (Suc (Suc k))))"]
    by (intro ends_Stage) (auto simp: uds_step_def goto_def)
next
  case (Some e)
  show ?thesis
  proof (cases "io_kind_of e = IO_NotFound")
    case True
    with assms Some show ?thesis
      unfolding ends_Suc [of "Suc (Suc (Suc (Suc (Suc k))))"]
      by (intro ends_Stage) (auto simp: uds_step_def goto_def)
  next
    case False
    with assms Some show ?thesis
      unfolding ends_Suc [of "Suc (Suc (Suc (Suc (Suc k))))"]
      by (intro ends_Done [where r = "Inl (Http_Io e)"]) (auto simp: uds_step_def goto_def taken_def)
  qed
qed

lemma ends_Probe:
  assumes "pc_of w 0 = Uds_Probe" "at_path w = n" "staged w 0 = None"
  shows "ends (Suc (Suc (Suc (Suc (Suc (Suc (Suc k))))))) F n w"
proof (cases "socket_is_live (connect n)")
  case True
  with assms show ?thesis
    unfolding ends_Suc [of "Suc (Suc (Suc (Suc (Suc (Suc k)))))"]
    by (intro ends_Done [where r = "Inl SocketInUse"]) (auto simp: uds_step_def goto_def taken_def)
next
  case False
  with assms show ?thesis
    unfolding ends_Suc [of "Suc (Suc (Suc (Suc (Suc (Suc k)))))"]
    by (intro ends_Remove) (auto simp: uds_step_def goto_def)
qed

lemma bind_uds_taken: "\<exists>r. taken (bind_uds F n) n r"
proof -
  have "ends (Suc (Suc (Suc (Suc (Suc (Suc (Suc (Suc 0)))))))) F n (uds_start n)"
  proof (cases "f_parent F 0")
    case None
    then show ?thesis
      unfolding ends_Suc [of "Suc (Suc (Suc (Suc (Suc (Suc (Suc 0))))))"]
      by (intro ends_Probe) (auto simp: uds_step_def goto_def uds_start_def)
  next
    case (Some e)
    then show ?thesis
      unfolding ends_Suc [of "Suc (Suc (Suc (Suc (Suc (Suc (Suc 0))))))"]
      by (intro ends_Done [where r = "Inl (Http_Io e)"])
        (auto simp: uds_step_def goto_def uds_start_def taken_def)
  qed
  moreover have "(8 :: nat) = Suc (Suc (Suc (Suc (Suc (Suc (Suc (Suc 0)))))))" by simp
  ultimately show ?thesis by (simp only: ends_def bind_uds_def)
qed

end
