(* ===== verification/Shutdown.thy ===== *)
theory Shutdown
  imports Startup
begin

text \<open>
  How a serving daemon ends (\<open>src/main.rs\<close>): the signals it waits for, the bounded join of the
  reconcile task, the tasks that are aborted, and the exit code of the process. Which handlers could
  be registered and when the task left its loop are arguments.
\<close>

section \<open>Signals\<close>

datatype signal = SIGTERM | SIGINT | SIGHUP | Ctrl_C

text \<open>A signal whose handler could not be registered is never seen by the wait.\<close>

definition ends_wait :: "platform \<Rightarrow> (signal \<Rightarrow> bool) \<Rightarrow> signal \<Rightarrow> bool" where
  "ends_wait p registered s \<longleftrightarrow>
     registered s \<and> (if p = Windows then s = Ctrl_C else s = SIGTERM \<or> s = SIGINT)"

text \<open>The signal that ends the wait, \<open>None\<close> while it goes on.\<close>

fun wait_for_shutdown :: "platform \<Rightarrow> (signal \<Rightarrow> bool) \<Rightarrow> signal list \<Rightarrow> signal option" where
  "wait_for_shutdown p registered [] = None"
| "wait_for_shutdown p registered (s # ss) =
     (if ends_wait p registered s then Some s else wait_for_shutdown p registered ss)"

text \<open>\<open>SIGHUP\<close> is acknowledged in the log and changes nothing: the number of acknowledgements.\<close>

definition sighup_task :: "(signal \<Rightarrow> bool) \<Rightarrow> signal list \<Rightarrow> nat" where
  "sighup_task registered ss = (if registered SIGHUP then count_list ss SIGHUP else 0)"

section \<open>The end of the tasks\<close>

definition SHUTDOWN_JOIN_TIMEOUT :: time where
  "SHUTDOWN_JOIN_TIMEOUT = from_secs 15"

datatype task = T_Reconcile | T_Procmon | T_Http | T_Socket | T_Sighup | T_Presence

datatype joined = Exited_Cleanly | Panicked | Abandoned

text \<open>
  The join, from the instant \<open>t\<close> of the cancellation. \<open>left\<close> is the instant the reconcile task left its
  loop and whether it panicked; the instant of the result is when the teardown goes on.
\<close>

definition join_reconcile :: "time \<Rightarrow> (time \<times> bool) option \<Rightarrow> joined \<times> time" where
  "join_reconcile t left =
     (case left of
        Some (t', panicked) \<Rightarrow>
          if t' \<le> t + SHUTDOWN_JOIN_TIMEOUT
          then (if panicked then Panicked else Exited_Cleanly, max t t')
          else (Abandoned, t + SHUTDOWN_JOIN_TIMEOUT)
      | None \<Rightarrow> (Abandoned, t + SHUTDOWN_JOIN_TIMEOUT))"

definition aborted :: "platform \<Rightarrow> config \<Rightarrow> task list" where
  "aborted p cfg =
     [T_Procmon, T_Http]
     @ (if p \<noteq> Windows \<and> socket_path cfg \<noteq> [] then [T_Socket] else [])
     @ (if p \<noteq> Windows then [T_Sighup] else [])
     @ (if presence_detection cfg then [T_Presence] else [])"

text \<open>
  The exit code of \<open>daemon::run\<close>: a runtime that cannot be built or a failed start is an error, being
  disabled is not; \<open>None\<close> while the daemon serves, and 0 once the wait for a signal has ended.
\<close>

definition daemon_run ::
  "io_error option \<Rightarrow> 'w start_outcome \<Rightarrow> platform \<Rightarrow> (signal \<Rightarrow> bool) \<Rightarrow> signal list \<Rightarrow> int option" where
  "daemon_run runtime started p registered ss =
     (case runtime of
        Some _ \<Rightarrow> Some 1
      | None \<Rightarrow>
          (case started of
             Start_Error _ _ \<Rightarrow> Some 1
           | Start_Disabled \<Rightarrow> Some 0
           | Serving _ _ _ _ \<Rightarrow> map_option (\<lambda>_. 0) (wait_for_shutdown p registered ss)))"

section \<open>Lemmas\<close>

lemma reconcile_not_aborted: "T_Reconcile \<notin> set (aborted p cfg)"
  by (simp add: aborted_def)

lemma joined_cleanly:
  "fst (join_reconcile t (Some (t', False))) = Exited_Cleanly \<longleftrightarrow> t' \<le> t + from_secs 15"
  by (simp add: join_reconcile_def SHUTDOWN_JOIN_TIMEOUT_def)

lemma join_bounded: "snd (join_reconcile t left) \<le> t + SHUTDOWN_JOIN_TIMEOUT"
  by (auto simp: join_reconcile_def split: option.split)

lemma wait_for_shutdown_find: "wait_for_shutdown p registered ss = find (ends_wait p registered) ss"
  by (induction ss) simp_all

end
