(* ===== verification/Daemon_Liveness.thy ===== *)
theory Daemon_Liveness
  imports Daemon_Laws Shutdown Sample_Pass
begin

text \<open>
  What a running daemon gets done: every request it accepted can be answered from any state, a
  burst of process events ends in a pass, and what a stopping daemon leaves behind.
\<close>

section \<open>Steps\<close>

abbreviation daemon_steps where
  "daemon_steps E cfg b \<equiv> (daemon_step E cfg b)\<^sup>*\<^sup>*"

lemma reachable_steps: "daemon_steps E cfg b d d' \<Longrightarrow> reachable E cfg b d \<Longrightarrow> reachable E cfg b d'"
  by (induction rule: rtranclp_induct) (auto intro: reachable.Step)

text \<open>The scans of a log; every pass adds at least one.\<close>

definition scans :: "'w daemon \<Rightarrow> nat" where
  "scans d = length (filter is_scan (sys_log (d_sys d)))"

lemma pass_scans:
  assumes "run_state (reconcile_with E cfg b pv trig) s = (r, s')"
  shows "length (filter is_scan (sys_log s)) < length (filter is_scan (sys_log s'))"
proof -
  obtain s1 sc s2 where 1: "run_state (handle_trigger E cfg b trig) (counted trig s) = ((), s1)"
    and 2: "run_state (on_host (scan_claims E cfg)) s1 = (sc, s2)"
    and rest: "run_state (case sc of Inl e \<Rightarrow> State_Monad.return (Inl e)
       | Inr cs \<Rightarrow> after_scan E cfg b pv cs) s2 = (r, s')"
    using reconcile_run [OF assms] .
  obtain ts where ts: "sys_log s1 = ts @ sys_log s" using trigger_trace [OF 1] by auto
  obtain es where "sys_log s' = es @ sys_log s2"
  proof (cases sc)
    case (Inl e)
    then show ?thesis using that [of "[]"] rest by simp
  next
    case (Inr cs)
    then have "run_state (after_scan E cfg b pv cs) s2 = (r, s')" using rest by simp
    then show ?thesis using that after_scan_trace by blast
  qed
  then show ?thesis using scan_trace [OF 2] ts by simp
qed

lemma run_pass_scans: "scans d < scans (run_pass E cfg b pv t d)"
  unfolding scans_def run_pass_simps by (rule pass_scans [OF prod.collapse [symmetric]])

lemma scans_frame [simp]:
  "scans (d\<lparr> d_queue := q \<rparr>) = scans d"
  "scans (d\<lparr> d_sent := ids \<rparr>) = scans d"
  "scans (d\<lparr> d_debounce := dl \<rparr>) = scans d"
  "scans (d\<lparr> d_cancelled := c \<rparr>) = scans d"
  "scans (d\<lparr> d_running := c \<rparr>) = scans d"
  "scans (d\<lparr> d_sys := (d_sys d)\<lparr> sys_host := (sys_host (d_sys d))\<lparr> hclock := t, hworld := w \<rparr> \<rparr> \<rparr>) = scans d"
  by (simp_all add: scans_def sys_log_def)

lemma run_pass_scans_frame:
  "scans d < scans (run_pass E cfg b pv t (d\<lparr> d_queue := q \<rparr>))"
  "scans d < scans (run_pass E cfg b pv t (d\<lparr> d_debounce := dl \<rparr>))"
  "scans d < scans (run_pass E cfg b pv t (d\<lparr> d_queue := q, d_debounce := dl \<rparr>))"
  using run_pass_scans [of "d\<lparr> d_queue := q \<rparr>" E cfg b pv t]
    run_pass_scans [of "d\<lparr> d_debounce := dl \<rparr>" E cfg b pv t]
    run_pass_scans [of "d\<lparr> d_queue := q, d_debounce := dl \<rparr>" E cfg b pv t] by simp_all

lemmas pass_adds_scan = run_pass_scans run_pass_scans_frame

lemma scans_step: "daemon_step E cfg b d d' \<Longrightarrow> scans d \<le> scans d'"
  by (cases rule: daemon_step.cases) (auto intro!: less_imp_le [OF pass_adds_scan(1)]
      less_imp_le [OF pass_adds_scan(2)] less_imp_le [OF pass_adds_scan(3)] less_imp_le [OF pass_adds_scan(4)])

lemma scans_steps: "daemon_steps E cfg b d d' \<Longrightarrow> scans d \<le> scans d'"
  by (induction rule: rtranclp_induct) (auto dest: scans_step)

section \<open>A burst ends in a pass\<close>

text \<open>While the reconcile task sits in the debounce, its deadline lies at most one window ahead.\<close>

definition window_ok :: "'w daemon \<Rightarrow> bool" where
  "window_ok d \<longleftrightarrow> (case d_debounce d of None \<Rightarrow> True
     | Some dl \<Rightarrow> d_running d \<and> dl \<le> daemon_clock d + DEBOUNCE)"

lemma window_step: "daemon_step E cfg b d d' \<Longrightarrow> window_ok d \<Longrightarrow> window_ok d'"
  by (cases rule: daemon_step.cases)
    (auto simp: window_ok_def daemon_clock_def split: option.splits)

lemma reachable_window: "reachable E cfg b d \<Longrightarrow> window_ok d"
proof (induction rule: reachable.induct)
  case (Boot h pv d)
  then show ?case by (auto simp: boot_def window_ok_def split: prod.splits if_splits)
next
  case (Step d d')
  then show ?case by (blast intro: window_step)
qed

lemma deadline_step:
  "daemon_step E cfg b d d' \<Longrightarrow> d_debounce d = Some dl \<Longrightarrow> d_running d \<Longrightarrow>
     scans d < scans d' \<or> d_debounce d' = Some dl \<and> d_running d' \<and> scans d' = scans d"
  by (cases rule: daemon_step.cases)
    (auto simp: pass_adds_scan)

lemma deadline_steps:
  assumes "daemon_steps E cfg b d d'" and "d_debounce d = Some dl" and "d_running d"
  shows "scans d < scans d' \<or> d_debounce d' = Some dl \<and> d_running d'"
  using assms(1)
proof (induction rule: rtranclp_induct)
  case base
  then show ?case using assms by simp
next
  case (step x y)
  show ?case
  proof (cases "scans d < scans x")
    case True
    with scans_step [OF step(2)] show ?thesis by simp
  next
    case False
    then have "d_debounce x = Some dl" "d_running x" using step.IH by simp_all
    from deadline_step [OF step(2) this] scans_steps [OF step(1)] show ?thesis by auto
  qed
qed

text \<open>
  C12: A burst of process events ends in a pass. From the moment the debounce opens its deadline is at
  most 150 ms away and never moves, however many events follow: after any further steps either a pass
  has run, or the same deadline stands, and once it is due the pass that ends the burst can run.
\<close>

theorem burst_ends_in_pass:
  assumes "reachable E cfg b d" and "d_debounce d = Some dl" and "daemon_steps E cfg b d d'"
  shows "dl \<le> daemon_clock d + from_millis 150
    \<and> (scans d < scans d' \<or> d_debounce d' = Some dl
         \<and> (dl \<le> daemon_clock d' \<longrightarrow> (\<exists>d''. daemon_step E cfg b d' d'' \<and> scans d' < scans d'' \<and> d_debounce d'' = None)))"
proof -
  have w: "d_running d" "dl \<le> daemon_clock d + DEBOUNCE"
    using reachable_window [OF assms(1)] assms(2) by (simp_all add: window_ok_def)
  have expire: "\<exists>d''. daemon_step E cfg b d' d'' \<and> scans d' < scans d'' \<and> d_debounce d'' = None"
    if "d_debounce d' = Some dl" "d_running d'" "dl \<le> daemon_clock d'"
    using daemon_step.Expire [OF that(2,1,3), of E cfg b default_presence] pass_adds_scan(3)
    by (metis run_pass_simps(3) daemon.simps(3) daemon.surjective daemon.update_convs(3))
  from deadline_steps [OF assms(3,2) w(1)] w(2) show ?thesis
    using expire by (auto simp: DEBOUNCE_def)
qed

text \<open>The daemon after its startup, with one process event taken and one more queued.\<close>

definition burst_daemon :: "sample_world daemon" where
  "burst_daemon = (sample_daemon (idle_world [] []))
     \<lparr> d_sent := [], d_queue := [ProcEvent],
        d_debounce := Some (daemon_clock (sample_daemon (idle_world [] [])) + DEBOUNCE) \<rparr>"

lemma sample_daemon_idle:
  "d_queue (sample_daemon (idle_world [] [])) = []" "d_debounce (sample_daemon (idle_world [] [])) = None"
  "d_running (sample_daemon (idle_world [] []))" "d_sent (sample_daemon (idle_world [] [])) = []"
  by code_simp+

lemma burst_reachable: "reachable (sample_os Linux) sample_cfg Nvidia burst_daemon"
proof -
  let ?d = "sample_daemon (idle_world [] [])"
  note step = reachable.Step [of "sample_os Linux" sample_cfg Nvidia]
  have 1: "reachable (sample_os Linux) sample_cfg Nvidia (?d\<lparr> d_queue := [ProcEvent], d_sent := [] \<rparr>)"
    using step [OF idle_reachable daemon_step.Enqueue [of ?d ProcEvent]] sample_daemon_idle
    by (simp add: TRIGGER_CHANNEL_DEPTH_def)
  have 2: "reachable (sample_os Linux) sample_cfg Nvidia (?d\<lparr> d_queue := [ProcEvent, ProcEvent], d_sent := [] \<rparr>)"
    using step [OF 1 daemon_step.Enqueue [of "?d\<lparr> d_queue := [ProcEvent], d_sent := [] \<rparr>" ProcEvent]] sample_daemon_idle
    by (simp add: TRIGGER_CHANNEL_DEPTH_def)
  show ?thesis
    using step [OF 2 daemon_step.Burst [of "?d\<lparr> d_queue := [ProcEvent, ProcEvent], d_sent := [] \<rparr>" "[ProcEvent]"]]
      sample_daemon_idle
    by (simp add: burst_daemon_def daemon_clock_def)
qed

lemma burst_running: "d_running burst_daemon" "d_queue burst_daemon = [ProcEvent]"
  by (simp_all add: burst_daemon_def sample_daemon_idle)

theorem burst_ends_in_pass_witness:
  "\<exists>d' d''. d_queue d' = [] \<and> daemon_step (sample_os Linux) sample_cfg Nvidia d' d'' \<and> scans d' < scans d''"
proof -
  define dl where "dl = daemon_clock (sample_daemon (idle_world [] [])) + DEBOUNCE"
  have dl: "d_debounce burst_daemon = Some dl" by (simp add: burst_daemon_def dl_def)
  define d1 where "d1 = burst_daemon\<lparr> d_queue := [] \<rparr>"
  define d' where "d' = d1\<lparr> d_sys := (d_sys d1)\<lparr> sys_host := (sys_host (d_sys d1))
     \<lparr> hclock := hclock (sys_host (d_sys d1)) + DEBOUNCE, hworld := hworld (sys_host (d_sys d1)) \<rparr> \<rparr> \<rparr>"
  have "daemon_step (sample_os Linux) sample_cfg Nvidia burst_daemon d1"
    unfolding d1_def by (rule daemon_step.Absorb [OF burst_running(1) dl burst_running(2)])
  moreover have "daemon_step (sample_os Linux) sample_cfg Nvidia d1 d'"
    unfolding d'_def by (rule daemon_step.World)
  ultimately have "daemon_steps (sample_os Linux) sample_cfg Nvidia burst_daemon d'" by simp
  note fin = burst_ends_in_pass [OF burst_reachable dl this]
  have due: "dl \<le> daemon_clock d'" by (simp add: d'_def d1_def burst_daemon_def daemon_clock_def dl_def)
  have same: "scans d' = scans burst_daemon" unfolding d'_def by (simp only: scans_frame d1_def)
  have "d_queue d' = []" by (simp add: d'_def d1_def)
  moreover have "\<exists>d''. daemon_step (sample_os Linux) sample_cfg Nvidia d' d'' \<and> scans d' < scans d''"
    using fin due same by auto
  ultimately show ?thesis by blast
qed

section \<open>Requests\<close>

text \<open>A running task takes the head of its queue, and handling a manual trigger answers it.\<close>

lemma take_head:
  assumes "d_running d" and "d_queue d = t # q"
  shows "\<exists>d'. daemon_step E cfg b d d' \<and> d_running d' \<and> d_queue d' = q \<and> d_sent d' = d_sent d"
proof (cases "t = ProcEvent")
  case True
  show ?thesis
  proof (cases "d_debounce d")
    case None
    with True assms daemon_step.Burst [of d q E cfg b] show ?thesis by fastforce
  next
    case (Some dl)
    with True assms daemon_step.Absorb [of d dl q E cfg b] show ?thesis by fastforce
  qed
next
  case False
  show ?thesis
  proof (cases "d_debounce d")
    case None
    with False assms daemon_step.Receive [of d t q E cfg b default_presence] show ?thesis by fastforce
  next
    case (Some dl)
    with False assms daemon_step.Carry [of d dl t q E cfg b default_presence] show ?thesis by fastforce
  qed
qed

lemma drain_queue:
  "d_running d \<Longrightarrow> \<exists>d'. (daemon_step E cfg b ^^ length (d_queue d)) d d' \<and> d_running d' \<and> d_queue d' = []
     \<and> d_sent d' = d_sent d"
proof (induction "d_queue d" arbitrary: d)
  case Nil
  then show ?case by (intro exI [of _ d]) simp
next
  case (Cons t q)
  obtain d1 where 1: "daemon_step E cfg b d d1" "d_running d1" "d_queue d1 = q" "d_sent d1 = d_sent d"
    using take_head [OF Cons.prems Cons.hyps(2) [symmetric]] by blast
  obtain d' where 2: "(daemon_step E cfg b ^^ length q) d1 d'" "d_running d'" "d_queue d' = []"
      "d_sent d' = d_sent d1"
    using Cons.hyps(1) [OF 1(3) [symmetric] 1(2)] 1(3) by auto
  have "(daemon_step E cfg b ^^ Suc (length q)) d d'"
    using 1(1) 2(1) by (rule relpowp_Suc_I2)
  then show ?case using 2 1(4) Cons.hyps(2) by (intro exI [of _ d']) (simp flip: Cons.hyps(2))
qed

text \<open>
  C13: No accepted request is ever stuck. From every reachable state of a running daemon, as many steps
  of the reconcile task as there are triggers queued bring it to a state, still running, in which all
  the manual triggers ever accepted have been answered, in the order they were accepted.
\<close>

theorem requests_can_be_answered:
  assumes "reachable E cfg b d" and "d_running d"
  shows "\<exists>d'. (daemon_step E cfg b ^^ length (d_queue d)) d d' \<and> d_running d' \<and> d_queue d' = []
    \<and> map fst (sys_replies (d_sys d')) = d_sent d"
proof -
  obtain d' where d': "(daemon_step E cfg b ^^ length (d_queue d)) d d'" "d_running d'" "d_queue d' = []"
      "d_sent d' = d_sent d"
    using drain_queue [OF assms(2)] by blast
  have "reachable E cfg b d'"
    using reachable_steps [OF relpowp_imp_rtranclp [OF d'(1)] assms(1)] .
  from reachable_accounted [OF this] d' show ?thesis by (auto simp: accounted_def)
qed

theorem requests_can_be_answered_witness:
  "\<exists>d'. (daemon_step (sample_os Linux) sample_cfg Nvidia ^^ 1) burst_daemon d' \<and> d_queue d' = []"
  using requests_can_be_answered [OF burst_reachable burst_running(1)] burst_running(2) by auto

section \<open>The end\<close>





text \<open>
  Beyond the 15 s the pass is abandoned wherever it is. On a host where every command takes 6 s, which
  is within the 10 s each may take, an undisturbed eviction outlasts the join of a shutdown that was
  requested when it began.
\<close>

definition slow_os :: "sample_world os" where
  "slow_os = (sample_os Linux)\<lparr> os_run := (\<lambda>limit cmd w. case sample_run cmd w of
     (r, w') \<Rightarrow> (r, from_secs 6, w')) \<rparr>"

theorem shutdown_can_abandon_eviction:
  "case run_state (evict slow_os sample_cfg Nvidia (hd default_managed_units))
       (sample_host (idle_world [''ollama.service''] [])) of
     (r, h) \<Rightarrow> r = Inr Freed \<and> fst (join_reconcile 0 (Some (hclock h, False))) = Abandoned"
  by code_simp

end
