(* ===== verification/Game_Properties.thy ===== *)
theory Game_Properties
  imports Detection_Properties Restore_Properties Daemon_Liveness
begin

text \<open>
  What the program is for, from the process table to the daemon: while a game's process is there to be
  seen, the daemon gives the GPU to nobody else. The detection (\<open>Detection_Properties\<close>) supplies what
  every scan answers, the trace of a pass (\<open>Pass_Log\<close>) and its effect on the state (\<open>Pass_Spec\<close>) the rest.
\<close>

section \<open>A pass whose scans see a game\<close>

definition no_grant :: "event list \<Rightarrow> bool" where
  "no_grant es \<longleftrightarrow> list_all (\<lambda>e. \<not> grant e) es"

lemma no_grant_simps [simp]:
  "no_grant []" "no_grant (fs @ es) \<longleftrightarrow> no_grant fs \<and> no_grant es" "no_grant [Ev_Scan c]"
  by (simp_all add: no_grant_def)

lemma no_grant_plain: "list_all (plain A) es \<Longrightarrow> ''start'' \<notin> set A \<Longrightarrow> ''resume'' \<notin> set A \<Longrightarrow> no_grant es"
  using plain_no_grant [of A es] by (auto simp: no_grant_def list_all_iff)

text \<open>Every scan answers the claims \<open>C\<close>, and there is one.\<close>

definition scans_see :: "'w os \<Rightarrow> config \<Rightarrow> claim list \<Rightarrow> bool" where
  "scans_see E cfg C \<longleftrightarrow> C \<noteq> [] \<and> (\<forall>h. fst (run_state (scan_claims E cfg) h) = Inr C)"

lemma scan_sees:
  assumes "scans_see E cfg C"
  shows "emits (scan_claims E cfg) (\<lambda>r es. r = Inr C \<and> es = [Ev_Scan (Some C)])"
proof (rule emitsI)
  fix h r h'
  assume run: "run_state (scan_claims E cfg) h = (r, h')"
  have "r = Inr C" using assms run by (metis fst_conv scans_see_def)
  with emitsE [OF emits_scan_claims run]
  show "\<exists>es. hlog h' = es @ hlog h \<and> r = Inr C \<and> es = [Ev_Scan (Some C)]" by auto
qed

lemma claim_seen:
  assumes "scans_see E cfg C"
  shows "traces (claim_appeared E cfg) (\<lambda>r es. r = Inr True \<and> no_grant es)"
  unfolding claim_appeared_def
  by (rule traces_bind [OF traces_on_host [OF scan_sees [OF assms]]])
    (use assms in \<open>auto simp: scans_see_def ensure_running_toctou_clear_def intro: traces_return\<close>)

text \<open>A manual start is refused before anything is started.\<close>

lemma start_check_refuses:
  assumes "scans_see E cfg C"
  shows "traces (manual_start_check E cfg u r) (\<lambda>g es. (\<forall>q. g \<noteq> Gate_Proceed q) \<and> no_grant es)"
proof -
  let ?P = "\<lambda>g es. (\<forall>q. g \<noteq> Gate_Proceed q) \<and> no_grant es"
  have reply: "traces (send_reply r x \<bind> (\<lambda>_. State_Monad.return g)) (\<lambda>g fs. ?P g (fs @ es))"
    if "no_grant es" "\<And>q. g \<noteq> Gate_Proceed q" for x g es
    using that by (intro traces_bind [OF traces_send_reply [where P = "\<lambda>_ es. es = []"]] traces_return) simp_all
  have pre: "traces (preempting_tenant E cfg u) (\<lambda>_ es. no_grant es)"
    by (rule traces_mono [OF plain_preempting_tenant [unfolded all_events_def]]) (erule no_grant_plain; simp)
  show ?thesis
    unfolding manual_start_check_def
  proof (rule traces_bind [OF traces_get_arb [where P = "\<lambda>_ es. es = []"]], simp, clarsimp split del: if_split, goal_cases)
    case (1 a)
    show ?case
    proof (cases "cur_state a = Gaming \<or> cur_state a = Evicting")
      case True
      then show ?thesis using reply [of "[]" Gate_Refused "Inl GpuHeldByGame"] by simp
    next
      case False
      show ?thesis
        unfolding if_not_P [OF False]
      proof (rule traces_bind [OF pre], goal_cases)
        case (1 v es)
        show ?case
        proof (cases v)
          case (Some x)
          then show ?thesis using reply [OF 1, of Gate_Refused "Inl PreemptedByTenant"] by simp
        next
          case None
          have "traces (claim_appeared E cfg \<bind> (\<lambda>c. case c of
              Inr False \<Rightarrow> State_Monad.return (Gate_Proceed r)
            | Inr True \<Rightarrow> send_reply r (Inl GpuHeldByGame) \<bind> (\<lambda>_. State_Monad.return Gate_Refused)
            | Inl e \<Rightarrow> send_reply r (Inl Failed) \<bind> (\<lambda>_. State_Monad.return Gate_Failed)))
            (\<lambda>g fs. ?P g (fs @ es))"
          proof (rule traces_bind [OF claim_seen [OF assms]], goal_cases)
            case (1 c sc)
            then show ?case
              using reply [of "sc @ es" Gate_Refused "Inl GpuHeldByGame"] \<open>no_grant es\<close> by simp
          qed
          then show ?thesis by (simp add: None)
        qed
      qed
    qed
  qed
qed

lemma trigger_grants_nothing:
  assumes "scans_see E cfg C" and "run_state (handle_trigger E cfg b trig) s = ((), s')"
  shows "\<exists>es. sys_log s' = es @ sys_log s \<and> no_grant es"
proof (cases "is_manual_start trig")
  case True
  then obtain u q where trig: "trig = ManualStart u q" by (cases trig) (simp_all add: is_manual_start_def)
  have "traces (handle_manual_start E cfg u q) (\<lambda>_ es. no_grant es)"
    unfolding handle_manual_start_def
  proof (rule traces_bind [OF start_check_refuses [OF assms(1)]], goal_cases)
    case (1 g es)
    then show ?case by (cases g) (auto intro: traces_return)
  qed
  note start = this
  have "run_state (handle_manual_start E cfg u q) s = ((), s')"
    using assms(2) by (simp add: trig handle_trigger_def)
  from tracesE [OF start this] show ?thesis by blast
next
  case False
  obtain ts where ts: "sys_log s' = ts @ sys_log s" "guarded ts"
      "\<not> is_manual_start trig \<Longrightarrow> list_all (plain eviction_actions) ts"
    using trigger_trace [OF assms(2)] by blast
  from ts(3) [OF False] have "no_grant ts" by (rule no_grant_plain) simp_all
  with ts(1) show ?thesis by blast
qed

lemma game_pass:
  assumes see: "scans_see E cfg C" and run: "run_state (reconcile_with E cfg b pv trig) s = (r, s')"
  shows "cur_state (sys_arb s') = Gaming \<and> claims (sys_arb s') = C
    \<and> (\<exists>es. sys_log s' = es @ sys_log s \<and> no_grant es)"
proof -
  obtain s1 sc s2 where 1: "run_state (handle_trigger E cfg b trig) (counted trig s) = ((), s1)"
    and 2: "run_state (on_host (scan_claims E cfg)) s1 = (sc, s2)"
    and rest: "run_state (case sc of Inl e \<Rightarrow> State_Monad.return (Inl e)
       | Inr cs \<Rightarrow> after_scan E cfg b pv cs) s2 = (r, s')"
    using reconcile_run [OF run] .
  obtain es where scan: "sys_log s2 = es @ sys_log s1" "sc = Inr C \<and> es = [Ev_Scan (Some C)]"
    using tracesE [OF traces_on_host [OF scan_sees [OF see]] 2] .
  then have es: "sys_log s2 = es @ sys_log s1" "no_grant es" and sc: "sc = Inr C" by simp_all
  obtain ts where ts: "sys_log s1 = ts @ sys_log s" "no_grant ts"
    using trigger_grants_nothing [OF see 1] by auto
  have rest: "run_state (after_scan E cfg b pv C) s2 = (r, s')" using rest sc by simp
  have "debounce_game_exit cur (resolve_state C) p g t = (Gaming, None)" for cur p g t
    using see by (simp add: debounce_game_exit_def resolve_state_def scans_see_def)
  then have core: "cur_state (sys_arb s') = Gaming" "claims (sys_arb s') = C"
    using after_scan_core [OF rest] by (auto simp: decide_core_def core_of_def)
  obtain fs where fs: "sys_log s' = fs @ sys_log s2" "lawful cfg Gaming (held (sys_arb s2)) fs"
    using after_scan_trace [OF rest] core(1) by auto
  then have "no_grant fs" by (auto simp: lawful_def no_grant_def list_all_iff)
  with core es ts fs show ?thesis by simp
qed

section \<open>While a game is there to be seen\<close>

lemma sees_game:
  assumes "os_platform E = Linux" and "shows_procs E ps"
    and "(i, al) \<in> set ps" and "visible_line al = Some l" and "classify l cfg = Some c"
  shows "\<exists>C. scans_see E cfg C \<and> c \<in> set C"
proof -
  let ?S = "{c. \<exists>(i, al)\<in>set ps. \<exists>l. visible_line al = Some l \<and> classify l cfg = Some c}"
  have "?S \<subseteq> set (List.map_filter (\<lambda>(i, al). Option.bind (visible_line al) (\<lambda>l. classify l cfg)) ps)"
    by (force simp: map_filter_def bind_eq_Some_conv)
  then have fin: "finite ?S" by (rule finite_subset) simp
  moreover have "c \<in> ?S" using assms(3-5) by auto
  ultimately have "c \<in> set (sorted_list_of_set ?S)" by simp
  moreover from this have "sorted_list_of_set ?S \<noteq> []" by auto
  ultimately show ?thesis
    using scan_claims_shown [OF assms(1,2)] by (auto simp: scans_see_def)
qed

lemma world_frame:
  "sys_log (s\<lparr> sys_host := (sys_host s)\<lparr> hclock := t, hworld := w \<rparr> \<rparr>) = sys_log s"
  by (simp add: sys_log_def)

lemma game_step:
  assumes "scans_see E cfg C" and "daemon_step E cfg b d d'"
  shows "\<exists>es. sys_log (d_sys d') = es @ sys_log (d_sys d) \<and> no_grant es
    \<and> (sys_arb (d_sys d') = sys_arb (d_sys d) \<and> scans d' = scans d
       \<or> cur_state (sys_arb (d_sys d')) = Gaming \<and> claims (sys_arb (d_sys d')) = C)"
proof -
  have pass: "\<exists>es. sys_log (snd (run_state (reconcile_with E cfg b pv t) s)) = es @ sys_log s \<and> no_grant es
      \<and> cur_state (sys_arb (snd (run_state (reconcile_with E cfg b pv t) s))) = Gaming
      \<and> claims (sys_arb (snd (run_state (reconcile_with E cfg b pv t) s))) = C" for pv t s
    using game_pass [OF assms(1) prod.collapse [symmetric]] by blast
  from assms(2) show ?thesis
    by (cases rule: daemon_step.cases; simp add: world_frame; use pass in blast)
qed

text \<open>
  C2: While a game can be seen, nothing else gets the GPU. Suppose that on Linux some process whose
  command line can be read is a game under the configuration, and stays. Then, from any state of the
  daemon, whatever triggers, manual starts, timers and shutdowns come in whatever order, no start or
  resume command is ever issued, and from the first pass on the daemon is in \<open>Gaming\<close> and names that
  game among its claims.
\<close>

theorem visible_game_rules:
  assumes "os_platform E = Linux" and "shows_procs E ps"
    and "(i, al) \<in> set ps" and "visible_line al = Some l" and "classify l cfg = Some c"
    and "daemon_steps E cfg b d d'"
  shows "\<exists>es. sys_log (d_sys d') = es @ sys_log (d_sys d) \<and> list_all (\<lambda>e. \<not> grant e) es
    \<and> (scans d < scans d' \<longrightarrow> cur_state (sys_arb (d_sys d')) = Gaming \<and> c \<in> set (claims (sys_arb (d_sys d'))))"
proof -
  obtain C where see: "scans_see E cfg C" and c: "c \<in> set C" using sees_game [OF assms(1-5)] by blast
  from assms(6) have "\<exists>es. sys_log (d_sys d') = es @ sys_log (d_sys d) \<and> no_grant es
    \<and> (scans d < scans d' \<longrightarrow> cur_state (sys_arb (d_sys d')) = Gaming \<and> claims (sys_arb (d_sys d')) = C)"
  proof (induction rule: rtranclp_induct)
    case (step d1 d2)
    then obtain es where "sys_log (d_sys d1) = es @ sys_log (d_sys d)" "no_grant es"
        "scans d < scans d1 \<longrightarrow> cur_state (sys_arb (d_sys d1)) = Gaming \<and> claims (sys_arb (d_sys d1)) = C"
      by blast
    with game_step [OF see step.hyps(2)] show ?case by (auto simp: append_assoc [symmetric] simp del: append_assoc)
  qed simp
  with c show ?thesis by (auto simp: no_grant_def)
qed

text \<open>A game is up, and the operator has just asked for a start.\<close>

definition asked_daemon :: "sample_world daemon" where
  "asked_daemon =
     \<lparr> d_sys = sample_sys (idle_world [] []) Available, d_queue = [ManualStart ''ollama.service'' 7],
        d_debounce = None, d_cancelled = False, d_running = True, d_sent = [7] \<rparr>"

theorem visible_game_rules_witness:
  "\<exists>d'. daemon_step proc_os (default_config Linux) Nvidia asked_daemon d' \<and> d_queue d' = []
     \<and> cur_state (sys_arb (d_sys d')) = Gaming \<and> list_all (\<lambda>e. \<not> grant e) (sys_log (d_sys d'))"
proof -
  let ?d = "run_pass proc_os (default_config Linux) Nvidia default_presence (ManualStart ''ollama.service'' 7)
     (asked_daemon\<lparr> d_queue := [] \<rparr>)"
  have "d_running asked_daemon" "d_debounce asked_daemon = None" "d_queue asked_daemon = [ManualStart ''ollama.service'' 7]"
    by (simp_all add: asked_daemon_def)
  then have step: "daemon_step proc_os (default_config Linux) Nvidia asked_daemon ?d"
    by (rule daemon_step.Receive) simp
  then have steps: "daemon_steps proc_os (default_config Linux) Nvidia asked_daemon ?d" by (rule r_into_rtranclp)
  have "(9, Some [''reaper'', [], ''SteamLaunch AppId=440'']) \<in> set sample_procs_shown"
    by (simp add: sample_procs_shown_def)
  moreover have "visible_line (Some [''reaper'', [], ''SteamLaunch AppId=440'']) = Some ''reaper SteamLaunch AppId=440''"
      "classify ''reaper SteamLaunch AppId=440'' (default_config Linux) = Some (Steam ''440'')"
    by code_simp+
  moreover have "os_platform proc_os = Linux" by (simp add: proc_os_def sample_os_def)
  moreover have "sys_log (d_sys asked_daemon) = []" by (simp add: asked_daemon_def)
  moreover have "scans asked_daemon < scans ?d" by (rule run_pass_scans_frame)
  ultimately show ?thesis
    using visible_game_rules [OF _ sample_shown _ _ _ steps] step
    by (intro exI [of _ ?d]) force
qed

end
