(* ===== verification/Spec2Isabelle.thy ===== *)
theory Spec2Isabelle
  imports Gpu_Properties Decision_Properties Http_Properties Client_Properties Operator_Properties
    Game_Properties
begin

text \<open>
  gpu-arbiter is a daemon that hands one GPU over between games and managed services (a model
  server, a training job): when a game starts it stops the services and frees the card, when the
  game ends it starts them again, and a priority ladder lets a busy service preempt a lower one.
  This development models all of the Rust crate that computes or keeps state, from the parsers to
  the interleaving of the daemon's tasks, and proves what makes it correct.

  \<^bold>\<open>The program and its theories.\<close> One theory per component, named after the file of \<open>src/\<close> it
  models; the definitions keep the source's names and order.
  \<^item> \<open>Rust_Text\<close>: the functions of the Rust string library the parsers use, on UTF-8 byte lists.
  \<^item> \<open>Config\<close> (\<open>config.rs\<close>): the configuration, its defaults, \<open>from_toml\<close> and \<open>load\<close>.
  \<^item> \<open>Arbiter_State\<close> (\<open>state.rs\<close>): claims, the state \<open>Available\<close>, \<open>Evicting\<close>, \<open>Gaming\<close>, the triggers,
    the record behind the \<open>RwLock\<close>, the counters and histograms, the snapshot, RFC 3339 times.
  \<^item> \<open>Classify\<close>, \<open>Cgroup\<close>, \<open>Gpu\<close> (\<open>classify.rs\<close>, \<open>cgroup.rs\<close>, \<open>gpu.rs\<close>): from a command line to a claim,
    from a process to its unit, from the vendor tools' output to memory readings.
  \<^item> \<open>Units_Core\<close>, \<open>Units\<close>, \<open>Polling\<close>, \<open>Eviction\<close> (\<open>units.rs\<close>): supervisors, every control the daemon
    issues, the tenant hooks, and the eviction: stop, poll memory and run state, kill.
  \<^item> \<open>Reconcile_Core\<close>, \<open>Reconcile\<close> (\<open>reconcile.rs\<close>): the process scan, the pure decisions, and the
    whole reconcile pass, block by block.
  \<^item> \<open>Procmon\<close> (\<open>procmon.rs\<close>): the process-event listener, from its netlink set-up to its receive loop.
  \<^item> \<open>Presence\<close> (\<open>presence.rs\<close>): the input monitor, the device filter, the enumeration, the watcher.
  \<^item> \<open>Http\<close>, \<open>Http_Metrics\<close>, \<open>Control_Socket\<close> (\<open>http.rs\<close>): routes, guards and handlers, the metrics
    page, and the taking of the unix socket. \<open>Status_Json\<close>: the encoder and decoder \<open>state.rs\<close> derives.
  \<^item> \<open>Cli\<close> (\<open>cli.rs\<close>) and \<open>Client\<close> (\<open>main.rs\<close>, first half): the argument parser, \<open>status\<close>, \<open>wait\<close>, \<open>watch\<close>.
  \<^item> \<open>Daemon\<close>, \<open>Startup\<close>, \<open>Shutdown\<close> (\<open>main.rs\<close>, second half): the startup pass, the trigger channel, the
    reconcile task and the debounce; the start of the process up to the bound listeners; signals, the
    bounded join and the teardown.
  \<^item> \<open>Tray\<close> (\<open>bin/gpu-arbiter-tray.rs\<close>): icon, tooltip, menu, notifications, the fetch, the poll loop.
  \<open>GA_Prelude\<close> holds the machine types, the theorem collections and a weakest-precondition calculus
  for the state monad; \<open>Host\<close> the outside world; \<open>Counters\<close> the contract of the counters.

  \<^bold>\<open>How the parts interact.\<close> The listener and the HTTP handlers put triggers into one bounded channel;
  the reconcile task alone takes them out, runs a pass for each, changes the shared record and
  answers the manual ones; readers take snapshots. In the model a system state \<open>sys\<close> is a host (clock,
  world, ghost log of every control and scan), the shared record and the replies sent. A pass is a
  computation of the state monad on it, a daemon adds the channel, the debounce and the shutdown
  flag, and \<open>daemon_step\<close> interleaves the tasks. A pass is one step: the reconcile task looks at no
  trigger before its end, and what others do meanwhile (time, the world, new triggers) is in the
  outside world's answers and in the steps around it.

  \<^bold>\<open>The outside.\<close> What is not code of the repository is a parameter: the record \<open>'w os\<close> of the calls the
  daemon makes (processes, files, HTTP, clocks), each a function of a world it may change, so any
  host behaviour is covered, including failing, lying and changing ones; the TOML decoder; the JSON
  printers and the HTTP client in \<open>client_os\<close> and \<open>tray_os\<close>; the devices of one enumeration in
  \<open>input_view\<close>; the netlink library in \<open>netlink\<close>; what the kernel may refuse in \<open>uds_faults\<close>; the
  printing of a binary float. \<open>Sample_Host\<close> and \<open>Sample_Pass\<close>
  instantiate them for the witnesses.

  \<^bold>\<open>What is shown.\<close>
  \<^item> Whole runs (this theory, \<open>Daemon_Laws\<close>): a game always wins under any interleaving; every run is
    one of an abstract controller; a serving daemon started in order; the state is at rest between
    passes; manual triggers are answered once, in order; holds are sticky; counters never decrease.
  \<^item> From the process table to the daemon (\<open>Game_Properties\<close>): while a game's process can be seen, no
    sequence of steps starts or resumes anything, and the daemon is in \<open>Gaming\<close> from its first pass on.
  \<^item> Progress (\<open>Daemon_Liveness\<close>): a burst ends in a pass at a fixed deadline, accepted requests can always
    be answered, a shutdown lets the pass in flight finish within its bound.
  \<^item> One pass (\<open>Pass_State\<close>, \<open>Pass_Spec\<close>, \<open>Pass_Log\<close>, \<open>Pass_Properties\<close>, \<open>Restore_Properties\<close>): the
    refinement of the controller, which units may be started and which must be, what an eviction
    leaves, owed resumes, manual stops.
  \<^item> Decisions (\<open>Decision_Properties\<close>): the exit debounce over whole histories, the ladder, the backoff.
  \<^item> One eviction (\<open>Eviction_Properties\<close>, \<open>Gpu_Properties\<close>): success means the unit was seen stopped, the
    commands issued match the outcome, the kill is never early, it always ends, and the VRAM it
    attributes to a unit is what \<open>nvidia-smi\<close> and the cgroup files report.
  \<^item> Detection (\<open>Detection_Properties\<close>): a scan finds every game, classification, the parsers as inverses
    of the printers, no event lost silently, attribution, configuration.
  \<^item> Interfaces (\<open>Http_Properties\<close>, \<open>Operator_Properties\<close>, \<open>Client_Properties\<close>): the write path is gated and
    answered truthfully, the metrics page and the \<open>/status\<close> payload read back exactly (\<open>Exposition\<close> is
    the reader of the text format), the control socket under races and faults, presence, the tray,
    the argument grammar, the exit codes, and that \<open>status\<close>, \<open>wait\<close> and \<open>watch\<close> tell the daemon's state.

  \<^bold>\<open>Interfaces as locales.\<close> A monotonic counter family (\<open>Counters\<close>), a bounded polling loop (\<open>Polling\<close>,
  interpreted by both loops of the eviction and by \<open>wait\<close>), the critical sections of a pass
  (\<open>Pass_State\<close>, one locale extending another, interpreted by each invariant of the record), and an
  invariant of the daemon (\<open>Daemon\<close>).

  \<^bold>\<open>Bounds and termination.\<close> No definition has fuel. The two eviction loops and the loop of \<open>wait\<close> are
  total functions with the time left as measure: a pause lasts at least its nominal length. An
  eviction with a timeout of \<open>T\<close> seconds issues at most \<open>4 * T + 14\<close> controls, \<open>wait\<close> with \<open>t\<close> seconds polls
  at most \<open>(t + 1) div 2 + 1\<close> times, the trigger channel holds 64. \<open>watch\<close>, the listener, the tray and
  the daemon do not end: their behaviour is that of every finite number of rounds or steps. Integers
  are words of the source's width; a counter bumped once per event is a natural number, since it
  cannot reach \<open>2 ^ 64\<close> in the life of a process; time is in nanoseconds.

  \<^bold>\<open>Not modelled.\<close> Logging and its set-up (a log line is a definition only where it is a count or a text
  a user reads); the axum servers and the async runtime, input and output only; the spawning of the
  tasks, whose interleaving is that of the steps; the poisoning of the lock, which ends the process;
  the readings of the \<open>Observer\<close> seam that only tests implement; and the tests.
\<close>

section \<open>Properties of whole runs\<close>

text \<open>
  C1: A game always wins. In every reachable state, whatever the interleaving of triggers, timers,
  process events and changes of the world, every start or resume command the daemon ever issued
  was issued when its newest scan had succeeded and seen no claim.
\<close>

theorem game_always_wins:
  assumes "reachable E cfg b d" and "sys_log (d_sys d) = newer @ e # older" and "grant e"
  shows "last_scan older = Some []"
  using daemon_guarded.reachable_inv [OF assms(1)] guarded_split assms(2,3) by metis

theorem game_always_wins_witness:
  "\<exists>newer e older. sys_log (d_sys (sample_daemon (idle_world [] []))) = newer @ e # older
     \<and> grant e \<and> last_scan older = Some []"
proof -
  have "list_ex grant (sys_log (d_sys (sample_daemon (idle_world [] []))))"
    by code_simp
  then obtain newer e older where "sys_log (d_sys (sample_daemon (idle_world [] []))) = newer @ e # older" "grant e"
    by (auto simp: list_ex_iff in_set_conv_decomp)
  with game_always_wins [OF idle_reachable this] show ?thesis by blast
qed



text \<open>
  C11: A daemon that serves has started in order: the configuration is the decoded file with a grace of
  at most an hour, or the defaults if there is no file, and it is enabled, the startup
  pass ran and left one of the reachable states, the TCP port is bound, and, unless the platform or
  the configuration has none, the control socket is in place with mode \<open>0600\<close>, its staging directory
  is gone, and no live socket was displaced.
\<close>

theorem startup_serves:
  assumes "async_main E toml read path tcp F n h = Serving cfg b d sock" and "hlog h = []"
  shows "(case read path of
       Inr s \<Rightarrow> toml s = Inr cfg \<and> game_exit_grace_s cfg \<le> 3600
     | Inl (IoError k m) \<Rightarrow> k = IO_NotFound \<and> cfg = default_config (os_platform E))
    \<and> enabled cfg \<and> reachable E cfg b d \<and> tcp cfg = None
    \<and> (sock = None \<longleftrightarrow> os_platform E = Windows \<or> socket_path cfg = [])
    \<and> (\<forall>w. sock = Some w \<longrightarrow> at_path w = Some (Sock 0 True) \<and> staged w 0 = None
         \<and> \<not> socket_is_live (connect n))"
proof -
  let ?pv = "presence_view_of (presence_new (start_unix E cfg h))"
  have start: "load (os_platform E) toml read path = Inr cfg" "boot E cfg ?pv h = Some (b, d)"
      "tcp cfg = None" "take_socket (os_platform E) cfg F n = Inr sock"
    using assms(1) by (auto simp: async_main_def http_bind_def split: sum.splits option.splits)
  have "enabled cfg" using start(2) by (auto simp: boot_def split: prod.splits if_splits)
  moreover have "reachable E cfg b d" by (rule reachable.Boot [OF assms(2) start(2)])
  moreover obtain r where "taken (bind_uds F n) n r" using bind_uds_taken by blast
  then have "(sock = None \<longleftrightarrow> os_platform E = Windows \<or> socket_path cfg = [])
      \<and> (\<forall>w. sock = Some w \<longrightarrow> at_path w = Some (Sock 0 True) \<and> staged w 0 = None
           \<and> \<not> socket_is_live (connect n))"
    using start(4) by (auto simp: take_socket_def taken_def Let_def split: if_splits sum.splits)
  ultimately show ?thesis using start load_accepts by metis
qed

theorem startup_serves_witness:
  "\<exists>d w. async_main (sample_os Linux) (\<lambda>_. Inl ''no decoder'') (\<lambda>_. Inl (IoError IO_NotFound ''no file''))
       ''/etc/gpu-arbiter/config.toml'' (\<lambda>_. None) no_faults None (sample_host (idle_world [] []))
     = Serving sample_cfg Nvidia d (Some w) \<and> at_path w = Some (Sock 0 True)"
proof -
  let ?E = "sample_os Linux" and ?h = "sample_host (idle_world [] [])"
  let ?pv = "presence_view_of (presence_new (start_unix ?E sample_cfg ?h))"
  let ?start = "async_main ?E (\<lambda>_. Inl ''no decoder'') (\<lambda>_. Inl (IoError IO_NotFound ''no file''))
       ''/etc/gpu-arbiter/config.toml'' (\<lambda>_. None) no_faults None ?h"
  have "map_option fst (boot ?E sample_cfg ?pv ?h) = Some Nvidia" by code_simp
  then obtain d where boot: "boot ?E sample_cfg ?pv ?h = Some (Nvidia, d)" by auto
  have "case take_socket Linux sample_cfg no_faults None of Inr (Some w) \<Rightarrow> True | _ \<Rightarrow> False" by code_simp
  then obtain w where sock: "take_socket Linux sample_cfg no_faults None = Inr (Some w)"
    by (auto split: sum.splits option.splits)
  have "os_platform ?E = Linux" "load Linux (\<lambda>_. Inl ''no decoder'') (\<lambda>_. Inl (IoError IO_NotFound ''no file''))
      ''/etc/gpu-arbiter/config.toml'' = Inr sample_cfg"
    by (simp_all add: sample_os_def sample_cfg_def load_def)
  then have run: "?start = Serving sample_cfg Nvidia d (Some w)"
    using boot sock by (simp add: async_main_def http_bind_def)
  have "hlog ?h = []" by (simp add: sample_host_def)
  from startup_serves [OF run this] run show ?thesis by blast
qed

text \<open>
  Between passes the state machine is at rest: never in \<open>Evicting\<close>, and in \<open>Available\<close> only
  with no claim and no pending exit.
\<close>

theorem at_rest_between_passes:
  assumes "reachable E cfg b d"
  shows "cur_state (sys_arb (d_sys d)) = Gaming
    \<or> cur_state (sys_arb (d_sys d)) = Available \<and> claims (sys_arb (d_sys d)) = []
      \<and> game_exit_pending_since (sys_arb (d_sys d)) = None"
  using controller_settled [OF daemon_controlled.reachable_inv [OF assms]]
  by (auto simp: settled_def core_of_def)

theorem at_rest_between_passes_witness:
  "claims (sys_arb (d_sys (sample_daemon (game_world [] [])))) \<noteq> []
     \<and> cur_state (sys_arb (d_sys (sample_daemon (game_world [] [])))) = Gaming"
proof -
  have "claims (sys_arb (d_sys (sample_daemon (game_world [] [])))) \<noteq> []"
    by code_simp
  with at_rest_between_passes [OF game_reachable] show ?thesis by simp
qed

text \<open>
  C9: Every manual trigger the channel accepts is answered exactly once, in the order of acceptance, or
  still in the queue; no other is answered; and the queue holds at most 64 triggers.
\<close>

theorem manual_triggers_answered_once:
  assumes "reachable E cfg b d"
  shows "d_sent d = rev (concat (map reply_ids (d_queue d))) @ map fst (sys_replies (d_sys d))
    \<and> length (d_queue d) \<le> 64"
  using reachable_accounted [OF assms] reachable_queue_bounded [OF assms]
  by (simp add: accounted_def TRIGGER_CHANNEL_DEPTH_def)

theorem manual_triggers_answered_once_witness:
  "d_sent (sample_daemon (idle_world [] [])) = []"
proof -
  have "sys_replies (d_sys (sample_daemon (idle_world [] []))) = []"
      "d_queue (sample_daemon (idle_world [] [])) = []"
    by code_simp+
  with manual_triggers_answered_once [OF idle_reachable] show ?thesis by simp
qed

text \<open>
  C10: The operator's hold is sticky: no step of the daemon releases it but the handling of a manual
  start of that very unit, answered with success in that step.
\<close>

theorem hold_released_only_by_start:
  assumes "daemon_step E cfg b d d'"
    and "n \<in> held (sys_arb (d_sys d))" and "n \<notin> held (sys_arb (d_sys d'))"
  shows "\<exists>reply q. d_queue d = ManualStart n reply # q \<and> d_queue d' = q
    \<and> sys_replies (d_sys d') = (reply, Inr ()) # sys_replies (d_sys d)"
  using assms(1)
proof (cases rule: daemon_step.cases)
  case (Tick pv)
  with assms(2,3) run_pass_holds [of n d E cfg b pv Timer d] show ?thesis by simp
next
  case (Receive t q pv)
  with assms(2,3) run_pass_holds [of n d E cfg b pv t "d\<lparr> d_queue := q \<rparr>"] show ?thesis by auto
next
  case (Carry dl t q pv)
  with assms(2,3) run_pass_holds [of n d E cfg b pv t "d\<lparr> d_queue := q, d_debounce := None \<rparr>"]
  show ?thesis by auto
next
  case (Expire dl pv)
  with assms(2,3) run_pass_holds [of n d E cfg b pv ProcEvent "d\<lparr> d_debounce := None \<rparr>"]
  show ?thesis by simp
qed (use assms(2,3) in simp_all)

theorem hold_released_only_by_start_witness:
  "sys_replies (d_sys (run_pass (sample_os Linux) sample_cfg Nvidia default_presence
     (ManualStart ''ollama.service'' 5) (held_daemon\<lparr> d_queue := [] \<rparr>))) = [(5, Inr ())]"
proof -
  let ?d' = "run_pass (sample_os Linux) sample_cfg Nvidia default_presence
     (ManualStart ''ollama.service'' 5) (held_daemon\<lparr> d_queue := [] \<rparr>)"
  have "daemon_step (sample_os Linux) sample_cfg Nvidia held_daemon ?d'"
    by (rule daemon_step.Receive) (simp_all add: held_daemon_def)
  moreover have "''ollama.service'' \<in> held (sys_arb (d_sys held_daemon))"
    by (simp add: held_daemon_def)
  moreover have "''ollama.service'' \<notin> held (sys_arb (d_sys ?d'))"
    by code_simp
  ultimately obtain reply where "[ManualStart ''ollama.service'' 5] = [ManualStart ''ollama.service'' reply]"
      "sys_replies (d_sys ?d') = (reply, Inr ()) # sys_replies (d_sys held_daemon)"
    using hold_released_only_by_start [of "sample_os Linux" sample_cfg Nvidia held_daemon ?d' "''ollama.service''"]
    by (auto simp only: held_daemon_def daemon.simps list.inject trigger.inject)
  then show ?thesis by (simp add: held_daemon_def sample_sys_def)
qed



text \<open>
  The pass counters tell the history: the manual passes are as many as the replies sent, and
  there was exactly one startup pass.
\<close>

theorem pass_counters_tell_history:
  assumes "reachable E cfg b d"
  shows "pass_count (reconcile_passes (arb_metrics (sys_arb (d_sys d)))) PT_Manual = length (sys_replies (d_sys d))
    \<and> pass_count (reconcile_passes (arb_metrics (sys_arb (d_sys d)))) PT_Startup = 1"
  using reachable_tallied [OF assms] by (simp add: tallied_def Let_def)

theorem pass_counters_tell_history_witness:
  "pass_count (reconcile_passes (arb_metrics (sys_arb (d_sys (sample_daemon (game_world [] [])))))) PT_Startup = 1"
  using pass_counters_tell_history [OF game_reachable] by simp



end
